(* ===== verification/Prelude.thy ===== *)
theory Prelude
  imports Main "HOL-Library.Log_Nat" "HOL-Library.Signed_Division"
begin

text \<open>
  Shared vocabulary of the development: fixed-width integer arithmetic as the Rust code uses
  it (saturating, checked and wrapping operations on natural numbers with the width written
  out), bounded vectors, results as sums, storage maps, and the locale of invariants over a
  step relation that the state machines of the components instantiate.

  Integers of the source are \<open>nat\<close> (unsigned) or \<open>int\<close> (signed); every operation that can
  leave the width is one of the functions below with the width as its first argument.
\<close>

named_theorems arith_defs "definitions of the fixed-width operations"
named_theorems inv_intros "preservation lemmas of the state machines"

section \<open>Fixed-width arithmetic\<close>

definition U32_MAX :: nat where "U32_MAX = 2 ^ 32 - 1"
definition U64_MAX :: nat where "U64_MAX = 2 ^ 64 - 1"
definition U128_MAX :: nat where "U128_MAX = 2 ^ 128 - 1"
definition U256_MAX :: nat where "U256_MAX = 2 ^ 256 - 1"

lemmas MAX_defs = U32_MAX_def U64_MAX_def U128_MAX_def U256_MAX_def

lemma power_le_MAX_iff:
  "x < 2 ^ 32 \<longleftrightarrow> x \<le> U32_MAX" "x < 2 ^ 64 \<longleftrightarrow> x \<le> U64_MAX"
  "x < 2 ^ 128 \<longleftrightarrow> x \<le> U128_MAX" "x < 2 ^ 256 \<longleftrightarrow> x \<le> U256_MAX"
  by (auto simp: MAX_defs)

lemma power_minus_MAX:
  "2 ^ 32 - 1 = U32_MAX" "2 ^ 64 - 1 = U64_MAX" "2 ^ 128 - 1 = U128_MAX" "2 ^ 256 - 1 = U256_MAX"
  by (simp_all only: MAX_defs)

lemma MAX_pos [simp]: "0 < U32_MAX" "0 < U64_MAX" "0 < U128_MAX" "0 < U256_MAX"
  by (simp_all add: MAX_defs)

definition sat_add :: "nat \<Rightarrow> nat \<Rightarrow> nat \<Rightarrow> nat" where
  [arith_defs]: "sat_add w a b = min (a + b) (2 ^ w - 1)"

definition sat_mul :: "nat \<Rightarrow> nat \<Rightarrow> nat \<Rightarrow> nat" where
  [arith_defs]: "sat_mul w a b = min (a * b) (2 ^ w - 1)"

definition wrapping_mul :: "nat \<Rightarrow> nat \<Rightarrow> nat \<Rightarrow> nat" where
  [arith_defs]: "wrapping_mul w a b = (a * b) mod 2 ^ w"

definition wrapping_add :: "nat \<Rightarrow> nat \<Rightarrow> nat \<Rightarrow> nat" where
  [arith_defs]: "wrapping_add w a b = (a + b) mod 2 ^ w"

definition checked_add :: "nat \<Rightarrow> nat \<Rightarrow> nat \<Rightarrow> nat option" where
  [arith_defs]: "checked_add w a b = (if a + b < 2 ^ w then Some (a + b) else None)"

definition checked_mul :: "nat \<Rightarrow> nat \<Rightarrow> nat \<Rightarrow> nat option" where
  [arith_defs]: "checked_mul w a b = (if a * b < 2 ^ w then Some (a * b) else None)"

definition checked_sub :: "nat \<Rightarrow> nat \<Rightarrow> nat option" where
  [arith_defs]: "checked_sub a b = (if b \<le> a then Some (a - b) else None)"

definition checked_div :: "nat \<Rightarrow> nat \<Rightarrow> nat option" where
  [arith_defs]: "checked_div a b = (if b = 0 then None else Some (a div b))"

definition overflowing_mul :: "nat \<Rightarrow> nat \<Rightarrow> nat \<Rightarrow> nat \<times> bool" where
  [arith_defs]: "overflowing_mul w a b = ((a * b) mod 2 ^ w, 2 ^ w \<le> a * b)"

definition wrap_signed :: "nat \<Rightarrow> int \<Rightarrow> int" where
  [arith_defs]: "wrap_signed w x = (x + 2 ^ (w - 1)) mod 2 ^ w - 2 ^ (w - 1)"

lemma wrap_signed_id:
  assumes "0 < w" "- (2 ^ (w - 1)) \<le> x" "x < 2 ^ (w - 1)"
  shows "wrap_signed w x = x"
proof -
  have "(2::int) ^ w = 2 * 2 ^ (w - 1)"
    using assms(1) by (cases w) auto
  then have "(x + 2 ^ (w - 1)) mod 2 ^ w = x + 2 ^ (w - 1)"
    using assms(2,3) by (intro mod_pos_pos_trivial) auto
  then show ?thesis by (simp add: wrap_signed_def)
qed

lemma sat_add_le [simp]: "sat_add w a b \<le> 2 ^ w - 1"
  by (simp add: sat_add_def)

lemma sat_add_exact: "a + b \<le> 2 ^ w - 1 \<Longrightarrow> sat_add w a b = a + b"
  by (simp add: sat_add_def)

lemma sat_add_mono: "a \<le> a' \<Longrightarrow> sat_add w a b \<le> sat_add w a' b"
  by (simp add: sat_add_def)

lemma sat_add_ge_left: "a \<le> 2 ^ w - 1 \<Longrightarrow> a \<le> sat_add w a b"
  by (simp add: sat_add_def)

lemma checked_mul_256: "checked_mul 256 a b = (if a * b \<le> U256_MAX then Some (a * b) else None)"
  by (simp only: checked_mul_def power_le_MAX_iff)

lemma sat_add_32: "sat_add 32 a b = min (a + b) U32_MAX"
  by (simp only: sat_add_def power_minus_MAX)

lemma sat_add_64: "sat_add 64 a b = min (a + b) U64_MAX"
  by (simp only: sat_add_def power_minus_MAX)

lemma sat_add_256: "sat_add 256 a b = min (a + b) U256_MAX"
  by (simp only: sat_add_def power_minus_MAX)

lemma checked_sub_Some_iff: "checked_sub a b = Some c \<longleftrightarrow> b \<le> a \<and> c = a - b"
  by (auto simp: checked_sub_def)

section \<open>Bit length\<close>

definition bits :: "nat \<Rightarrow> nat" where
  "bits n = floorlog 2 n"

lemma bits_0 [simp]: "bits 0 = 0"
  by (simp add: bits_def floorlog_def)

lemma bits_le_iff: "bits n \<le> w \<longleftrightarrow> n < 2 ^ w"
  unfolding bits_def using floorlog_le_iff [of 2 n w] by simp

lemma mult_power_bits_iff:
  assumes "bits n \<le> w" "0 < n"
  shows "n * 2 ^ k < 2 ^ w \<longleftrightarrow> k \<le> w - bits n"
proof -
  have "bits (n * 2 ^ k) = bits n + k"
  proof -
    have "floorlog 2 (n * 2 ^ k) = floorlog 2 n + k"
      using assms(2) by simp
    then show ?thesis by (simp only: bits_def)
  qed
  then show ?thesis
    using assms(1) bits_le_iff [of "n * 2 ^ k" w] by auto
qed

section \<open>Bounded vectors\<close>

definition bv_try_push :: "nat \<Rightarrow> 'a list \<Rightarrow> 'a \<Rightarrow> 'a list option" where
  "bv_try_push bound xs x = (if length xs < bound then Some (xs @ [x]) else None)"

definition bv_is_full :: "nat \<Rightarrow> 'a list \<Rightarrow> bool" where
  "bv_is_full bound xs \<longleftrightarrow> bound \<le> length xs"

definition push_ignore :: "nat \<Rightarrow> 'a list \<Rightarrow> 'a \<Rightarrow> 'a list" where
  "push_ignore bound xs x = (case bv_try_push bound xs x of Some ys \<Rightarrow> ys | None \<Rightarrow> xs)"

lemma push_ignore_simps:
  "push_ignore bound xs x = (if length xs < bound then xs @ [x] else xs)"
  by (simp add: push_ignore_def bv_try_push_def)

lemma length_push_ignore: "length xs \<le> bound \<Longrightarrow> length (push_ignore bound xs x) \<le> bound"
  by (simp add: push_ignore_simps)

section \<open>Results\<close>

fun unwrap_or :: "'a \<Rightarrow> 'e + 'a \<Rightarrow> 'a" where
  "unwrap_or d (Inl e) = d"
| "unwrap_or d (Inr x) = x"

definition bind_res :: "'e + 'a \<Rightarrow> ('a \<Rightarrow> 'e + 'b) \<Rightarrow> 'e + 'b" where
  "bind_res m f = (case m of Inl e \<Rightarrow> Inl e | Inr x \<Rightarrow> f x)"

lemma bind_res_simps [simp]:
  "bind_res (Inl e) f = Inl e" "bind_res (Inr x) f = f x"
  by (simp_all add: bind_res_def)

lemma bind_res_Inr_iff [simp]:
  "bind_res m f = Inr y \<longleftrightarrow> (\<exists>x. m = Inr x \<and> f x = Inr y)"
  by (cases m) auto

lemma bind_res_Inl_iff: "bind_res m f = Inl e \<longleftrightarrow> m = Inl e \<or> (\<exists>x. m = Inr x \<and> f x = Inl e)"
  by (cases m) auto

lemma bind_res_InrE:
  assumes "bind_res m f = Inr y"
  obtains x where "m = Inr x" "f x = Inr y"
  using assms by auto

definition ensure :: "bool \<Rightarrow> 'e \<Rightarrow> 'e + unit" where
  "ensure b e = (if b then Inr () else Inl e)"

lemma ensure_Inr_iff [simp]: "ensure b e = Inr u \<longleftrightarrow> b"
  by (simp add: ensure_def)

lemma ensure_Inl_iff [simp]: "ensure b e = Inl e' \<longleftrightarrow> \<not> b \<and> e' = e"
  by (auto simp: ensure_def)

lemma sum_cases_Inr_iff:
  "(case m of Inl e \<Rightarrow> Inl (g e) | Inr x \<Rightarrow> f x) = Inr y \<longleftrightarrow> (\<exists>x. m = Inr x \<and> f x = Inr y)"
  by (cases m) auto

section \<open>Lists and maps\<close>

lemma find_Some_mem: "find P xs = Some x \<Longrightarrow> x \<in> set xs \<and> P x"
  by (auto simp: find_Some_iff)

lemma remove1_notin: "distinct xs \<Longrightarrow> x \<notin> set (remove1 x xs)"
  by simp

lemma map_filter_append: "List.map_filter f (xs @ ys) = List.map_filter f xs @ List.map_filter f ys"
  by (simp add: map_filter_def)

lemma fold_invariant:
  assumes "P s" "\<And>x s. x \<in> set xs \<Longrightarrow> P s \<Longrightarrow> P (f x s)"
  shows "P (fold f xs s)"
  using assms by (induction xs arbitrary: s) auto

section \<open>Invariants of step relations\<close>

inductive reachable :: "('s \<Rightarrow> bool) \<Rightarrow> ('s \<Rightarrow> 's \<Rightarrow> bool) \<Rightarrow> 's \<Rightarrow> bool"
  for init :: "'s \<Rightarrow> bool" and step :: "'s \<Rightarrow> 's \<Rightarrow> bool" where
  reach_init: "init s \<Longrightarrow> reachable init step s"
| reach_step: "reachable init step s \<Longrightarrow> step s t \<Longrightarrow> reachable init step t"

lemma reachable_mono:
  "reachable init step s \<Longrightarrow> (\<And>s t. step s t \<Longrightarrow> step' s t) \<Longrightarrow> reachable init step' s"
  by (induction rule: reachable.induct) (auto intro: reachable.intros)

locale invariant_system =
  fixes init :: "'s \<Rightarrow> bool"
    and step :: "'s \<Rightarrow> 's \<Rightarrow> bool"
    and inv :: "'s \<Rightarrow> bool"
  assumes init_inv: "init s \<Longrightarrow> inv s"
    and step_inv: "inv s \<Longrightarrow> step s t \<Longrightarrow> inv t"
begin

lemma reachable_inv: "reachable init step s \<Longrightarrow> inv s"
  by (induction rule: reachable.induct) (auto intro: init_inv step_inv)

lemma closure_inv: "step\<^sup>*\<^sup>* s t \<Longrightarrow> inv s \<Longrightarrow> inv t"
  by (induction rule: rtranclp_induct) (auto intro: step_inv)

lemma reachable_closure: "reachable init step s \<Longrightarrow> step\<^sup>*\<^sup>* s t \<Longrightarrow> inv t"
  using reachable_inv closure_inv by blast

end

end
