(* ===== verification/Digest.thy ===== *)
theory Digest
  imports Bytes
begin

text \<open>
  Block digests and the search for the block author: \<open>PowFindAuthor\<close> of
  \<open>runtime/src/configs/mod.rs\<close>, which the reward pallet, the fee split and the equivocation
  reports share. The engine id of proof of work and the decoder of an account id belong to
  libraries and are arguments.

  The locale \<open>author_finder\<close> is what those clients rely on: entries of other engines do not
  matter and the first entry of the PoW engine decides.
\<close>

type_synonym engine_id = bytes

datatype digest_item =
    PreRuntime engine_id bytes
  | Consensus engine_id bytes
  | Seal_item engine_id bytes
  | Other_item bytes
  | RuntimeEnvironmentUpdated

fun as_pre_runtime :: "digest_item \<Rightarrow> (engine_id \<times> bytes) option" where
  "as_pre_runtime (PreRuntime e d) = Some (e, d)"
| "as_pre_runtime _ = None"

fun pow_find_author :: "engine_id \<Rightarrow> (bytes \<Rightarrow> 'acc option) \<Rightarrow> (engine_id \<times> bytes) list \<Rightarrow> 'acc option" where
  "pow_find_author pow_id decode [] = None"
| "pow_find_author pow_id decode ((engine, data) # digests) =
     (if engine = pow_id then decode data else pow_find_author pow_id decode digests)"

locale author_finder =
  fixes pow_id :: engine_id
    and decode :: "bytes \<Rightarrow> 'acc option"
    and find_author :: "(engine_id \<times> bytes) list \<Rightarrow> 'acc option"
  assumes none: "(\<And>e d. (e, d) \<in> set ds \<Longrightarrow> e \<noteq> pow_id) \<Longrightarrow> find_author ds = None"
    and first: "(\<And>e d. (e, d) \<in> set ds \<Longrightarrow> e \<noteq> pow_id) \<Longrightarrow>
      find_author (ds @ (pow_id, data) # rest) = decode data"
begin

lemma author_of_logs:
  assumes "\<And>d. PreRuntime pow_id d \<notin> set pre"
  shows "find_author (List.map_filter as_pre_runtime (pre @ PreRuntime pow_id data # post)) = decode data"
proof -
  have "e \<noteq> pow_id" if "(e, d) \<in> set (List.map_filter as_pre_runtime pre)" for e d
    using that assms by (auto simp: map_filter_def elim!: as_pre_runtime.elims)
  then show ?thesis
    by (simp add: map_filter_append map_filter_simps first)
qed

lemma no_author:
  assumes "\<And>d. PreRuntime pow_id d \<notin> set logs"
  shows "find_author (List.map_filter as_pre_runtime logs) = None"
  using assms by (intro none) (auto simp: map_filter_def elim!: as_pre_runtime.elims)

end

interpretation pow_author: author_finder pow_id decode "pow_find_author pow_id decode"
  for pow_id decode
proof
  fix ds rest :: "(engine_id \<times> bytes) list" and data
  assume other: "\<And>e d. (e, d) \<in> set ds \<Longrightarrow> e \<noteq> pow_id"
  then show "pow_find_author pow_id decode ds = None"
    by (induction ds) force+
  from other show "pow_find_author pow_id decode (ds @ (pow_id, data) # rest) = decode data"
    by (induction ds) force+
qed

end
