(* ===== verification/Reward.thy ===== *)
theory Reward
  imports Digest
begin

text \<open>
  The reward pallet (\<open>pallets/reward/src/lib.rs\<close>). The \<open>while\<close> loop of \<open>block_reward\<close> is the
  recursion \<open>halve_loop\<close>; a zero halving interval makes the division panic (\<open>None\<close>). The
  currency is a parameter: its state, \<open>deposit_creating\<close> and the total issuance.

  The lemmas give the closed form of the reward, the bound on everything ever minted, and
  who is paid.
\<close>

section \<open>Operations\<close>

fun halve_loop :: "nat \<Rightarrow> nat \<Rightarrow> nat" where
  "halve_loop halvings reward =
     (if halvings \<noteq> 0 \<and> reward \<noteq> 0 then halve_loop (halvings - 1) (reward div 2) else reward)"

declare halve_loop.simps [simp del]

definition block_reward :: "nat \<Rightarrow> nat \<Rightarrow> nat \<Rightarrow> nat option" where
  "block_reward initial_reward halving_interval n =
     (case checked_div n halving_interval of
        None \<Rightarrow> None
      | Some halvings \<Rightarrow> Some (halve_loop halvings initial_reward))"

definition reward_find_author :: "((engine_id \<times> bytes) list \<Rightarrow> 'acc option) \<Rightarrow> digest_item list \<Rightarrow> 'acc option" where
  "reward_find_author find_author digest = find_author (List.map_filter as_pre_runtime digest)"

record ('acc, 'bal) currency =
  deposit_creating :: "'acc \<Rightarrow> nat \<Rightarrow> 'bal \<Rightarrow> 'bal"
  total_issuance :: "'bal \<Rightarrow> nat"

definition reward_on_finalize ::
  "('acc, 'bal) currency \<Rightarrow> ((engine_id \<times> bytes) list \<Rightarrow> 'acc option) \<Rightarrow> nat \<Rightarrow> nat \<Rightarrow>
   digest_item list \<Rightarrow> nat \<Rightarrow> 'bal \<Rightarrow> 'bal option" where
  "reward_on_finalize cur find_author initial_reward halving_interval digest n bal =
     (case reward_find_author find_author digest of
        None \<Rightarrow> Some bal
      | Some author \<Rightarrow>
          (case block_reward initial_reward halving_interval n of
             None \<Rightarrow> None
           | Some reward \<Rightarrow> Some (if reward \<noteq> 0 then deposit_creating cur author reward bal else bal)))"

text \<open>The hook over a chain of blocks, the block at height \<open>n\<close> first.\<close>

fun reward_chain ::
  "('acc, 'bal) currency \<Rightarrow> ((engine_id \<times> bytes) list \<Rightarrow> 'acc option) \<Rightarrow> nat \<Rightarrow> nat \<Rightarrow>
   nat \<Rightarrow> digest_item list list \<Rightarrow> 'bal \<Rightarrow> 'bal option" where
  "reward_chain cur find_author i k n [] bal = Some bal"
| "reward_chain cur find_author i k n (digest # digests) bal =
     (case reward_on_finalize cur find_author i k digest n bal of
        None \<Rightarrow> None
      | Some bal' \<Rightarrow> reward_chain cur find_author i k (Suc n) digests bal')"

text \<open>
  What \<open>Currency::deposit_creating\<close> documents of the issuance: the account is credited with
  at most the given value, and the issuance grows by what was credited.
\<close>

definition deposit_law :: "('acc, 'bal) currency \<Rightarrow> bool" where
  "deposit_law cur \<longleftrightarrow>
     (\<forall>a v b. total_issuance cur (deposit_creating cur a v b) \<le> total_issuance cur b + v)"

section \<open>Library\<close>

lemma halve_loop_eq: "halve_loop h r = r div 2 ^ h"
proof (induction h arbitrary: r)
  case 0
  show ?case by (simp add: halve_loop.simps)
next
  case (Suc h)
  then show ?case by (subst halve_loop.simps) (simp add: div_mult2_eq)
qed

lemma block_reward_eq: "0 < k \<Longrightarrow> block_reward i k n = Some (i div 2 ^ (n div k))"
  by (simp add: block_reward_def checked_div_def halve_loop_eq)

text \<open>Blocks grouped by halving period.\<close>

lemma sum_period:
  assumes "0 < (k::nat)"
  shows "(\<Sum>n<k * m. f (n div k)) = k * (\<Sum>j<m. f j :: nat)"
proof (induction m)
  case (Suc m)
  have "(\<Sum>n<k * Suc m. f (n div k)) = (\<Sum>n<k * m. f (n div k)) + (\<Sum>n\<in>{k * m..<k * m + k}. f (n div k))"
    by (simp add: lessThan_atLeast0 add.commute [of k] sum.atLeastLessThan_concat)
  also have "(\<Sum>n\<in>{k * m..<k * m + k}. f (n div k)) = (\<Sum>n\<in>{k * m..<k * m + k}. f m)"
    using assms by (intro sum.cong) (auto simp: div_nat_eqI mult.commute)
  finally show ?case using Suc by (simp add: algebra_simps)
qed simp

lemma sum_halvings: "(\<Sum>j<Suc m. i div 2 ^ j) + i div 2 ^ m \<le> 2 * (i::nat)"
proof (induction m)
  case (Suc m)
  have "i div 2 ^ Suc m + i div 2 ^ Suc m \<le> i div 2 ^ m"
    by (simp add: div_mult2_eq mult.commute [of 2])
  with Suc show ?case by simp
qed simp

lemma sum_rewards:
  assumes "0 < k"
  shows "(\<Sum>n<N. i div 2 ^ (n div k)) \<le> 2 * i * k"
proof -
  have "N \<le> k * Suc (N div k)"
    using assms by (metis dividend_less_times_div less_imp_le mult.commute mult_Suc_right)
  then have "(\<Sum>n<N. i div 2 ^ (n div k)) \<le> (\<Sum>n<k * Suc (N div k). i div 2 ^ (n div k))"
    by (intro sum_mono2) auto
  also have "\<dots> = k * (\<Sum>j<Suc (N div k). i div 2 ^ j)"
    by (rule sum_period [OF assms])
  also have "\<dots> \<le> k * (2 * i)"
    using sum_halvings [of i "N div k"] by (intro mult_le_mono2) linarith
  finally show ?thesis by (simp add: mult.commute)
qed

lemma reward_step_issuance:
  assumes "0 < k" "deposit_law cur"
  shows "\<exists>bal'. reward_on_finalize cur fa i k d n bal = Some bal'
    \<and> total_issuance cur bal' \<le> total_issuance cur bal + i div 2 ^ (n div k)"
  using assms by (cases "reward_find_author fa d")
    (auto simp: reward_on_finalize_def block_reward_eq deposit_law_def)

lemma reward_chain_issuance:
  assumes "0 < k" "deposit_law cur"
  shows "\<exists>bal'. reward_chain cur fa i k n ds bal = Some bal' \<and>
    total_issuance cur bal' \<le> total_issuance cur bal + (\<Sum>m\<in>{n..<n + length ds}. i div 2 ^ (m div k))"
proof (induction ds arbitrary: n bal)
  case (Cons d ds)
  obtain bal1 where 1: "reward_on_finalize cur fa i k d n bal = Some bal1"
    "total_issuance cur bal1 \<le> total_issuance cur bal + i div 2 ^ (n div k)"
    using reward_step_issuance [OF assms] by blast
  obtain bal' where "reward_chain cur fa i k (Suc n) ds bal1 = Some bal'"
    "total_issuance cur bal' \<le> total_issuance cur bal1 + (\<Sum>m\<in>{Suc n..<Suc n + length ds}. i div 2 ^ (m div k))"
    using Cons [of "Suc n" bal1] by blast
  moreover have "{n..<n + length (d # ds)} = insert n {Suc n..<Suc n + length ds}"
    by auto
  ultimately show ?case
    using 1 by simp
qed simp

lemma reward_chain_cap:
  assumes "0 < k" "deposit_law cur"
  shows "\<exists>bal'. reward_chain cur fa i k n ds bal = Some bal' \<and>
    total_issuance cur bal' \<le> total_issuance cur bal + 2 * i * k"
proof -
  have "(\<Sum>m\<in>{n..<n + length ds}. i div 2 ^ (m div k)) \<le> (\<Sum>m<n + length ds. i div 2 ^ (m div k))"
    by (intro sum_mono2) auto
  also have "\<dots> \<le> 2 * i * k"
    by (rule sum_rewards [OF assms(1)])
  finally show ?thesis
    using reward_chain_issuance [OF assms, of fa i n ds bal] by force
qed

section \<open>Properties\<close>

text \<open>
  C16: The emission cap. Whatever the blocks contain and from whatever height the chain is
  counted, the hook returns at every block and all rewards together raise the total issuance
  by at most \<open>2 * InitialReward * HalvingInterval\<close>.
\<close>

theorem reward_supply_cap:
  assumes "0 < halving_interval" "deposit_law cur"
  shows "\<exists>bal'. reward_chain cur fa initial_reward halving_interval n digests bal = Some bal' \<and>
    total_issuance cur bal' \<le> total_issuance cur bal + 2 * initial_reward * halving_interval"
  using reward_chain_cap [OF assms] .

definition sample_currency :: "(nat, nat \<Rightarrow> nat) currency" where
  "sample_currency = \<lparr> deposit_creating = (\<lambda>a v b. b(a := b a + v)), total_issuance = (\<lambda>b. b 0 + b 1) \<rparr>"

lemma sample_deposit_law: "deposit_law sample_currency"
  by (auto simp: deposit_law_def sample_currency_def)

theorem reward_supply_cap_witness:
  "\<exists>bal'. reward_chain sample_currency (\<lambda>ds. if ds = [] then None else Some 0) 16 3 1
      [[PreRuntime [1] [2]], [], [PreRuntime [1] [2]]] (\<lambda>_. 0) = Some bal'
    \<and> total_issuance sample_currency bal' \<le> 0 + 0 + 96"
  using reward_supply_cap [of 3 sample_currency "\<lambda>ds. if ds = [] then None else Some 0" 16 1
      "[[PreRuntime [1] [2]], [], [PreRuntime [1] [2]]]" "\<lambda>_. 0"] sample_deposit_law
  by (simp add: sample_currency_def)

text \<open>
  The loop computes the halving schedule exactly: the reward at height \<open>n\<close> is
  \<open>InitialReward\<close> shifted right once per elapsed interval. It never grows with the height and is
  zero for good from the height where every bit has been shifted out.
\<close>

theorem block_reward_schedule:
  assumes "0 < halving_interval" "n \<le> m"
  shows "block_reward i halving_interval n = Some (drop_bit (n div halving_interval) i)
    \<and> (\<exists>r r'. block_reward i halving_interval n = Some r \<and> block_reward i halving_interval m = Some r' \<and> r' \<le> r)
    \<and> (bits i * halving_interval \<le> n \<longrightarrow> block_reward i halving_interval m = Some 0)"
proof -
  have le: "n div halving_interval \<le> m div halving_interval"
    using assms(2) by (rule div_le_mono)
  have "i div 2 ^ (m div halving_interval) \<le> i div 2 ^ (n div halving_interval)"
    using le by (intro div_le_mono2 power_increasing) auto
  moreover have "i div 2 ^ (m div halving_interval) = 0" if "bits i * halving_interval \<le> n"
  proof -
    have "bits i \<le> n div halving_interval"
      using that assms(1) by (simp add: less_eq_div_iff_mult_less_eq)
    then have "bits i \<le> m div halving_interval"
      using le by linarith
    then show ?thesis
      by (simp add: bits_le_iff)
  qed
  ultimately show ?thesis
    using assms(1) by (simp add: block_reward_eq drop_bit_eq_div)
qed

theorem block_reward_schedule_witness:
  "block_reward 16 3 7 = Some 4 \<and> block_reward 16 3 15 = Some 0"
  using block_reward_schedule [of 3 7 7 16] block_reward_schedule [of 3 15 15 16]
  by (simp add: drop_bit_eq_div bits_def compute_floorlog)

text \<open>
  The reward goes to the account in the block's first PoW pre-runtime digest, in full, and
  a block that carries no such digest mints nothing.
\<close>

theorem reward_paid_to_miner:
  assumes "0 < k" "\<And>d. PreRuntime pow_id d \<notin> set pre"
    and "decode payload = Some author" "i div 2 ^ (n div k) \<noteq> 0"
  shows "reward_on_finalize cur (pow_find_author pow_id decode) i k pre n bal = Some bal
    \<and> reward_on_finalize cur (pow_find_author pow_id decode) i k (pre @ PreRuntime pow_id payload # post) n bal
        = Some (deposit_creating cur author (i div 2 ^ (n div k)) bal)"
  using assms(1,3,4)
  by (simp add: reward_on_finalize_def reward_find_author_def block_reward_eq
      pow_author.no_author [OF assms(2)] pow_author.author_of_logs [OF assms(2)])

theorem reward_paid_to_miner_witness:
  "reward_on_finalize sample_currency (pow_find_author [112] (\<lambda>d. if d = [7] then Some 1 else None)) 16 3
     ([Consensus [112] [9], PreRuntime [65] [1]] @ PreRuntime [112] [7] # [PreRuntime [112] [8]]) 4 (\<lambda>_. 0)
   = Some ((\<lambda>_. 0)(1 := 8))"
proof -
  have "PreRuntime [112] d \<notin> set [Consensus [112] [9], PreRuntime [65] [1]]" for d
    by simp
  from reward_paid_to_miner [OF _ this, of 3 "\<lambda>d. if d = [7] then Some 1 else None" "[7]" 1 16 4 sample_currency "\<lambda>_. 0" "[PreRuntime [112] [8]]"]
  show ?thesis by (simp add: sample_currency_def)
qed

end
