(* ===== verification/Origins.thy ===== *)
theory Origins
  imports Prelude
begin

text \<open>
  Dispatch origins and the prime pallet (\<open>pallets/prime/src/lib.rs\<close>). \<open>raw_origin\<close> has the
  constructors of \<open>frame_system::RawOrigin\<close>; a runtime origin is either a raw origin or one of
  the origins other pallets declare, which \<open>runtime_origin\<close> carries as an abstract value. An
  \<open>EnsureOrigin\<close> is a function that gives its success value or hands the origin back.
\<close>

datatype 'a raw_origin = Root | Signed 'a | None_origin

datatype ('a, 'x) runtime_origin = System_origin "'a raw_origin" | Custom_origin 'x

type_synonym ('a, 'x, 's) ensure_origin = "('a, 'x) runtime_origin \<Rightarrow> ('a, 'x) runtime_origin + 's"

fun ensure_signed :: "('a, 'x) runtime_origin \<Rightarrow> 'a option" where
  "ensure_signed (System_origin (Signed who)) = Some who"
| "ensure_signed _ = None"

lemma ensure_signed_Some_iff [simp]: "ensure_signed o' = Some a \<longleftrightarrow> o' = System_origin (Signed a)"
  by (cases o' rule: ensure_signed.cases) auto

section \<open>The prime pallet\<close>

datatype 'a prime_event = KeyChanged 'a 'a

datatype prime_error = RequirePrime | PrimeBadOrigin

record 'a prime_state =
  Key :: "'a option"
  prime_events :: "'a prime_event list"

definition prime_genesis :: "'a option \<Rightarrow> 'a prime_state" where
  "prime_genesis key = \<lparr> Key = key, prime_events = [] \<rparr>"

definition ensure_prime :: "'a prime_state \<Rightarrow> ('a, 'x) runtime_origin \<Rightarrow> prime_error + 'a" where
  "ensure_prime s origin =
     (case ensure_signed origin of
        None \<Rightarrow> Inl PrimeBadOrigin
      | Some who \<Rightarrow> bind_res (ensure (Key s = Some who) RequirePrime) (\<lambda>_. Inr who))"

definition set_key :: "('a, 'x) runtime_origin \<Rightarrow> 'a \<Rightarrow> 'a prime_state \<Rightarrow> prime_error + 'a prime_state" where
  "set_key origin new s =
     bind_res (ensure_prime s origin) (\<lambda>old.
     Inr (s \<lparr> Key := Some new, prime_events := prime_events s @ [KeyChanged old new] \<rparr>))"

definition upgrade ::
  "('a, 'x, unit) ensure_origin \<Rightarrow> ('a raw_origin \<Rightarrow> 'code \<Rightarrow> 'e + 'r) \<Rightarrow>
    ('a, 'x) runtime_origin \<Rightarrow> 'code \<Rightarrow> (prime_error + 'e) + 'r" where
  "upgrade upgrade_origin set_code origin code =
     (case upgrade_origin origin of
        Inl _ \<Rightarrow> Inl (Inl PrimeBadOrigin)
      | Inr _ \<Rightarrow> map_sum Inr id (set_code Root code))"

definition EnsurePrime :: "'a prime_state \<Rightarrow> ('a, 'x, 'a) ensure_origin" where
  "EnsurePrime s origin =
     (case origin of
        System_origin (Signed who) \<Rightarrow> if Key s = Some who then Inr who else Inl origin
      | _ \<Rightarrow> Inl origin)"

lemma EnsurePrime_Inr_iff: "EnsurePrime s origin = Inr who \<longleftrightarrow> origin = System_origin (Signed who) \<and> Key s = Some who"
  by (auto simp: EnsurePrime_def split: runtime_origin.splits raw_origin.splits if_splits)

lemma ensure_prime_Inr_iff: "ensure_prime s origin = Inr who \<longleftrightarrow> origin = System_origin (Signed who) \<and> Key s = Some who"
  by (auto simp: ensure_prime_def split: option.splits)

end
