(* ===== verification/Validator.thy ===== *)
theory Validator
  imports Origins
begin

text \<open>
  The validator pallet (\<open>pallets/validator/src/lib.rs\<close>): the storage items as the record
  \<open>vstate\<close>, the constants of \<open>Config\<close> as \<open>vconfig\<close>, one definition per dispatchable, hook and
  session callback. Storage maps with unit values are sets, the events are a log.

  What the pallet calls outside itself is a parameter: the lockable currency (\<open>lock_currency\<close>,
  with the documented laws of \<open>set_lock\<close> and \<open>remove_lock\<close> as \<open>lock_currency_laws\<close>), and in
  \<open>venv\<close> the block number, the session-key registry, the identity gate and the order in which
  the storage trie enumerates keys. A dispatchable that fails returns only its error, since
  its storage changes are rolled back.
\<close>

section \<open>Data\<close>

datatype ValidatorStatus = Active | ExitRequested | Kicked

record LockInfo =
  amount :: nat
  lock_block :: nat
  expiry_block :: nat
  status :: ValidatorStatus

datatype KickReason = Offline | Equivocation

datatype 'a vevent =
    ValidatorLocked 'a nat nat
  | ValidatorExitRequested 'a
  | ValidatorKicked 'a KickReason
  | LockReleased 'a nat
  | EquivocationReported 'a
  | PendingValidatorDropped 'a
  | StakeExemptSet 'a bool

datatype verror =
    AlreadyValidator | NotValidator | InvalidStatus | LockNotExpired | InCooldown
  | InsufficientBalance | TooManyValidators | SessionKeysNotRegistered | IdentityNotQualified
  | VBadOrigin

record vconfig =
  LockAmount :: nat
  LockDuration :: nat
  MaxValidators :: nat
  RenewInterval :: nat
  OfflineThreshold :: nat
  RejoinCooldownPeriod :: nat

record 'a venv =
  block_number :: nat
  has_keys :: "'a \<Rightarrow> bool"
  identity_gate :: "'a \<Rightarrow> bool"
  trie_order :: "'a set \<Rightarrow> 'a list"

record ('a, 'c) lock_currency =
  set_lock :: "'a \<Rightarrow> nat \<Rightarrow> 'c \<Rightarrow> 'c"
  remove_lock :: "'a \<Rightarrow> 'c \<Rightarrow> 'c"
  free_balance :: "'c \<Rightarrow> 'a \<Rightarrow> nat"
  locked :: "'c \<Rightarrow> 'a \<Rightarrow> nat"

record ('a, 'c) vstate =
  ValidatorLocks :: "'a \<rightharpoonup> LockInfo"
  PendingValidators :: "'a list"
  DesiredValidators :: "'a list"
  StakeExemptAccounts :: "'a set"
  RejoinCooldown :: "'a \<rightharpoonup> nat"
  OfflineSessionCount :: "'a \<rightharpoonup> nat"
  OfflineThisSession :: "'a set"
  EquivocationThisSession :: "'a set"
  vevents :: "'a vevent list"
  vcurrency :: 'c

definition deposit_event :: "'a vevent \<Rightarrow> ('a, 'c) vstate \<Rightarrow> ('a, 'c) vstate" where
  "deposit_event e s = s \<lparr> vevents := vevents s @ [e] \<rparr>"

definition is_active :: "('a, 'c) vstate \<Rightarrow> 'a \<Rightarrow> bool" where
  "is_active s who = (case ValidatorLocks s who of Some info \<Rightarrow> status info = Active | None \<Rightarrow> False)"

section \<open>Genesis\<close>

definition vgenesis_one :: "vconfig \<Rightarrow> 'a \<Rightarrow> ('a, 'c) vstate \<times> 'a list \<Rightarrow> (('a, 'c) vstate \<times> 'a list) option" where
  "vgenesis_one cfg who acc =
     (let (s, active) = acc in
      if ValidatorLocks s who \<noteq> None then Some (s, active)
      else
        (let s = s \<lparr> ValidatorLocks := (ValidatorLocks s)(who \<mapsto>
                       \<lparr> amount = 0, lock_block = 0, expiry_block = sat_add 32 0 (LockDuration cfg),
                         status = Active \<rparr>),
                     StakeExemptAccounts := insert who (StakeExemptAccounts s) \<rparr>
         in case bv_try_push (MaxValidators cfg) active who of
              None \<Rightarrow> None
            | Some active \<Rightarrow> Some (s, active)))"

fun vgenesis_loop :: "vconfig \<Rightarrow> 'a list \<Rightarrow> ('a, 'c) vstate \<times> 'a list \<Rightarrow> (('a, 'c) vstate \<times> 'a list) option" where
  "vgenesis_loop cfg [] acc = Some acc"
| "vgenesis_loop cfg (who # rest) acc =
     (case vgenesis_one cfg who acc of None \<Rightarrow> None | Some acc \<Rightarrow> vgenesis_loop cfg rest acc)"

definition empty_vstate :: "'c \<Rightarrow> ('a, 'c) vstate" where
  "empty_vstate c =
     \<lparr> ValidatorLocks = Map.empty, PendingValidators = [], DesiredValidators = [],
       StakeExemptAccounts = {}, RejoinCooldown = Map.empty, OfflineSessionCount = Map.empty,
       OfflineThisSession = {}, EquivocationThisSession = {}, vevents = [], vcurrency = c \<rparr>"

definition vgenesis_build :: "vconfig \<Rightarrow> 'c \<Rightarrow> 'a list \<Rightarrow> ('a, 'c) vstate option" where
  "vgenesis_build cfg c initial_validators =
     (case vgenesis_loop cfg initial_validators (empty_vstate c, []) of
        None \<Rightarrow> None
      | Some (s, active) \<Rightarrow> Some (s \<lparr> DesiredValidators := active \<rparr>))"

section \<open>The block hook\<close>

definition sweep_scan ::
  "vconfig \<Rightarrow> nat \<Rightarrow> ('a, 'c) vstate \<Rightarrow> 'a \<Rightarrow> nat \<times> ('a \<times> nat) list \<times> 'a list \<Rightarrow> nat \<times> ('a \<times> nat) list \<times> 'a list" where
  "sweep_scan cfg now s who acc =
     (let (scanned, to_release, to_renew) = acc in
      case ValidatorLocks s who of
        None \<Rightarrow> acc
      | Some info \<Rightarrow>
          (let scanned = sat_add 32 scanned 1 in
           if expiry_block info \<le> now then (scanned, to_release @ [(who, amount info)], to_renew)
           else if RenewInterval cfg = 0 \<or> status info \<noteq> Active then (scanned, to_release, to_renew)
           else
             (let remaining = expiry_block info - now;
                  elapsed_window = LockDuration cfg - remaining
              in if RenewInterval cfg \<le> elapsed_window
                 then (scanned, to_release, to_renew @ [who])
                 else (scanned, to_release, to_renew))))"

definition release_lock :: "('a, 'c) lock_currency \<Rightarrow> 'a \<times> nat \<Rightarrow> ('a, 'c) vstate \<Rightarrow> ('a, 'c) vstate" where
  "release_lock cur wa s =
     (let (who, amt) = wa;
          s = s \<lparr> vcurrency := remove_lock cur who (vcurrency s) \<rparr>;
          s = s \<lparr> ValidatorLocks := (ValidatorLocks s)(who := None) \<rparr>
      in deposit_event (LockReleased who amt) s)"

definition renew_lock :: "vconfig \<Rightarrow> nat \<Rightarrow> 'a \<Rightarrow> ('a, 'c) vstate \<Rightarrow> ('a, 'c) vstate" where
  "renew_lock cfg now who s =
     (case ValidatorLocks s who of
        None \<Rightarrow> s
      | Some info \<Rightarrow>
          (let info = info \<lparr> expiry_block := sat_add 32 now (LockDuration cfg) \<rparr>
           in deposit_event (ValidatorLocked who (amount info) (expiry_block info))
                (s \<lparr> ValidatorLocks := (ValidatorLocks s)(who \<mapsto> info) \<rparr>)))"

text \<open>The result pairs the new state with the scan length that the weight is billed on.\<close>

definition von_initialize ::
  "vconfig \<Rightarrow> ('a, 'c) lock_currency \<Rightarrow> 'a venv \<Rightarrow> ('a, 'c) vstate \<Rightarrow> ('a, 'c) vstate \<times> nat" where
  "von_initialize cfg cur env s =
     (let now = block_number env;
          (scanned, to_release, to_renew) =
            fold (sweep_scan cfg now s) (trie_order env (dom (ValidatorLocks s))) (0, [], []);
          s = fold (release_lock cur) to_release s;
          s = fold (renew_lock cfg now) to_renew s
      in (s, scanned))"

section \<open>Dispatchables\<close>

definition required_lock :: "vconfig \<Rightarrow> ('a, 'c) vstate \<Rightarrow> 'a \<Rightarrow> nat" where
  "required_lock cfg s who = (if who \<in> StakeExemptAccounts s then 0 else LockAmount cfg)"

definition lock ::
  "vconfig \<Rightarrow> ('a, 'c) lock_currency \<Rightarrow> 'a venv \<Rightarrow> ('a, 'x) runtime_origin \<Rightarrow> ('a, 'c) vstate \<Rightarrow>
   verror + ('a, 'c) vstate" where
  "lock cfg cur env origin s =
     (case ensure_signed origin of
        None \<Rightarrow> Inl VBadOrigin
      | Some who \<Rightarrow>
          (let active = DesiredValidators s; pending = PendingValidators s in
           if who \<in> set active \<or> who \<in> set pending then Inl AlreadyValidator
           else if \<not> sat_add 32 (length active) (length pending) < MaxValidators cfg then Inl TooManyValidators
           else if \<not> has_keys env who then Inl SessionKeysNotRegistered
           else if \<not> identity_gate env who then Inl IdentityNotQualified
           else
             (let now = block_number env in
              if (case RejoinCooldown s who of Some deadline \<Rightarrow> now \<le> deadline | None \<Rightarrow> False)
              then Inl InCooldown
              else
                (let s = s \<lparr> RejoinCooldown := (RejoinCooldown s)(who := None) \<rparr>;
                     required = required_lock cfg s who;
                     fresh_expiry = sat_add 32 now (LockDuration cfg);
                     (amt, expiry) =
                       (case ValidatorLocks s who of
                          Some previous \<Rightarrow> (max (amount previous) required, max (expiry_block previous) fresh_expiry)
                        | None \<Rightarrow> (required, fresh_expiry))
                 in if \<not> amt \<le> free_balance cur (vcurrency s) who then Inl InsufficientBalance
                    else
                      (let s = s \<lparr> PendingValidators := push_ignore (MaxValidators cfg) (PendingValidators s) who \<rparr>;
                           s = s \<lparr> vcurrency := set_lock cur who amt (vcurrency s) \<rparr>;
                           s = s \<lparr> ValidatorLocks := (ValidatorLocks s)(who \<mapsto>
                                     \<lparr> amount = amt, lock_block = now, expiry_block = expiry, status = Active \<rparr>) \<rparr>
                       in Inr (deposit_event (ValidatorLocked who amt expiry) s))))))"

definition request_exit :: "('a, 'x) runtime_origin \<Rightarrow> ('a, 'c) vstate \<Rightarrow> verror + ('a, 'c) vstate" where
  "request_exit origin s =
     (case ensure_signed origin of
        None \<Rightarrow> Inl VBadOrigin
      | Some who \<Rightarrow>
          (case ValidatorLocks s who of
             None \<Rightarrow> Inl NotValidator
           | Some info \<Rightarrow>
               if status info \<noteq> Active then Inl InvalidStatus
               else
                 (let s = s \<lparr> ValidatorLocks := (ValidatorLocks s)(who \<mapsto> info \<lparr> status := ExitRequested \<rparr>) \<rparr>;
                      s = s \<lparr> PendingValidators := remove1 who (PendingValidators s) \<rparr>
                  in Inr (deposit_event (ValidatorExitRequested who) s))))"

definition set_stake_exempt ::
  "(('a, 'x) runtime_origin \<Rightarrow> bool) \<Rightarrow> ('a, 'x) runtime_origin \<Rightarrow> 'a \<Rightarrow> bool \<Rightarrow> ('a, 'c) vstate \<Rightarrow>
   verror + ('a, 'c) vstate" where
  "set_stake_exempt exempt_origin origin who exempt s =
     (if \<not> exempt_origin origin then Inl VBadOrigin
      else
        (let s = (if exempt then s \<lparr> StakeExemptAccounts := insert who (StakeExemptAccounts s) \<rparr>
                  else s \<lparr> StakeExemptAccounts := StakeExemptAccounts s - {who} \<rparr>)
         in Inr (deposit_event (StakeExemptSet who exempt) s)))"

section \<open>Reports\<close>

definition note_offline :: "'a \<Rightarrow> ('a, 'c) vstate \<Rightarrow> ('a, 'c) vstate" where
  "note_offline who s =
     (if ValidatorLocks s who = None then s
      else s \<lparr> OfflineThisSession := insert who (OfflineThisSession s) \<rparr>)"

definition note_equivocation :: "'a \<Rightarrow> ('a, 'c) vstate \<Rightarrow> ('a, 'c) vstate" where
  "note_equivocation who s =
     (if \<not> is_active s who then s
      else if who \<in> EquivocationThisSession s then s
      else deposit_event (EquivocationReported who)
             (s \<lparr> EquivocationThisSession := insert who (EquivocationThisSession s) \<rparr>))"

section \<open>The session boundary\<close>

definition kick_validator ::
  "vconfig \<Rightarrow> 'a venv \<Rightarrow> 'a \<Rightarrow> KickReason \<Rightarrow> ('a, 'c) vstate \<Rightarrow> ('a, 'c) vstate \<times> bool" where
  "kick_validator cfg env who reason s =
     (case ValidatorLocks s who of
        None \<Rightarrow> (s, False)
      | Some info \<Rightarrow>
          if status info \<noteq> Active then (s, False)
          else
            (let s = s \<lparr> ValidatorLocks := (ValidatorLocks s)(who \<mapsto> info \<lparr> status := Kicked \<rparr>) \<rparr>;
                 s = s \<lparr> RejoinCooldown := (RejoinCooldown s)(who \<mapsto>
                           sat_add 32 (block_number env) (RejoinCooldownPeriod cfg)) \<rparr>;
                 s = s \<lparr> OfflineSessionCount := (OfflineSessionCount s)(who := None) \<rparr>;
                 s = s \<lparr> OfflineThisSession := OfflineThisSession s - {who} \<rparr>
             in (deposit_event (ValidatorKicked who reason) s, True)))"

definition process_equivocations :: "vconfig \<Rightarrow> 'a venv \<Rightarrow> ('a, 'c) vstate \<Rightarrow> ('a, 'c) vstate" where
  "process_equivocations cfg env s =
     (let flagged = trie_order env (EquivocationThisSession s);
          s = s \<lparr> EquivocationThisSession := {} \<rparr>
      in fold (\<lambda>who s. fst (kick_validator cfg env who Equivocation s)) flagged s)"

definition offline_one :: "vconfig \<Rightarrow> 'a venv \<Rightarrow> 'a \<Rightarrow> ('a, 'c) vstate \<Rightarrow> ('a, 'c) vstate" where
  "offline_one cfg env who s =
     (if \<not> is_active s who then s \<lparr> OfflineSessionCount := (OfflineSessionCount s)(who := None) \<rparr>
      else if who \<notin> OfflineThisSession s then s \<lparr> OfflineSessionCount := (OfflineSessionCount s)(who := None) \<rparr>
      else
        (let s = s \<lparr> OfflineThisSession := OfflineThisSession s - {who} \<rparr>;
             count = sat_add 32 (case OfflineSessionCount s who of Some c \<Rightarrow> c | None \<Rightarrow> 0) 1
         in if count < OfflineThreshold cfg
            then s \<lparr> OfflineSessionCount := (OfflineSessionCount s)(who \<mapsto> count) \<rparr>
            else fst (kick_validator cfg env who Offline s)))"

definition process_offline_counters :: "vconfig \<Rightarrow> 'a venv \<Rightarrow> ('a, 'c) vstate \<Rightarrow> ('a, 'c) vstate" where
  "process_offline_counters cfg env s =
     (fold (offline_one cfg env) (DesiredValidators s) s) \<lparr> OfflineThisSession := {} \<rparr>"

definition drop_pending_candidate :: "'a \<Rightarrow> ('a, 'c) vstate \<Rightarrow> ('a, 'c) vstate" where
  "drop_pending_candidate who s =
     (let s = s \<lparr> ValidatorLocks := (ValidatorLocks s)(who :=
                    map_option (\<lambda>info. info \<lparr> status := ExitRequested \<rparr>) (ValidatorLocks s who)) \<rparr>;
          s = s \<lparr> OfflineSessionCount := (OfflineSessionCount s)(who := None) \<rparr>;
          s = s \<lparr> OfflineThisSession := OfflineThisSession s - {who} \<rparr>
      in deposit_event (PendingValidatorDropped who) s)"

definition keep_one :: "vconfig \<Rightarrow> ('a, 'c) vstate \<Rightarrow> 'a \<Rightarrow> 'a list \<Rightarrow> 'a list" where
  "keep_one cfg s who nxt = (if is_active s who then push_ignore (MaxValidators cfg) nxt who else nxt)"

definition promote_one ::
  "vconfig \<Rightarrow> 'a venv \<Rightarrow> 'a \<Rightarrow> ('a, 'c) vstate \<times> 'a list \<Rightarrow> ('a, 'c) vstate \<times> 'a list" where
  "promote_one cfg env who acc =
     (let (s, nxt) = acc in
      if \<not> is_active s who \<or> who \<in> set nxt then (s, nxt)
      else if \<not> has_keys env who \<or> bv_is_full (MaxValidators cfg) nxt
      then (drop_pending_candidate who s, nxt)
      else (s, push_ignore (MaxValidators cfg) nxt who))"

definition new_session ::
  "vconfig \<Rightarrow> 'a venv \<Rightarrow> ('a, 'c) vstate \<Rightarrow> ('a, 'c) vstate \<times> 'a list option" where
  "new_session cfg env s =
     (let s = process_equivocations cfg env s;
          s = process_offline_counters cfg env s;
          previous = DesiredValidators s;
          nxt = fold (keep_one cfg s) previous [];
          pending = PendingValidators s;
          s = s \<lparr> PendingValidators := [] \<rparr>;
          (s, nxt) = fold (promote_one cfg env) pending (s, nxt);
          s = s \<lparr> DesiredValidators := nxt \<rparr>
      in if nxt = previous then (s, None)
         else if nxt = [] \<and> previous \<noteq> [] then (s, None)
         else (s, Some nxt))"

definition new_session_genesis :: "('a, 'c) vstate \<Rightarrow> 'a list option" where
  "new_session_genesis s = Some (DesiredValidators s)"

definition historical_new_session ::
  "vconfig \<Rightarrow> 'a venv \<Rightarrow> ('a, 'c) vstate \<Rightarrow> ('a, 'c) vstate \<times> ('a \<times> unit) list option" where
  "historical_new_session cfg env s =
     (let (s, r) = new_session cfg env s in (s, map_option (map (\<lambda>id. (id, ()))) r))"

definition historical_new_session_genesis :: "('a, 'c) vstate \<Rightarrow> ('a \<times> unit) list option" where
  "historical_new_session_genesis s = map_option (map (\<lambda>id. (id, ()))) (new_session_genesis s)"

end
