(* ===== verification/ValidatorInv.thy ===== *)
theory ValidatorInv
  imports Validator
begin

text \<open>
  The validator pallet as a state machine and its invariants. \<open>vstep\<close> interleaves the block
  hook (once per block), the dispatchables, the two report entry points, the session boundary
  and changes of the currency by other pallets that leave the validator locks alone.

  \<open>vinv\<close> collects what holds in every reachable state: the two validator lists are disjoint,
  duplicate free and within the bound, a pending candidate is active, an active lock belongs
  to a member of one of the lists, no member of the active set is kicked, the currency lock of
  an account is the amount on record, and an active lock never runs out.
\<close>

section \<open>The machine\<close>

definition lock_currency_laws :: "('a, 'c) lock_currency \<Rightarrow> bool" where
  "lock_currency_laws cur \<longleftrightarrow>
     (\<forall>a v c b. locked cur (set_lock cur a v c) b = (if b = a then v else locked cur c b)) \<and>
     (\<forall>a c b. locked cur (remove_lock cur a c) b = (if b = a then 0 else locked cur c b))"

definition trie_order_ok :: "'a venv \<Rightarrow> bool" where
  "trie_order_ok env \<longleftrightarrow>
     (\<forall>S. finite S \<longrightarrow> set (trie_order env S) = S \<and> distinct (trie_order env S))"

text \<open>Renewal sweeps happen inside the lock duration, and the bound is a 32-bit number.\<close>

definition vconfig_ok :: "vconfig \<Rightarrow> bool" where
  "vconfig_ok cfg \<longleftrightarrow>
     0 < RenewInterval cfg \<and> RenewInterval cfg < LockDuration cfg \<and> MaxValidators cfg \<le> U32_MAX"

abbreviation signed :: "'a \<Rightarrow> ('a, unit) runtime_origin" where
  "signed who \<equiv> System_origin (Signed who)"

inductive vstep ::
  "vconfig \<Rightarrow> ('a, 'c) lock_currency \<Rightarrow> nat \<times> ('a, 'c) vstate \<Rightarrow> nat \<times> ('a, 'c) vstate \<Rightarrow> bool"
  for cfg cur where
  next_block: "block_number env = Suc now \<Longrightarrow> trie_order_ok env \<Longrightarrow> Suc now + LockDuration cfg \<le> U32_MAX \<Longrightarrow>
    vstep cfg cur (now, s) (Suc now, fst (von_initialize cfg cur env s))"
| call_lock: "block_number env = now \<Longrightarrow> lock cfg cur env (signed who) s = Inr s' \<Longrightarrow>
    vstep cfg cur (now, s) (now, s')"
| call_exit: "request_exit (signed who) s = Inr s' \<Longrightarrow> vstep cfg cur (now, s) (now, s')"
| call_exempt: "set_stake_exempt (\<lambda>_. True) (System_origin Root :: ('a, unit) runtime_origin) who b s = Inr s' \<Longrightarrow>
    vstep cfg cur (now, s) (now, s')"
| report_offline: "vstep cfg cur (now, s) (now, note_offline who s)"
| report_equivocation: "vstep cfg cur (now, s) (now, note_equivocation who s)"
| session: "block_number env = now \<Longrightarrow> trie_order_ok env \<Longrightarrow>
    vstep cfg cur (now, s) (now, fst (new_session cfg env s))"
| currency: "locked cur c' = locked cur (vcurrency s) \<Longrightarrow> vstep cfg cur (now, s) (now, s \<lparr> vcurrency := c' \<rparr>)"

inductive_cases vstepE: "vstep cfg cur ns ns'"

definition vinit :: "vconfig \<Rightarrow> ('a, 'c) lock_currency \<Rightarrow> nat \<times> ('a, 'c) vstate \<Rightarrow> bool" where
  "vinit cfg cur ns \<longleftrightarrow>
     vconfig_ok cfg \<and> lock_currency_laws cur \<and> LockDuration cfg \<le> U32_MAX \<and> fst ns = 0 \<and>
     (\<exists>c ivs. (\<forall>a. locked cur c a = 0) \<and> vgenesis_build cfg c ivs = Some (snd ns))"

section \<open>The invariant\<close>

definition members :: "('a, 'c) vstate \<Rightarrow> 'a list" where
  "members s = DesiredValidators s @ PendingValidators s"

definition set_inv :: "vconfig \<Rightarrow> ('a, 'c) vstate \<Rightarrow> bool" where
  "set_inv cfg s \<longleftrightarrow> distinct (members s) \<and> length (members s) \<le> MaxValidators cfg"

definition status_inv :: "('a, 'c) vstate \<Rightarrow> bool" where
  "status_inv s \<longleftrightarrow>
     (\<forall>a \<in> set (PendingValidators s). is_active s a) \<and>
     (\<forall>a. is_active s a \<longrightarrow> a \<in> set (members s)) \<and>
     (\<forall>a \<in> set (DesiredValidators s). \<forall>i. ValidatorLocks s a = Some i \<longrightarrow> status i \<noteq> Kicked)"

definition recorded :: "('a, 'c) vstate \<Rightarrow> 'a \<Rightarrow> nat" where
  "recorded s a = (case ValidatorLocks s a of Some i \<Rightarrow> amount i | None \<Rightarrow> 0)"

definition stake_inv :: "('a, 'c) lock_currency \<Rightarrow> ('a, 'c) vstate \<Rightarrow> bool" where
  "stake_inv cur s \<longleftrightarrow>
     finite (dom (ValidatorLocks s)) \<and> finite (EquivocationThisSession s) \<and>
     (\<forall>a. locked cur (vcurrency s) a = recorded s a)"

definition time_inv :: "vconfig \<Rightarrow> nat \<Rightarrow> ('a, 'c) vstate \<Rightarrow> bool" where
  "time_inv cfg now s \<longleftrightarrow>
     now + LockDuration cfg \<le> U32_MAX \<and>
     (\<forall>a i. ValidatorLocks s a = Some i \<longrightarrow>
        now < expiry_block i \<and>
        (status i = Active \<longrightarrow> now + LockDuration cfg < expiry_block i + RenewInterval cfg))"

definition vinv :: "vconfig \<Rightarrow> ('a, 'c) lock_currency \<Rightarrow> nat \<times> ('a, 'c) vstate \<Rightarrow> bool" where
  "vinv cfg cur ns \<longleftrightarrow>
     vconfig_ok cfg \<and> lock_currency_laws cur \<and>
     set_inv cfg (snd ns) \<and> status_inv (snd ns) \<and> stake_inv cur (snd ns) \<and> time_inv cfg (fst ns) (snd ns)"

named_theorems vsimps "projections of the validator operations"

lemma deposit_event_simps [simp]:
  "ValidatorLocks (deposit_event e s) = ValidatorLocks s"
  "PendingValidators (deposit_event e s) = PendingValidators s"
  "DesiredValidators (deposit_event e s) = DesiredValidators s"
  "StakeExemptAccounts (deposit_event e s) = StakeExemptAccounts s"
  "RejoinCooldown (deposit_event e s) = RejoinCooldown s"
  "OfflineSessionCount (deposit_event e s) = OfflineSessionCount s"
  "OfflineThisSession (deposit_event e s) = OfflineThisSession s"
  "EquivocationThisSession (deposit_event e s) = EquivocationThisSession s"
  "vcurrency (deposit_event e s) = vcurrency s"
  by (simp_all add: deposit_event_def)

lemma is_active_iff: "is_active s a \<longleftrightarrow> (\<exists>i. ValidatorLocks s a = Some i \<and> status i = Active)"
  by (auto simp: is_active_def split: option.splits)

lemma is_active_cong: "ValidatorLocks s = ValidatorLocks s' \<Longrightarrow> is_active s a = is_active s' a"
  by (simp add: is_active_def)

lemmas inv_defs = set_inv_def status_inv_def stake_inv_def time_inv_def members_def recorded_def

section \<open>The sweep\<close>

definition expired :: "nat \<Rightarrow> LockInfo \<Rightarrow> bool" where
  "expired now i \<longleftrightarrow> expiry_block i \<le> now"

definition due :: "vconfig \<Rightarrow> nat \<Rightarrow> LockInfo \<Rightarrow> bool" where
  "due cfg now i \<longleftrightarrow>
     \<not> expired now i \<and> RenewInterval cfg \<noteq> 0 \<and> status i = Active \<and>
     RenewInterval cfg \<le> LockDuration cfg - (expiry_block i - now)"

definition swept :: "vconfig \<Rightarrow> nat \<Rightarrow> LockInfo \<Rightarrow> LockInfo option" where
  "swept cfg now i =
     (if expired now i then None
      else if due cfg now i then Some (i \<lparr> expiry_block := sat_add 32 now (LockDuration cfg) \<rparr>)
      else Some i)"

lemma scan_fold:
  assumes "set xs \<subseteq> dom (ValidatorLocks s)"
  shows "fold (sweep_scan cfg now s) xs (n, rel, ren) =
    (fold (\<lambda>_ n. sat_add 32 n 1) xs n,
     rel @ [(a, amount (the (ValidatorLocks s a))). a \<leftarrow> xs, expired now (the (ValidatorLocks s a))],
     ren @ [a \<leftarrow> xs. due cfg now (the (ValidatorLocks s a))])"
  using assms
proof (induction xs arbitrary: n rel ren)
  case (Cons a xs)
  then obtain i where "ValidatorLocks s a = Some i" by auto
  with Cons show ?case
    by (simp add: sweep_scan_def expired_def due_def Let_def)
qed simp

lemma release_fold:
  "ValidatorLocks (fold (release_lock cur) rel s) = (\<lambda>a. if a \<in> fst ` set rel then None else ValidatorLocks s a)"
  "PendingValidators (fold (release_lock cur) rel s) = PendingValidators s"
  "DesiredValidators (fold (release_lock cur) rel s) = DesiredValidators s"
  "RejoinCooldown (fold (release_lock cur) rel s) = RejoinCooldown s"
  "EquivocationThisSession (fold (release_lock cur) rel s) = EquivocationThisSession s"
  "lock_currency_laws cur \<Longrightarrow> locked cur (vcurrency (fold (release_lock cur) rel s)) a =
    (if a \<in> fst ` set rel then 0 else locked cur (vcurrency s) a)"
  by (induction rel arbitrary: s)
     (auto simp: release_lock_def lock_currency_laws_def Let_def fun_eq_iff split: prod.splits)

lemma renew_fold:
  "ValidatorLocks (fold (renew_lock cfg now) ren s) =
    (\<lambda>a. if a \<in> set ren then map_option (\<lambda>i. i \<lparr> expiry_block := sat_add 32 now (LockDuration cfg) \<rparr>) (ValidatorLocks s a)
         else ValidatorLocks s a)"
  "PendingValidators (fold (renew_lock cfg now) ren s) = PendingValidators s"
  "DesiredValidators (fold (renew_lock cfg now) ren s) = DesiredValidators s"
  "RejoinCooldown (fold (renew_lock cfg now) ren s) = RejoinCooldown s"
  "EquivocationThisSession (fold (renew_lock cfg now) ren s) = EquivocationThisSession s"
  "vcurrency (fold (renew_lock cfg now) ren s) = vcurrency s"
  by (induction ren arbitrary: s)
     (auto simp: renew_lock_def Let_def fun_eq_iff split: option.splits)

text \<open>What the hook leaves behind, account by account.\<close>

lemma von_initialize_effect:
  assumes "trie_order_ok env" "finite (dom (ValidatorLocks s))"
    and s'_def: "s' = fst (von_initialize cfg cur env s)" and now_def: "now = block_number env"
  shows "ValidatorLocks s' a = Option.bind (ValidatorLocks s a) (swept cfg now)"
    and "PendingValidators s' = PendingValidators s" "DesiredValidators s' = DesiredValidators s"
    and "RejoinCooldown s' = RejoinCooldown s" "EquivocationThisSession s' = EquivocationThisSession s"
    and "lock_currency_laws cur \<Longrightarrow> locked cur (vcurrency s') a =
      (case ValidatorLocks s a of Some i \<Rightarrow> if expired now i then 0 else locked cur (vcurrency s) a
       | None \<Rightarrow> locked cur (vcurrency s) a)"
proof -
  let ?xs = "trie_order env (dom (ValidatorLocks s))"
  have xs: "set ?xs = dom (ValidatorLocks s)"
    using assms(1,2) by (simp add: trie_order_ok_def)
  have s': "s' = fold (renew_lock cfg now) [a \<leftarrow> ?xs. due cfg now (the (ValidatorLocks s a))]
      (fold (release_lock cur) [(a, amount (the (ValidatorLocks s a))). a \<leftarrow> ?xs, expired now (the (ValidatorLocks s a))] s)"
    using scan_fold [of ?xs s cfg now 0 "[]" "[]"] xs
    by (simp add: s'_def von_initialize_def now_def Let_def)
  show "ValidatorLocks s' a = Option.bind (ValidatorLocks s a) (swept cfg now)"
    using xs unfolding s'
    by (cases "ValidatorLocks s a") (auto simp: renew_fold release_fold swept_def due_def image_iff)
  show "lock_currency_laws cur \<Longrightarrow> locked cur (vcurrency s') a =
      (case ValidatorLocks s a of Some i \<Rightarrow> if expired now i then 0 else locked cur (vcurrency s) a
       | None \<Rightarrow> locked cur (vcurrency s) a)"
    using xs unfolding s'
    by (cases "ValidatorLocks s a") (auto simp: renew_fold release_fold image_iff)
qed (simp_all add: s'_def von_initialize_def Let_def renew_fold release_fold split: prod.splits)

section \<open>Kicks\<close>

text \<open>
  \<open>kicks cfg env s s'\<close>: the lists, the stake and the amounts are as before, and each account is
  either untouched or went from active to kicked with its cooldown started.
\<close>

definition kicked_or_same :: "vconfig \<Rightarrow> 'a venv \<Rightarrow> ('a, 'c) vstate \<Rightarrow> ('a, 'c) vstate \<Rightarrow> 'a \<Rightarrow> bool" where
  "kicked_or_same cfg env s s' a \<longleftrightarrow>
     (ValidatorLocks s' a = ValidatorLocks s a \<and> RejoinCooldown s' a = RejoinCooldown s a) \<or>
     (\<exists>i. ValidatorLocks s a = Some i \<and> status i = Active \<and>
          ValidatorLocks s' a = Some (i \<lparr> status := Kicked \<rparr>) \<and>
          RejoinCooldown s' a = Some (sat_add 32 (block_number env) (RejoinCooldownPeriod cfg)))"

definition kicks :: "vconfig \<Rightarrow> 'a venv \<Rightarrow> ('a, 'c) vstate \<Rightarrow> ('a, 'c) vstate \<Rightarrow> bool" where
  "kicks cfg env s s' \<longleftrightarrow>
     PendingValidators s' = PendingValidators s \<and> DesiredValidators s' = DesiredValidators s \<and>
     StakeExemptAccounts s' = StakeExemptAccounts s \<and> vcurrency s' = vcurrency s \<and>
     EquivocationThisSession s' \<subseteq> EquivocationThisSession s \<and> (\<forall>a. kicked_or_same cfg env s s' a)"

lemma kicked_or_same_trans:
  "kicked_or_same cfg env s s1 a \<Longrightarrow> kicked_or_same cfg env s1 s2 a \<Longrightarrow> kicked_or_same cfg env s s2 a"
  unfolding kicked_or_same_def by (elim disjE exE conjE) auto

lemma kicks_refl: "kicks cfg env s s"
  by (simp add: kicks_def kicked_or_same_def)

lemma kicks_trans:
  assumes "kicks cfg env s s1" "kicks cfg env s1 s2"
  shows "kicks cfg env s s2"
proof -
  have "kicked_or_same cfg env s s2 a" for a
    by (rule kicked_or_same_trans [of _ _ _ s1]) (use assms in \<open>simp_all add: kicks_def\<close>)
  then show ?thesis
    using assms by (auto simp: kicks_def)
qed

lemma kick_validator_kicks: "kicks cfg env s (fst (kick_validator cfg env who r s))"
  by (auto simp: kicks_def kicked_or_same_def kick_validator_def Let_def split: option.splits)

lemma tracking_kicks:
  "kicks cfg env s (s \<lparr> OfflineThisSession := X \<rparr>)"
  "kicks cfg env s (s \<lparr> OfflineSessionCount := f \<rparr>)"
  "kicks cfg env s (s \<lparr> OfflineThisSession := X, OfflineSessionCount := f \<rparr>)"
  "kicks cfg env s (s \<lparr> EquivocationThisSession := {} \<rparr>)"
  by (simp_all add: kicks_def kicked_or_same_def)

lemma offline_one_kicks: "kicks cfg env s (offline_one cfg env who s)"
  unfolding offline_one_def Let_def
  by (simp add: tracking_kicks kicks_trans [OF tracking_kicks(1) kick_validator_kicks])

lemma process_equivocations_kicks: "kicks cfg env s (process_equivocations cfg env s)"
  unfolding process_equivocations_def Let_def
  by (rule fold_invariant [where P = "kicks cfg env s", OF tracking_kicks(4)])
     (rule kicks_trans [OF _ kick_validator_kicks])

lemma process_offline_kicks: "kicks cfg env s (process_offline_counters cfg env s)"
proof -
  have "kicks cfg env s (fold (offline_one cfg env) (DesiredValidators s) s)"
    by (rule fold_invariant [where P = "kicks cfg env s", OF kicks_refl]) (rule kicks_trans [OF _ offline_one_kicks])
  then show ?thesis
    unfolding process_offline_counters_def using kicks_trans tracking_kicks(1) by blast
qed

definition after_kicks :: "vconfig \<Rightarrow> 'a venv \<Rightarrow> ('a, 'c) vstate \<Rightarrow> ('a, 'c) vstate" where
  "after_kicks cfg env s = process_offline_counters cfg env (process_equivocations cfg env s)"

lemma after_kicks: "kicks cfg env s (after_kicks cfg env s)"
  unfolding after_kicks_def by (rule kicks_trans [OF process_equivocations_kicks process_offline_kicks])

lemma kicks_active: "kicks cfg env s s' \<Longrightarrow> is_active s' a \<Longrightarrow> is_active s a \<and> ValidatorLocks s' a = ValidatorLocks s a"
  unfolding kicks_def kicked_or_same_def is_active_iff
  by (elim conjE allE [of _ a] disjE exE) auto

section \<open>The next set\<close>

lemma keep_fold:
  "length nxt + length ps \<le> MaxValidators cfg \<Longrightarrow>
   fold (keep_one cfg s) ps nxt = nxt @ filter (is_active s) ps"
  by (induction ps arbitrary: nxt) (auto simp: keep_one_def push_ignore_simps)

definition unpromoted :: "'a venv \<Rightarrow> ('a, 'c) vstate \<Rightarrow> 'a list \<Rightarrow> 'a \<Rightarrow> bool" where
  "unpromoted env s ps a \<longleftrightarrow> a \<in> set ps \<and> is_active s a \<and> \<not> has_keys env a"

lemma promote_fold:
  assumes "distinct (nxt @ ps)" "length (nxt @ ps) \<le> MaxValidators cfg"
  shows "\<exists>s'. fold (promote_one cfg env) ps (s, nxt) = (s', nxt @ [a \<leftarrow> ps. is_active s a \<and> has_keys env a]) \<and>
    ValidatorLocks s' = (\<lambda>a. if unpromoted env s ps a
       then map_option (\<lambda>i. i \<lparr> status := ExitRequested \<rparr>) (ValidatorLocks s a) else ValidatorLocks s a) \<and>
    PendingValidators s' = PendingValidators s \<and> StakeExemptAccounts s' = StakeExemptAccounts s \<and>
    RejoinCooldown s' = RejoinCooldown s \<and> EquivocationThisSession s' = EquivocationThisSession s \<and>
    vcurrency s' = vcurrency s"
  using assms
proof (induction ps arbitrary: s nxt)
  case (Cons a ps)
  show ?case
  proof (cases "is_active s a \<and> has_keys env a")
    case True
    then have "promote_one cfg env a (s, nxt) = (s, nxt @ [a])"
      using Cons.prems by (auto simp: promote_one_def bv_is_full_def push_ignore_simps)
    then show ?thesis
      using Cons.IH [of "nxt @ [a]" s] Cons.prems True by (auto simp: unpromoted_def fun_eq_iff)
  next
    case False
    define t where "t = fst (promote_one cfg env a (s, nxt))"
    have t: "promote_one cfg env a (s, nxt) = (t, nxt)"
      using False by (auto simp: t_def promote_one_def)
    have same: "PendingValidators t = PendingValidators s" "StakeExemptAccounts t = StakeExemptAccounts s"
      "RejoinCooldown t = RejoinCooldown s" "EquivocationThisSession t = EquivocationThisSession s"
      "vcurrency t = vcurrency s"
      by (simp_all add: t_def promote_one_def drop_pending_candidate_def Let_def)
    have locks: "ValidatorLocks t = (\<lambda>b. if b = a \<and> is_active s a
        then map_option (\<lambda>i. i \<lparr> status := ExitRequested \<rparr>) (ValidatorLocks s b) else ValidatorLocks s b)"
      using False Cons.prems(1)
      by (auto simp: t_def promote_one_def drop_pending_candidate_def Let_def fun_eq_iff)
    have act: "is_active t b = is_active s b" if "b \<in> set ps" for b
      using that Cons.prems(1) unfolding is_active_def locks by auto
    then have filt: "[b \<leftarrow> ps. is_active t b \<and> has_keys env b] = [b \<leftarrow> a # ps. is_active s b \<and> has_keys env b]"
      using False by (auto intro: filter_cong)
    obtain s' where s': "fold (promote_one cfg env) ps (t, nxt) = (s', nxt @ [b \<leftarrow> ps. is_active t b \<and> has_keys env b])"
      "ValidatorLocks s' = (\<lambda>b. if unpromoted env t ps b
         then map_option (\<lambda>i. i \<lparr> status := ExitRequested \<rparr>) (ValidatorLocks t b) else ValidatorLocks t b)"
      "PendingValidators s' = PendingValidators t" "StakeExemptAccounts s' = StakeExemptAccounts t"
      "RejoinCooldown s' = RejoinCooldown t" "EquivocationThisSession s' = EquivocationThisSession t"
      "vcurrency s' = vcurrency t"
      using Cons.IH [of nxt t] Cons.prems by auto
    have "ValidatorLocks s' b = (if unpromoted env s (a # ps) b
         then map_option (\<lambda>i. i \<lparr> status := ExitRequested \<rparr>) (ValidatorLocks s b) else ValidatorLocks s b)" for b
      using act False Cons.prems(1) by (auto simp: s'(2) locks unpromoted_def)
    then have "ValidatorLocks s' = (\<lambda>b. if unpromoted env s (a # ps) b
         then map_option (\<lambda>i. i \<lparr> status := ExitRequested \<rparr>) (ValidatorLocks s b) else ValidatorLocks s b)"
      by (rule ext)
    then show ?thesis
      using s' unfolding filt by (simp only: fold_simps t same) blast
  qed
qed (simp add: unpromoted_def)

lemma new_session_effect:
  assumes "set_inv cfg s" and t: "t = after_kicks cfg env s" and s': "s' = fst (new_session cfg env s)"
  shows "PendingValidators s' = []"
    and "DesiredValidators s' = filter (is_active t) (DesiredValidators s)
      @ [a \<leftarrow> PendingValidators s. is_active t a \<and> has_keys env a]"
    and "ValidatorLocks s' = (\<lambda>a. if unpromoted env t (PendingValidators s) a
      then map_option (\<lambda>i. i \<lparr> status := ExitRequested \<rparr>) (ValidatorLocks t a) else ValidatorLocks t a)"
    and "RejoinCooldown s' = RejoinCooldown t" "vcurrency s' = vcurrency s"
    and "EquivocationThisSession s' \<subseteq> EquivocationThisSession s"
    and "snd (new_session cfg env s) =
      (if DesiredValidators s' = DesiredValidators s \<or> DesiredValidators s' = [] then None else Some (DesiredValidators s'))"
proof -
  have same: "PendingValidators t = PendingValidators s" "DesiredValidators t = DesiredValidators s"
    "vcurrency t = vcurrency s" "EquivocationThisSession t \<subseteq> EquivocationThisSession s"
    using after_kicks [of cfg env s] by (auto simp: t kicks_def)
  define t0 where "t0 = t \<lparr> PendingValidators := [] \<rparr>"
  have t0: "is_active t0 = is_active t" "unpromoted env t0 = unpromoted env t" "ValidatorLocks t0 = ValidatorLocks t"
    "PendingValidators t0 = []" "RejoinCooldown t0 = RejoinCooldown t" "vcurrency t0 = vcurrency t"
    "EquivocationThisSession t0 = EquivocationThisSession t"
    by (auto simp: t0_def is_active_def unpromoted_def fun_eq_iff)
  let ?kept = "filter (is_active t) (DesiredValidators s)"
  have len: "length ?kept \<le> length (DesiredValidators s)"
    by simp
  have keep: "fold (keep_one cfg t) (DesiredValidators s) [] = ?kept"
    using assms(1) by (subst keep_fold) (auto simp: set_inv_def members_def)
  have "distinct (?kept @ PendingValidators s)" "length (?kept @ PendingValidators s) \<le> MaxValidators cfg"
    using assms(1) len by (auto simp: set_inv_def members_def simp del: length_filter_le)
  from promote_fold [OF this, of env t0, unfolded t0]
  obtain u where u: "fold (promote_one cfg env) (PendingValidators s) (t0, ?kept)
      = (u, ?kept @ [a \<leftarrow> PendingValidators s. is_active t a \<and> has_keys env a])"
    "ValidatorLocks u = (\<lambda>a. if unpromoted env t (PendingValidators s) a
      then map_option (\<lambda>i. i \<lparr> status := ExitRequested \<rparr>) (ValidatorLocks t a) else ValidatorLocks t a)"
    "PendingValidators u = []" "RejoinCooldown u = RejoinCooldown t" "vcurrency u = vcurrency t"
    "EquivocationThisSession u = EquivocationThisSession t"
    by blast
  have run: "new_session cfg env s =
      (let nxt = ?kept @ [a \<leftarrow> PendingValidators s. is_active t a \<and> has_keys env a]
       in (u \<lparr> DesiredValidators := nxt \<rparr>,
           if nxt = DesiredValidators s \<or> nxt = [] then None else Some nxt))"
    using u(1) unfolding new_session_def Let_def after_kicks_def [symmetric] t [symmetric] t0_def [symmetric] same keep
    by simp
  show "PendingValidators s' = []" "DesiredValidators s' = ?kept @ [a \<leftarrow> PendingValidators s. is_active t a \<and> has_keys env a]"
    "ValidatorLocks s' = (\<lambda>a. if unpromoted env t (PendingValidators s) a
      then map_option (\<lambda>i. i \<lparr> status := ExitRequested \<rparr>) (ValidatorLocks t a) else ValidatorLocks t a)"
    "RejoinCooldown s' = RejoinCooldown t" "vcurrency s' = vcurrency s"
    "EquivocationThisSession s' \<subseteq> EquivocationThisSession s"
    "snd (new_session cfg env s) =
      (if DesiredValidators s' = DesiredValidators s \<or> DesiredValidators s' = [] then None else Some (DesiredValidators s'))"
    using same(3,4) by (simp_all add: s' run Let_def u)
qed

section \<open>Preservation\<close>

text \<open>Operations that only move locks out of the active status.\<close>

definition relabelled :: "('a, 'c) vstate \<Rightarrow> ('a, 'c) vstate \<Rightarrow> bool" where
  "relabelled s s' \<longleftrightarrow>
     (\<forall>a. ValidatorLocks s' a = ValidatorLocks s a \<or>
       (\<exists>i st. ValidatorLocks s a = Some i \<and> st \<noteq> Active \<and> ValidatorLocks s' a = Some (i \<lparr> status := st \<rparr>)))"

lemma relabelled_recorded: "relabelled s s' \<Longrightarrow> recorded s' a = recorded s a"
  unfolding relabelled_def recorded_def by (elim allE [of _ a] disjE exE conjE) auto

lemma relabelled_dom: "relabelled s s' \<Longrightarrow> dom (ValidatorLocks s') = dom (ValidatorLocks s)"
  unfolding relabelled_def by (force simp: dom_def)

lemma relabelled_stake_inv:
  "relabelled s s' \<Longrightarrow> stake_inv cur s \<Longrightarrow> vcurrency s' = vcurrency s \<Longrightarrow>
   EquivocationThisSession s' \<subseteq> EquivocationThisSession s \<Longrightarrow> stake_inv cur s'"
  by (auto simp: stake_inv_def relabelled_recorded relabelled_dom intro: finite_subset)

lemma relabelled_time_inv:
  assumes "relabelled s s'" "time_inv cfg now s"
  shows "time_inv cfg now s'"
proof -
  have "now < expiry_block i \<and> (status i = Active \<longrightarrow> now + LockDuration cfg < expiry_block i + RenewInterval cfg)"
    if "ValidatorLocks s' a = Some i" for a i
    using that assms unfolding relabelled_def time_inv_def by (elim conjE allE [of _ a] disjE exE) auto
  then show ?thesis
    using assms(2) by (simp add: time_inv_def)
qed

lemma new_session_relabelled:
  assumes "set_inv cfg s"
  shows "relabelled s (fst (new_session cfg env s))"
  unfolding relabelled_def
proof
  fix a
  note eff = new_session_effect(3) [OF assms refl refl, of env]
  have "kicked_or_same cfg env s (after_kicks cfg env s) a"
    using after_kicks [of cfg env s] by (simp add: kicks_def)
  then show "ValidatorLocks (fst (new_session cfg env s)) a = ValidatorLocks s a \<or>
      (\<exists>i st. ValidatorLocks s a = Some i \<and> st \<noteq> Active \<and>
        ValidatorLocks (fst (new_session cfg env s)) a = Some (i \<lparr> status := st \<rparr>))"
    unfolding eff kicked_or_same_def by (cases "ValidatorLocks s a") (auto simp: unpromoted_def is_active_def)
qed

lemma new_session_all_active:
  assumes "set_inv cfg s" "a \<in> set (DesiredValidators (fst (new_session cfg env s)))"
  shows "is_active (fst (new_session cfg env s)) a"
  using assms new_session_effect(2,3) [OF assms(1) refl refl, of env]
  by (auto simp: is_active_def unpromoted_def set_inv_def members_def split: option.splits)

lemma new_session_inv:
  assumes "vinv cfg cur (now, s)"
  shows "vinv cfg cur (now, fst (new_session cfg env s))"
proof -
  let ?s = "fst (new_session cfg env s)"
  have inv: "set_inv cfg s" "status_inv s" "stake_inv cur s" "time_inv cfg now s"
    using assms by (auto simp: vinv_def)
  note eff = new_session_effect [OF inv(1) refl refl, of env]
  have "set_inv cfg ?s"
    using inv(1) length_filter_le [of "is_active (after_kicks cfg env s)" "DesiredValidators s"]
      length_filter_le [of "\<lambda>a. is_active (after_kicks cfg env s) a \<and> has_keys env a" "PendingValidators s"]
    by (auto simp: set_inv_def members_def eff simp del: length_filter_le)
  moreover have "a \<in> set (DesiredValidators ?s)" if "is_active ?s a" for a
  proof -
    have "is_active (after_kicks cfg env s) a \<and> \<not> unpromoted env (after_kicks cfg env s) (PendingValidators s) a"
      using that by (auto simp: is_active_def eff(3) split: option.splits if_splits)
    moreover from this have "a \<in> set (members s)"
      using kicks_active [OF after_kicks [of cfg env s]] inv(2) by (auto simp: status_inv_def)
    ultimately show ?thesis
      by (auto simp: eff(2) members_def unpromoted_def)
  qed
  then have "status_inv ?s"
    using new_session_all_active [OF inv(1), of _ env]
    by (force simp: status_inv_def members_def eff(1) is_active_iff)
  ultimately show ?thesis
    using assms new_session_relabelled [OF inv(1), of env] eff(5,6) inv(3,4)
    by (auto simp: vinv_def intro: relabelled_stake_inv relabelled_time_inv)
qed

definition lock_terms :: "vconfig \<Rightarrow> nat \<Rightarrow> ('a, 'c) vstate \<Rightarrow> 'a \<Rightarrow> nat \<times> nat" where
  "lock_terms cfg now s who =
     (case ValidatorLocks s who of
        Some i \<Rightarrow> (max (amount i) (required_lock cfg s who), max (expiry_block i) (sat_add 32 now (LockDuration cfg)))
      | None \<Rightarrow> (required_lock cfg s who, sat_add 32 now (LockDuration cfg)))"

definition in_cooldown :: "nat \<Rightarrow> ('a, 'c) vstate \<Rightarrow> 'a \<Rightarrow> bool" where
  "in_cooldown now s who \<longleftrightarrow> (\<exists>d. RejoinCooldown s who = Some d \<and> now \<le> d)"

lemma lock_eq:
  "lock cfg cur env (System_origin (Signed who)) s =
     (if who \<in> set (members s) then Inl AlreadyValidator
      else if \<not> sat_add 32 (length (DesiredValidators s)) (length (PendingValidators s)) < MaxValidators cfg
      then Inl TooManyValidators
      else if \<not> has_keys env who then Inl SessionKeysNotRegistered
      else if \<not> identity_gate env who then Inl IdentityNotQualified
      else if in_cooldown (block_number env) s who then Inl InCooldown
      else case lock_terms cfg (block_number env) s who of (amt, expiry) \<Rightarrow>
        if \<not> amt \<le> free_balance cur (vcurrency s) who then Inl InsufficientBalance
        else Inr (deposit_event (ValidatorLocked who amt expiry)
          (s \<lparr> RejoinCooldown := (RejoinCooldown s)(who := None),
               PendingValidators := push_ignore (MaxValidators cfg) (PendingValidators s) who,
               vcurrency := set_lock cur who amt (vcurrency s),
               ValidatorLocks := (ValidatorLocks s)(who \<mapsto>
                 \<lparr> amount = amt, lock_block = block_number env, expiry_block = expiry, status = Active \<rparr>) \<rparr>)))"
proof -
  have "(case RejoinCooldown s who of Some d \<Rightarrow> block_number env \<le> d | None \<Rightarrow> False) = in_cooldown (block_number env) s who"
    by (auto simp: in_cooldown_def split: option.splits)
  then show ?thesis
    by (cases "ValidatorLocks s who") (auto simp: lock_def lock_terms_def required_lock_def members_def Let_def)
qed

text \<open>What a successful \<open>lock\<close> has checked and what it leaves behind.\<close>

lemma lock_InrE:
  assumes "lock cfg cur env (System_origin (Signed who)) s = Inr s'" "MaxValidators cfg \<le> U32_MAX"
    and "lock_terms cfg (block_number env) s who = (amt, expiry)"
  shows "who \<notin> set (members s)" "length (members s) < MaxValidators cfg"
    and "has_keys env who" "identity_gate env who" "amt \<le> free_balance cur (vcurrency s) who"
    and "\<And>d. RejoinCooldown s who = Some d \<Longrightarrow> d < block_number env"
    and "ValidatorLocks s' = (ValidatorLocks s)(who \<mapsto>
      \<lparr> amount = amt, lock_block = block_number env, expiry_block = expiry, status = Active \<rparr>)"
    and "PendingValidators s' = PendingValidators s @ [who]" "DesiredValidators s' = DesiredValidators s"
    and "RejoinCooldown s' = (RejoinCooldown s)(who := None)"
    and "vcurrency s' = set_lock cur who amt (vcurrency s)"
    and "EquivocationThisSession s' = EquivocationThisSession s"
proof -
  note run = assms(1) [unfolded lock_eq assms(3)]
  show "who \<notin> set (members s)" "has_keys env who" "identity_gate env who" "amt \<le> free_balance cur (vcurrency s) who"
    "\<And>d. RejoinCooldown s who = Some d \<Longrightarrow> d < block_number env"
    using run by (auto simp: in_cooldown_def not_le split: if_splits)
  have "sat_add 32 (length (DesiredValidators s)) (length (PendingValidators s)) < MaxValidators cfg"
    using run by (auto split: if_splits)
  then show len: "length (members s) < MaxValidators cfg"
    using assms(2) by (auto simp: sat_add_32 members_def)
  show "ValidatorLocks s' = (ValidatorLocks s)(who \<mapsto>
      \<lparr> amount = amt, lock_block = block_number env, expiry_block = expiry, status = Active \<rparr>)"
    "PendingValidators s' = PendingValidators s @ [who]" "DesiredValidators s' = DesiredValidators s"
    "RejoinCooldown s' = (RejoinCooldown s)(who := None)" "vcurrency s' = set_lock cur who amt (vcurrency s)"
    "EquivocationThisSession s' = EquivocationThisSession s"
    using run len by (auto simp: push_ignore_simps members_def split: if_splits)
qed

lemma lock_inv:
  assumes inv: "vinv cfg cur (now, s)" and "block_number env = now" "lock cfg cur env (System_origin (Signed who)) s = Inr s'"
  shows "vinv cfg cur (now, s')"
proof -
  obtain amt expiry where terms: "lock_terms cfg (block_number env) s who = (amt, expiry)"
    by fastforce
  have max: "MaxValidators cfg \<le> U32_MAX"
    using inv by (simp add: vinv_def vconfig_ok_def)
  note eff = lock_InrE [OF assms(3) max terms]
  have "now + LockDuration cfg \<le> U32_MAX"
    using inv by (simp add: vinv_def time_inv_def)
  then have "now + LockDuration cfg \<le> expiry"
    using terms by (auto simp: lock_terms_def sat_add_32 assms(2) split: option.splits)
  then have "time_inv cfg now s'"
    using inv by (auto simp: vinv_def time_inv_def vconfig_ok_def eff(7))
  moreover have "set_inv cfg s'"
    using inv eff(1,2) by (auto simp: vinv_def set_inv_def members_def eff(8,9))
  moreover have "stake_inv cur s'"
    using inv by (auto simp: vinv_def stake_inv_def recorded_def lock_currency_laws_def eff(7,11,12))
  moreover have "status_inv s'"
    using inv eff(1) by (auto simp: vinv_def status_inv_def is_active_def members_def eff(7,8,9))
  ultimately show ?thesis
    using inv by (simp add: vinv_def)
qed

lemma request_exit_inv:
  assumes inv: "vinv cfg cur (now, s)" and "request_exit (System_origin (Signed who)) s = Inr s'"
  shows "vinv cfg cur (now, s')"
proof -
  obtain i where i: "ValidatorLocks s who = Some i" "status i = Active"
    and locks: "ValidatorLocks s' = (ValidatorLocks s)(who \<mapsto> i \<lparr> status := ExitRequested \<rparr>)"
    and lists: "PendingValidators s' = remove1 who (PendingValidators s)" "DesiredValidators s' = DesiredValidators s"
      "vcurrency s' = vcurrency s" "EquivocationThisSession s' = EquivocationThisSession s"
    using assms(2) by (auto simp: request_exit_def Let_def split: option.splits if_splits)
  have "relabelled s s'"
    using i by (auto simp: relabelled_def locks)
  moreover have "distinct (PendingValidators s)" "length (remove1 who (PendingValidators s)) \<le> length (PendingValidators s)"
    using inv by (auto simp: vinv_def set_inv_def members_def length_remove1)
  then have "set_inv cfg s'" "status_inv s'"
    using inv set_remove1_subset [of who "PendingValidators s"]
    by (auto simp: vinv_def set_inv_def status_inv_def members_def lists locks is_active_def)
  ultimately show ?thesis
    using inv lists by (auto simp: vinv_def intro: relabelled_stake_inv relabelled_time_inv)
qed

lemma frame_inv:
  assumes "vinv cfg cur (now, s)" "ValidatorLocks s' = ValidatorLocks s" "PendingValidators s' = PendingValidators s"
    "DesiredValidators s' = DesiredValidators s" "locked cur (vcurrency s') = locked cur (vcurrency s)"
    "finite (EquivocationThisSession s')"
  shows "vinv cfg cur (now, s')"
  using assms by (auto simp: vinv_def set_inv_def status_inv_def stake_inv_def time_inv_def members_def recorded_def is_active_def)

lemma von_initialize_inv:
  assumes inv: "vinv cfg cur (now, s)" and env: "block_number env = Suc now" "trie_order_ok env"
    and "Suc now + LockDuration cfg \<le> U32_MAX"
  shows "vinv cfg cur (Suc now, fst (von_initialize cfg cur env s))"
proof -
  let ?s = "fst (von_initialize cfg cur env s)"
  have fin: "finite (dom (ValidatorLocks s))" and laws: "lock_currency_laws cur"
    and cfg: "0 < RenewInterval cfg" "RenewInterval cfg < LockDuration cfg"
    using inv by (auto simp: vinv_def stake_inv_def vconfig_ok_def)
  note eff = von_initialize_effect [OF env(2) fin refl env(1)[symmetric], where cfg = cfg and cur = cur]
  have exact: "sat_add 32 (Suc now) (LockDuration cfg) = Suc now + LockDuration cfg"
    using assms(4) by (simp add: sat_add_32)
  have active: "\<not> expired (Suc now) i" if "ValidatorLocks s a = Some i" "status i = Active" for a i
    using inv that cfg by (fastforce simp: vinv_def time_inv_def expired_def)
  have act: "is_active ?s a = is_active s a" for a
    using active by (cases "ValidatorLocks s a") (auto simp: is_active_def eff(1) swept_def)
  have time: "time_inv cfg (Suc now) ?s"
    unfolding time_inv_def
  proof (intro conjI allI impI)
    fix a i'
    assume "ValidatorLocks ?s a = Some i'"
    then obtain i where i: "ValidatorLocks s a = Some i" "swept cfg (Suc now) i = Some i'"
      by (cases "ValidatorLocks s a") (auto simp: eff(1))
    show "Suc now < expiry_block i'"
      using i(2) cfg by (auto simp: swept_def exact expired_def split: if_splits)
    show "Suc now + LockDuration cfg < expiry_block i' + RenewInterval cfg" if "status i' = Active"
      using i(2) that cfg by (auto simp: swept_def exact due_def expired_def split: if_splits)
  qed (use assms(4) in simp)
  have "finite (dom (ValidatorLocks ?s))"
    by (rule finite_subset [OF _ fin]) (auto simp: dom_def eff(1) bind_eq_Some_conv)
  moreover have "locked cur (vcurrency ?s) a = recorded ?s a" for a
    using inv by (cases "ValidatorLocks s a")
      (auto simp: vinv_def stake_inv_def eff(6) [OF laws] recorded_def eff(1) swept_def)
  ultimately have "stake_inv cur ?s"
    using inv by (simp add: vinv_def stake_inv_def eff(5))
  moreover have "status_inv ?s"
    using inv by (auto simp: vinv_def status_inv_def members_def eff(1-3) act swept_def bind_eq_Some_conv
        split: if_splits)
  ultimately show ?thesis
    using inv time by (simp add: vinv_def set_inv_def members_def eff(2,3))
qed

text \<open>The loop of the genesis build.\<close>

definition vgenesis_inv :: "vconfig \<Rightarrow> 'c \<Rightarrow> ('a, 'c) vstate \<times> 'a list \<Rightarrow> bool" where
  "vgenesis_inv cfg c acc \<longleftrightarrow>
     (let (s, active) = acc in
      (\<forall>a. a \<in> set active \<longleftrightarrow> ValidatorLocks s a \<noteq> None) \<and> distinct active \<and> length active \<le> MaxValidators cfg \<and>
      (\<forall>a i. ValidatorLocks s a = Some i \<longrightarrow>
         amount i = 0 \<and> status i = Active \<and> expiry_block i = sat_add 32 0 (LockDuration cfg)) \<and>
      PendingValidators s = [] \<and> EquivocationThisSession s = {} \<and> vcurrency s = c)"

lemma vgenesis_one_inv: "vgenesis_inv cfg c acc \<Longrightarrow> vgenesis_one cfg who acc = Some acc' \<Longrightarrow> vgenesis_inv cfg c acc'"
  by (cases acc) (auto simp: vgenesis_inv_def vgenesis_one_def Let_def bv_try_push_def split: if_splits)

lemma vgenesis_loop_inv:
  "vgenesis_inv cfg c acc \<Longrightarrow> vgenesis_loop cfg ws acc = Some acc' \<Longrightarrow> vgenesis_inv cfg c acc'"
  by (induction ws arbitrary: acc) (auto split: option.splits dest: vgenesis_one_inv)

lemma vinit_inv:
  assumes "vinit cfg cur ns"
  shows "vinv cfg cur ns"
proof -
  obtain c ws s active where c: "\<forall>a. locked cur c a = 0"
    and loop: "vgenesis_loop cfg ws (empty_vstate c, []) = Some (s, active)"
    and ns: "ns = (0, s \<lparr> DesiredValidators := active \<rparr>)"
    using assms by (cases ns) (auto simp: vinit_def vgenesis_build_def split: option.splits prod.splits)
  have "vgenesis_inv cfg c (empty_vstate c, [])"
    by (simp add: vgenesis_inv_def empty_vstate_def)
  from vgenesis_loop_inv [OF this loop] have g: "vgenesis_inv cfg c (s, active)" .
  have exact: "sat_add 32 0 (LockDuration cfg) = LockDuration cfg"
    using assms by (simp add: vinit_def sat_add_32)
  have "is_active s a \<longleftrightarrow> a \<in> set active" for a
    using g by (auto simp: vgenesis_inv_def is_active_def split: option.splits)
  then have "status_inv (snd ns)"
    using g by (auto simp: status_inv_def ns members_def is_active_def vgenesis_inv_def)
  moreover have "recorded s a = 0" for a
    using g by (auto simp: recorded_def vgenesis_inv_def split: option.splits)
  moreover have "dom (ValidatorLocks s) = set active"
    using g by (auto simp: vgenesis_inv_def)
  ultimately have "status_inv (snd ns)" "stake_inv cur (snd ns)"
    using g c by (auto simp: stake_inv_def recorded_def ns vgenesis_inv_def)
  then show ?thesis
    using assms g exact
    by (auto simp: vinv_def vinit_def set_inv_def time_inv_def members_def ns vgenesis_inv_def vconfig_ok_def)
qed

lemma vstep_inv: "vinv cfg cur ns \<Longrightarrow> vstep cfg cur ns ns' \<Longrightarrow> vinv cfg cur ns'"
proof (erule vstepE)
  fix now s and who :: 'a and b s'
  assume inv: "vinv cfg cur ns"
  have fin: "finite (EquivocationThisSession s)" if "ns = (now, s)"
    using inv that by (simp add: vinv_def stake_inv_def)
  show "vinv cfg cur ns'" if "set_stake_exempt (\<lambda>_. True) (System_origin Root :: ('a, unit) runtime_origin) who b s = Inr s'"
    "ns = (now, s)" "ns' = (now, s')"
    using inv that fin by (auto simp: set_stake_exempt_def Let_def intro!: frame_inv [of _ _ _ s])
  show "vinv cfg cur ns'" if "ns = (now, s)" "ns' = (now, note_offline who s)"
    using inv that fin by (auto simp: note_offline_def intro!: frame_inv [of _ _ _ s])
  show "vinv cfg cur ns'" if "ns = (now, s)" "ns' = (now, note_equivocation who s)"
    using inv that fin by (auto simp: note_equivocation_def intro!: frame_inv [of _ _ _ s])
  show "vinv cfg cur ns'" if "locked cur c' = locked cur (vcurrency s)" "ns = (now, s)" "ns' = (now, s \<lparr> vcurrency := c' \<rparr>)" for c'
    using inv that fin by (auto intro!: frame_inv [of _ _ _ s])
qed (auto intro: von_initialize_inv lock_inv request_exit_inv new_session_inv)

interpretation validator_machine: invariant_system "vinit cfg cur" "vstep cfg cur" "vinv cfg cur"
  for cfg :: vconfig and cur :: "('a, 'c) lock_currency"
  by unfold_locales (auto intro: vinit_inv vstep_inv)

end
