(* ===== verification/ValidatorProps.thy ===== *)
theory ValidatorProps
  imports ValidatorInv
begin

text \<open>
  The properties of the validator pallet, over the reachable states of the machine of
  \<open>ValidatorInv\<close>: who is in the set, that stake stays locked, that an active lock does not run
  out, what a session boundary does to the set and to offenders, and the rejoin cooldown.
\<close>

section \<open>Lemmas on single steps\<close>

lemma vreachable_inv: "reachable (vinit cfg cur) (vstep cfg cur) ns \<Longrightarrow> vinv cfg cur ns"
  by (rule validator_machine.reachable_inv)

text \<open>The lock record of an account after a step: at least as binding, or expired.\<close>

definition binds :: "LockInfo \<Rightarrow> LockInfo option \<Rightarrow> bool" where
  "binds i l \<longleftrightarrow> (\<exists>i'. l = Some i' \<and> amount i \<le> amount i' \<and> expiry_block i \<le> expiry_block i')"

lemma binds_same [simp]: "binds i (Some i)" "binds i (Some (i \<lparr> status := st \<rparr>))"
  by (simp_all add: binds_def)

lemma binds_trans: "binds i (Some j) \<Longrightarrow> binds j l \<Longrightarrow> binds i l"
  by (auto simp: binds_def)

lemma relabelled_binds: "relabelled s s' \<Longrightarrow> ValidatorLocks s a = Some i \<Longrightarrow> binds i (ValidatorLocks s' a)"
  unfolding relabelled_def by (elim allE [of _ a] disjE exE conjE) auto

lemma lock_binds:
  assumes "lock cfg cur env (System_origin (Signed who)) s = Inr s'" "MaxValidators cfg \<le> U32_MAX"
    and "ValidatorLocks s a = Some i"
  shows "binds i (ValidatorLocks s' a)"
proof -
  obtain amt expiry where terms: "lock_terms cfg (block_number env) s who = (amt, expiry)"
    by fastforce
  show ?thesis
    using assms(3) terms unfolding lock_InrE(7) [OF assms(1,2) terms]
    by (auto simp: binds_def lock_terms_def)
qed

lemma sweep_binds:
  assumes "vinv cfg cur (now, s)" "block_number env = Suc now" "trie_order_ok env"
    and "Suc now + LockDuration cfg \<le> U32_MAX" "ValidatorLocks s a = Some i" "Suc now < expiry_block i"
  shows "binds i (ValidatorLocks (fst (von_initialize cfg cur env s)) a)"
proof -
  have fin: "finite (dom (ValidatorLocks s))"
    using assms(1) by (simp add: vinv_def stake_inv_def)
  have "\<not> expired (Suc now) i" "sat_add 32 (Suc now) (LockDuration cfg) = Suc now + LockDuration cfg"
    using assms(4,6) by (auto simp: expired_def sat_add_32)
  then show ?thesis
    using assms(5) by (auto simp: von_initialize_effect(1) [OF assms(3) fin refl assms(2)[symmetric]]
        swept_def due_def binds_def)
qed

lemma vstep_binds:
  assumes "vinv cfg cur ns" "vstep cfg cur ns ns'" "ValidatorLocks (snd ns) a = Some i" "fst ns' < expiry_block i"
  shows "binds i (ValidatorLocks (snd ns') a)"
proof -
  have max: "MaxValidators cfg \<le> U32_MAX" and set: "set_inv cfg (snd ns)"
    using assms(1) by (auto simp: vinv_def vconfig_ok_def)
  from assms(2) show ?thesis
  proof cases
    case (next_block env now s)
    then show ?thesis using sweep_binds assms by auto
  next
    case (call_lock env now who s s')
    then show ?thesis using lock_binds max assms(3) by auto
  next
    case (session env now s)
    then show ?thesis using relabelled_binds [OF new_session_relabelled] set assms(3) by auto
  qed (use assms(3) in \<open>auto simp: request_exit_def set_stake_exempt_def note_offline_def note_equivocation_def
        Let_def split: option.splits if_splits\<close>)
qed

lemma vstep_time: "vstep cfg cur ns ns' \<Longrightarrow> fst ns \<le> fst ns'"
  by (erule vstepE) auto

lemma vsteps_time: "(vstep cfg cur)\<^sup>*\<^sup>* ns ns' \<Longrightarrow> fst ns \<le> fst ns'"
  by (induction rule: rtranclp_induct) (auto dest: vstep_time)

lemma vsteps_binds:
  assumes "(vstep cfg cur)\<^sup>*\<^sup>* ns ns'" "vinv cfg cur ns" "ValidatorLocks (snd ns) a = Some i" "fst ns' < expiry_block i"
  shows "binds i (ValidatorLocks (snd ns') a)"
  using assms
proof (induction rule: rtranclp_induct)
  case (step y z)
  have y: "fst y \<le> fst z" "vinv cfg cur y"
    using vstep_time [OF step(2)] validator_machine.closure_inv [OF step(1,4)] .
  then have "binds i (ValidatorLocks (snd y) a)"
    using step by auto
  then obtain j where j: "ValidatorLocks (snd y) a = Some j" "binds i (Some j)" "expiry_block i \<le> expiry_block j"
    by (auto simp: binds_def)
  have "binds j (ValidatorLocks (snd z) a)"
    by (rule vstep_binds [OF y(2) step(2) j(1)]) (use step.prems(3) j(3) in linarith)
  then show ?case
    using j(2) by (rule binds_trans [rotated])
qed simp

text \<open>Offenders at a session boundary.\<close>

lemma kick_inactive: "\<not> is_active (fst (kick_validator cfg env a r s)) a"
  by (auto simp: kick_validator_def is_active_def Let_def split: option.splits)

lemma kicks_inactive: "kicks cfg env s s' \<Longrightarrow> \<not> is_active s a \<Longrightarrow> \<not> is_active s' a"
  by (auto dest: kicks_active)

lemma kick_fold_inactive:
  "a \<in> set xs \<Longrightarrow> \<not> is_active (fold (\<lambda>who s. fst (kick_validator cfg env who r s)) xs s) a"
proof (induction xs arbitrary: s)
  case (Cons x xs)
  show ?case
  proof (cases "a \<in> set xs")
    case False
    then have "x = a" using Cons.prems by simp
    let ?t = "fst (kick_validator cfg env x r s)"
    have "kicks cfg env ?t (fold (\<lambda>who s. fst (kick_validator cfg env who r s)) xs ?t)"
      by (rule fold_invariant [where P = "kicks cfg env ?t", OF kicks_refl]) (rule kicks_trans [OF _ kick_validator_kicks])
    moreover have "\<not> is_active ?t a"
      using kick_inactive [of cfg env a r s] \<open>x = a\<close> by simp
    ultimately show ?thesis
      using kicks_inactive by fastforce
  qed (simp add: Cons.IH)
qed simp

lemma equivocator_inactive:
  assumes "trie_order_ok env" "finite (EquivocationThisSession s)" "a \<in> EquivocationThisSession s"
  shows "\<not> is_active (after_kicks cfg env s) a"
proof -
  have "\<not> is_active (process_equivocations cfg env s) a"
    unfolding process_equivocations_def Let_def
    by (rule kick_fold_inactive) (use assms in \<open>simp add: trie_order_ok_def\<close>)
  then show ?thesis
    unfolding after_kicks_def by (rule kicks_inactive [OF process_offline_kicks])
qed

lemma kicked_entry:
  assumes "is_active s a" "\<not> is_active (after_kicks cfg env s) a"
  shows "ValidatorLocks (after_kicks cfg env s) a = Some ((the (ValidatorLocks s a)) \<lparr> status := Kicked \<rparr>)
    \<and> RejoinCooldown (after_kicks cfg env s) a = Some (sat_add 32 (block_number env) (RejoinCooldownPeriod cfg))"
proof -
  have "kicked_or_same cfg env s (after_kicks cfg env s) a"
    using after_kicks [of cfg env s] by (simp add: kicks_def)
  then show ?thesis
    using assms by (auto simp: kicked_or_same_def is_active_def split: option.splits)
qed

lemma inactive_entry:
  assumes "\<not> is_active s a"
  shows "ValidatorLocks (after_kicks cfg env s) a = ValidatorLocks s a
    \<and> RejoinCooldown (after_kicks cfg env s) a = RejoinCooldown s a"
proof -
  have "kicked_or_same cfg env s (after_kicks cfg env s) a"
    using after_kicks [of cfg env s] by (simp add: kicks_def)
  then show ?thesis
    using assms by (auto simp: kicked_or_same_def is_active_def)
qed

text \<open>The cooldown of an account outside the set.\<close>

lemma vstep_cooldown:
  assumes inv: "vinv cfg cur ns" and step: "vstep cfg cur ns ns'" and cool: "RejoinCooldown (snd ns) a = Some d"
    and out: "a \<notin> set (members (snd ns))" and "fst ns' \<le> d"
  shows "RejoinCooldown (snd ns') a = Some d \<and> a \<notin> set (members (snd ns'))"
  using step
proof cases
  case (next_block env now s)
  have "finite (dom (ValidatorLocks s))"
    using inv next_block(1) by (simp add: vinv_def stake_inv_def)
  from von_initialize_effect(2-4) [OF next_block(4) this refl refl, where cfg = cfg and cur = cur]
  show ?thesis using next_block cool out by (simp add: members_def)
next
  case (call_lock env now who s s')
  obtain amt expiry where terms: "lock_terms cfg (block_number env) s who = (amt, expiry)"
    by fastforce
  have max: "MaxValidators cfg \<le> U32_MAX"
    using inv by (simp add: vinv_def vconfig_ok_def)
  note eff = lock_InrE [OF call_lock(4) max terms]
  show ?thesis
    using eff(6) [of d] call_lock(1-3) cool out assms(5) by (auto simp: members_def eff(8-10))
next
  case (session env now s)
  have set: "set_inv cfg s" and status: "status_inv s"
    using inv session(1) by (auto simp: vinv_def)
  have "\<not> is_active s a"
    using status out session(1) by (auto simp: status_inv_def)
  then have "RejoinCooldown (after_kicks cfg env s) a = Some d"
    using inactive_entry [of s a cfg env] cool session(1) by simp
  then show ?thesis
    using new_session_effect(1,2,4) [OF set refl refl, of env] session(1,2) out by (auto simp: members_def)
qed (use cool out in \<open>auto simp: request_exit_def set_stake_exempt_def note_offline_def note_equivocation_def
      Let_def members_def split: option.splits if_splits dest: notin_set_remove1\<close>)

lemma vsteps_cooldown:
  assumes "(vstep cfg cur)\<^sup>*\<^sup>* ns ns'" "vinv cfg cur ns" "RejoinCooldown (snd ns) a = Some d"
    and "a \<notin> set (members (snd ns))" "fst ns' \<le> d"
  shows "RejoinCooldown (snd ns') a = Some d \<and> a \<notin> set (members (snd ns'))"
  using assms
proof (induction rule: rtranclp_induct)
  case (step y z)
  have "fst y \<le> fst z" "vinv cfg cur y"
    using vstep_time [OF step(2)] validator_machine.closure_inv [OF step(1,4)] .
  then show ?case
    using vstep_cooldown [OF _ step(2)] step.IH step.prems by auto
qed simp

text \<open>Liveness accounting: each step of the offline pass only looks at and changes its own account.\<close>

definition entry :: "('a, 'c) vstate \<Rightarrow> 'a \<Rightarrow> LockInfo option \<times> nat option \<times> bool" where
  "entry s a = (ValidatorLocks s a, OfflineSessionCount s a, a \<in> OfflineThisSession s)"

lemma kick_entry_other: "b \<noteq> a \<Longrightarrow> entry (fst (kick_validator cfg env a r s)) b = entry s b"
  by (auto simp: entry_def kick_validator_def Let_def split: option.splits)

lemma offline_entry_other: "b \<noteq> a \<Longrightarrow> entry (offline_one cfg env a s) b = entry s b"
  using kick_entry_other [of b a cfg env Offline "s \<lparr> OfflineThisSession := OfflineThisSession s - {a} \<rparr>"]
  by (auto simp: offline_one_def Let_def entry_def)

lemma offline_entry_local: "entry s a = entry t a \<Longrightarrow> entry (offline_one cfg env a s) a = entry (offline_one cfg env a t) a"
  by (auto simp: entry_def offline_one_def kick_validator_def is_active_def Let_def split: option.splits)

lemma offline_fold_other: "b \<notin> set xs \<Longrightarrow> entry (fold (offline_one cfg env) xs s) b = entry s b"
  by (induction xs arbitrary: s) (auto simp: offline_entry_other)

lemma offline_fold_entry:
  "distinct xs \<Longrightarrow> a \<in> set xs \<Longrightarrow> entry (fold (offline_one cfg env) xs s) a = entry (offline_one cfg env a s) a"
proof (induction xs arbitrary: s)
  case (Cons x xs)
  show ?case
  proof (cases "x = a")
    case True
    then show ?thesis using Cons.prems by (simp add: offline_fold_other)
  next
    case False
    then show ?thesis
      using Cons by (auto simp: offline_entry_other intro: offline_entry_local)
  qed
qed simp

lemma kick_fold_other:
  "b \<notin> set xs \<Longrightarrow> entry (fold (\<lambda>who s. fst (kick_validator cfg env who r s)) xs s) b = entry s b"
  by (induction xs arbitrary: s) (auto simp: kick_entry_other)

lemma promote_count_other:
  "b \<notin> set ps \<Longrightarrow> OfflineSessionCount (fst (fold (promote_one cfg env) ps (s, nxt))) b = OfflineSessionCount s b"
proof (induction ps arbitrary: s nxt)
  case (Cons a ps)
  obtain s1 n1 where 1: "promote_one cfg env a (s, nxt) = (s1, n1)"
    by fastforce
  then have "OfflineSessionCount s1 b = OfflineSessionCount s b"
    using Cons.prems by (auto simp: promote_one_def drop_pending_candidate_def Let_def split: if_splits)
  then show ?case using Cons 1 by simp
qed simp

lemma after_kicks_entry:
  assumes "trie_order_ok env" "finite (EquivocationThisSession s)" "a \<notin> EquivocationThisSession s"
    and "distinct (DesiredValidators s)" "a \<in> set (DesiredValidators s)"
  shows "ValidatorLocks (after_kicks cfg env s) a = ValidatorLocks (offline_one cfg env a s) a"
    and "OfflineSessionCount (after_kicks cfg env s) a = OfflineSessionCount (offline_one cfg env a s) a"
proof -
  let ?e = "process_equivocations cfg env s"
  have e: "entry ?e a = entry s a"
    using kick_fold_other [of a "trie_order env (EquivocationThisSession s)" cfg env Equivocation
        "s \<lparr> EquivocationThisSession := {} \<rparr>"] assms(1-3)
    by (simp add: process_equivocations_def Let_def trie_order_ok_def entry_def)
  have "DesiredValidators ?e = DesiredValidators s"
    using process_equivocations_kicks by (auto simp: kicks_def)
  then have "entry (fold (offline_one cfg env) (DesiredValidators ?e) ?e) a = entry (offline_one cfg env a s) a"
    by (simp add: offline_fold_entry [OF assms(4,5)] offline_entry_local [OF e])
  then show "ValidatorLocks (after_kicks cfg env s) a = ValidatorLocks (offline_one cfg env a s) a"
    "OfflineSessionCount (after_kicks cfg env s) a = OfflineSessionCount (offline_one cfg env a s) a"
    by (simp_all add: after_kicks_def process_offline_counters_def entry_def)
qed

lemma new_session_count:
  assumes "set_inv cfg s" "a \<in> set (DesiredValidators s)"
  shows "OfflineSessionCount (fst (new_session cfg env s)) a = OfflineSessionCount (after_kicks cfg env s) a"
proof -
  have "PendingValidators (after_kicks cfg env s) = PendingValidators s"
    using after_kicks [of cfg env s] by (simp add: kicks_def)
  moreover obtain u n where u: "fold (promote_one cfg env) (PendingValidators s)
      (after_kicks cfg env s \<lparr> PendingValidators := [] \<rparr>,
       fold (keep_one cfg (after_kicks cfg env s)) (DesiredValidators (after_kicks cfg env s)) []) = (u, n)"
    by fastforce
  ultimately have "fst (new_session cfg env s) = u \<lparr> DesiredValidators := n \<rparr>"
    by (simp add: new_session_def after_kicks_def Let_def)
  moreover have "a \<notin> set (PendingValidators s)"
    using assms by (auto simp: set_inv_def members_def)
  from promote_count_other [OF this, of cfg env "after_kicks cfg env s \<lparr> PendingValidators := [] \<rparr>"
      "fold (keep_one cfg (after_kicks cfg env s)) (DesiredValidators (after_kicks cfg env s)) []", unfolded u]
  have "OfflineSessionCount u a = OfflineSessionCount (after_kicks cfg env s) a"
    by simp
  ultimately show ?thesis by simp
qed

section \<open>Properties\<close>

text \<open>A concrete chain for the witnesses: three genesis validators and a plain currency.\<close>

definition sample_cfg :: vconfig where
  "sample_cfg = \<lparr> LockAmount = 100, LockDuration = 50, MaxValidators = 4, RenewInterval = 10,
     OfflineThreshold = 2, RejoinCooldownPeriod = 30 \<rparr>"

definition sample_cur :: "(nat, nat \<Rightarrow> nat) lock_currency" where
  "sample_cur = \<lparr> set_lock = (\<lambda>a v c. c(a := v)), remove_lock = (\<lambda>a c. c(a := 0)),
     free_balance = (\<lambda>c a. 1000), locked = (\<lambda>c. c) \<rparr>"

definition sample_env :: "nat \<Rightarrow> nat venv" where
  "sample_env n = \<lparr> block_number = n, has_keys = (\<lambda>a. a < 9), identity_gate = (\<lambda>a. a < 9), trie_order = sorted_list_of_set \<rparr>"

definition sample_vgenesis :: "(nat, nat \<Rightarrow> nat) vstate" where
  "sample_vgenesis = the (vgenesis_build sample_cfg (\<lambda>_. 0) [1, 2, 3])"

lemma sample_trie_order: "trie_order_ok (sample_env n)"
  by (simp add: trie_order_ok_def sample_env_def)

lemma sample_vgenesis_eq: "sample_vgenesis =
  (empty_vstate (\<lambda>_. 0)) \<lparr> DesiredValidators := [1, 2, 3], StakeExemptAccounts := {1, 2, 3},
    ValidatorLocks := (\<lambda>a. if a \<in> {1, 2, 3} then Some \<lparr> amount = 0, lock_block = 0, expiry_block = 50, status = Active \<rparr> else None) \<rparr>"
  "vgenesis_build sample_cfg (\<lambda>_. 0) [1, 2, 3] = Some sample_vgenesis"
  by (auto simp: sample_vgenesis_def vgenesis_build_def vgenesis_one_def empty_vstate_def sample_cfg_def
      bv_try_push_def sat_add_32 U32_MAX_def fun_eq_iff Let_def)

lemma sample_vreachable: "reachable (vinit sample_cfg sample_cur) (vstep sample_cfg sample_cur) (0, sample_vgenesis)"
proof (rule reach_init)
  have "vconfig_ok sample_cfg" "lock_currency_laws sample_cur"
    by (simp_all add: vconfig_ok_def lock_currency_laws_def sample_cfg_def sample_cur_def U32_MAX_def)
  then show "vinit sample_cfg sample_cur (0, sample_vgenesis)"
    using sample_vgenesis_eq(2) by (auto simp: vinit_def sample_cur_def sample_cfg_def U32_MAX_def intro!: exI [of _ "\<lambda>_. 0"])
qed

text \<open>
  C1: In every reachable state the active set and the pending queue are disjoint and free of
  duplicates and together within \<open>MaxValidators\<close> (so no push is ever dropped), every pending
  candidate holds an active lock, every active lock belongs to a member of one of the two
  lists (no orphan lock is renewed for ever), and no member of the active set is kicked.
\<close>

theorem validator_set_invariant:
  assumes "reachable (vinit cfg cur) (vstep cfg cur) (now, s)"
  shows "distinct (DesiredValidators s @ PendingValidators s)
    \<and> length (DesiredValidators s @ PendingValidators s) \<le> MaxValidators cfg
    \<and> (\<forall>a \<in> set (PendingValidators s). is_active s a)
    \<and> (\<forall>a. is_active s a \<longrightarrow> a \<in> set (DesiredValidators s @ PendingValidators s))
    \<and> (\<forall>a \<in> set (DesiredValidators s). \<forall>i. ValidatorLocks s a = Some i \<longrightarrow> status i \<noteq> Kicked)"
  using vreachable_inv [OF assms] by (simp add: vinv_def set_inv_def status_inv_def members_def)

theorem validator_set_invariant_witness:
  "distinct (DesiredValidators sample_vgenesis @ PendingValidators sample_vgenesis)
   \<and> DesiredValidators sample_vgenesis = [1, 2, 3]"
  using validator_set_invariant [OF sample_vreachable] by (simp add: sample_vgenesis_eq(1) empty_vstate_def)

text \<open>
  C2: No stake comes back early. Along every run of the pallet, with calls, reports, sessions
  and sweeps in any order, a lock record keeps or raises its amount and its expiry until its
  expiry block is reached, and all that time the currency holds that amount under lock.
\<close>

theorem stake_locked_until_expiry:
  assumes "reachable (vinit cfg cur) (vstep cfg cur) (now, s)" "(vstep cfg cur)\<^sup>*\<^sup>* (now, s) (now', s')"
    and "ValidatorLocks s a = Some i" "now' < expiry_block i"
  shows "(\<exists>i'. ValidatorLocks s' a = Some i' \<and> amount i \<le> amount i' \<and> expiry_block i \<le> expiry_block i')
    \<and> amount i \<le> locked cur (vcurrency s') a"
proof -
  have "binds i (ValidatorLocks s' a)"
    using vsteps_binds [OF assms(2) vreachable_inv [OF assms(1)]] assms(3,4) by auto
  moreover have "stake_inv cur s'"
    using validator_machine.reachable_closure [OF assms(1,2)] by (simp add: vinv_def)
  ultimately show ?thesis
    by (auto simp: binds_def stake_inv_def recorded_def)
qed

definition sample_joined :: "(nat, nat \<Rightarrow> nat) vstate" where
  "sample_joined = sample_vgenesis \<lparr> PendingValidators := [5], vcurrency := (\<lambda>_. 0)(5 := 100),
     RejoinCooldown := (RejoinCooldown sample_vgenesis)(5 := None),
     ValidatorLocks := (ValidatorLocks sample_vgenesis)(5 \<mapsto>
       \<lparr> amount = 100, lock_block = 0, expiry_block = 50, status = Active \<rparr>),
     vevents := [ValidatorLocked 5 100 50] \<rparr>"

lemma sample_join: "lock sample_cfg sample_cur (sample_env 0) (signed 5) sample_vgenesis = Inr sample_joined"
  by (simp add: lock_eq members_def sample_joined_def sample_vgenesis_eq(1) empty_vstate_def sample_cfg_def sample_cur_def
      sample_env_def lock_terms_def in_cooldown_def required_lock_def push_ignore_simps sat_add_32 U32_MAX_def deposit_event_def)

lemma sample_joined_reachable: "reachable (vinit sample_cfg sample_cur) (vstep sample_cfg sample_cur) (0, sample_joined)"
  by (rule reach_step [OF sample_vreachable], rule call_lock [OF _ sample_join]) (simp add: sample_env_def)

theorem stake_locked_until_expiry_witness:
  "\<exists>s'. request_exit (signed 5) sample_joined = Inr s' \<and> 100 \<le> locked sample_cur (vcurrency s') 5"
proof -
  have locks: "ValidatorLocks sample_joined 5 = Some \<lparr> amount = 100, lock_block = 0, expiry_block = 50, status = Active \<rparr>"
    by (simp add: sample_joined_def)
  then obtain s' where s': "request_exit (signed 5) sample_joined = Inr s'"
    by (simp add: request_exit_def Let_def)
  then have "(vstep sample_cfg sample_cur)\<^sup>*\<^sup>* (0, sample_joined) (0, s')"
    by (intro r_into_rtranclp call_exit)
  from stake_locked_until_expiry [OF sample_joined_reachable this locks] show ?thesis
    using s' by simp
qed

text \<open>
  C23: An active lock never runs out: in every reachable state the next block's sweep keeps
  every active validator active, and leaves more than \<open>LockDuration - RenewInterval\<close> blocks
  before the expiry. A validator leaves the set only by its own exit, by a kick or by being
  dropped as a candidate.
\<close>

theorem active_lock_never_expires:
  assumes "reachable (vinit cfg cur) (vstep cfg cur) (now, s)" "is_active s a"
    and "block_number env = Suc now" "trie_order_ok env" "Suc now + LockDuration cfg \<le> U32_MAX"
  shows "\<exists>i. ValidatorLocks (fst (von_initialize cfg cur env s)) a = Some i \<and> status i = Active
    \<and> Suc now + (LockDuration cfg - RenewInterval cfg) < expiry_block i"
proof -
  let ?s = "fst (von_initialize cfg cur env s)"
  have inv: "vinv cfg cur (now, s)"
    by (rule vreachable_inv [OF assms(1)])
  obtain i where i: "ValidatorLocks s a = Some i" "status i = Active"
    using assms(2) by (auto simp: is_active_iff)
  have fin: "finite (dom (ValidatorLocks s))" and cfg: "RenewInterval cfg < LockDuration cfg"
    and "now + LockDuration cfg < expiry_block i + RenewInterval cfg"
    using inv i by (auto simp: vinv_def stake_inv_def time_inv_def vconfig_ok_def)
  then have "\<not> expired (Suc now) i"
    by (simp add: expired_def)
  then obtain i' where i': "ValidatorLocks ?s a = Some i'" "status i' = Active"
    using i von_initialize_effect(1) [OF assms(4) fin refl assms(3)[symmetric], where cfg = cfg and cur = cur]
    by (cases "due cfg (Suc now) i") (auto simp: swept_def)
  have "time_inv cfg (Suc now) ?s"
    using von_initialize_inv [OF inv assms(3-5)] by (simp add: vinv_def)
  then have "Suc now + LockDuration cfg < expiry_block i' + RenewInterval cfg"
    using i' by (simp add: time_inv_def)
  then show ?thesis
    using i' cfg by auto
qed

theorem active_lock_never_expires_witness:
  "\<exists>i. ValidatorLocks (fst (von_initialize sample_cfg sample_cur (sample_env 1) sample_joined)) 5 = Some i
    \<and> status i = Active \<and> 41 < expiry_block i"
proof -
  have "is_active sample_joined 5"
    by (simp add: is_active_def sample_joined_def)
  from active_lock_never_expires [OF sample_joined_reachable this _ sample_trie_order [of 1]] show ?thesis
    by (simp add: sample_env_def sample_cfg_def U32_MAX_def)
qed

text \<open>
  C22: The session boundary recomputes the set as documented. Under the reachable-state
  invariant the new active set is the old one restricted to the accounts still active after
  the kicks, followed by the queued candidates that are active and have session keys, in
  order; every member is active and the queue is empty. The session pallet is handed the new set exactly
  when it differs from the old one and is not empty.
\<close>

theorem new_session_recomputes_set:
  assumes "reachable (vinit cfg cur) (vstep cfg cur) (now, s)" "new_session cfg env s = (s', result)"
  shows "DesiredValidators s' =
      [a \<leftarrow> DesiredValidators s. is_active (process_offline_counters cfg env (process_equivocations cfg env s)) a]
      @ [a \<leftarrow> PendingValidators s. is_active (process_offline_counters cfg env (process_equivocations cfg env s)) a \<and> has_keys env a]
    \<and> PendingValidators s' = [] \<and> (\<forall>a. is_active s' a \<longleftrightarrow> a \<in> set (DesiredValidators s'))
    \<and> result = (if DesiredValidators s' = DesiredValidators s \<or> DesiredValidators s' = [] then None
                else Some (DesiredValidators s'))"
proof -
  have inv: "vinv cfg cur (now, s)"
    by (rule vreachable_inv [OF assms(1)])
  then have set: "set_inv cfg s" and status: "status_inv (fst (new_session cfg env s))"
    using new_session_inv [OF inv, of env] by (simp_all add: vinv_def)
  have s': "s' = fst (new_session cfg env s)" and result: "result = snd (new_session cfg env s)"
    using assms(2) by simp_all
  note eff = new_session_effect [OF set after_kicks_def [symmetric] s']
  have "is_active s' a \<longleftrightarrow> a \<in> set (DesiredValidators s')" for a
    using new_session_all_active [OF set, of a env] status eff(1)
    by (auto simp: s' status_inv_def members_def)
  then show ?thesis
    unfolding result eff(7) using eff(1,2) by blast
qed

theorem new_session_recomputes_set_witness:
  "\<exists>s'. new_session sample_cfg (sample_env 0) sample_joined = (s', Some [1, 2, 3, 5]) \<and> DesiredValidators s' = [1, 2, 3, 5]"
proof -
  have active: "is_active (process_offline_counters sample_cfg (sample_env 0) (process_equivocations sample_cfg (sample_env 0) sample_joined)) a
      \<longleftrightarrow> a \<in> {1, 2, 3, 5}" for a
    by (simp add: process_equivocations_def process_offline_counters_def offline_one_def sample_joined_def
        sample_vgenesis_eq(1) empty_vstate_def sample_env_def is_active_def)
  obtain s' r where run: "new_session sample_cfg (sample_env 0) sample_joined = (s', r)"
    by fastforce
  from new_session_recomputes_set [OF sample_joined_reachable run] show ?thesis
    unfolding active run by (simp add: sample_joined_def sample_vgenesis_eq(1) empty_vstate_def sample_env_def)
qed

text \<open>
  C21: An active validator reported for equivocation is out at the next session boundary: its
  status is kicked, its stake and expiry are untouched, its cooldown runs for
  \<open>RejoinCooldownPeriod\<close> blocks, and from then on, as long as the deadline has not passed, no
  sequence of calls, reports, sessions and blocks brings it back into either list.
\<close>

theorem equivocator_kicked_and_stays_out:
  assumes "reachable (vinit cfg cur) (vstep cfg cur) (now, s)" "a \<in> EquivocationThisSession s"
    and "ValidatorLocks s a = Some i" "status i = Active"
    and "block_number env = now" "trie_order_ok env" "now + RejoinCooldownPeriod cfg \<le> U32_MAX"
    and "(vstep cfg cur)\<^sup>*\<^sup>* (now, fst (new_session cfg env s)) (now', s')"
    and "now' \<le> now + RejoinCooldownPeriod cfg"
  shows "ValidatorLocks (fst (new_session cfg env s)) a = Some (i \<lparr> status := Kicked \<rparr>)
    \<and> RejoinCooldown s' a = Some (now + RejoinCooldownPeriod cfg)
    \<and> a \<notin> set (DesiredValidators s') \<and> a \<notin> set (PendingValidators s')"
proof -
  have inv: "vinv cfg cur (now, s)"
    by (rule vreachable_inv [OF assms(1)])
  then have set: "set_inv cfg s" and fin: "finite (EquivocationThisSession s)"
    by (simp_all add: vinv_def stake_inv_def)
  note eff = new_session_effect [OF set refl refl, of env]
  have out: "\<not> is_active (after_kicks cfg env s) a"
    by (rule equivocator_inactive [OF assms(6) fin assms(2)])
  have "is_active s a"
    using assms(3,4) by (simp add: is_active_def)
  from kicked_entry [OF this out] have
    kicked: "ValidatorLocks (after_kicks cfg env s) a = Some (i \<lparr> status := Kicked \<rparr>)"
      "RejoinCooldown (after_kicks cfg env s) a = Some (now + RejoinCooldownPeriod cfg)"
    using assms(3,5,7) by (simp_all add: sat_add_32)
  have "RejoinCooldown s' a = Some (now + RejoinCooldownPeriod cfg) \<and> a \<notin> set (members s')"
    using vsteps_cooldown [OF assms(8) new_session_inv [OF inv], of a "now + RejoinCooldownPeriod cfg"]
      out kicked(2) assms(9) by (simp add: eff(1,2,4) members_def)
  then show ?thesis
    using out kicked(1) by (simp add: eff(3) unpromoted_def members_def)
qed

theorem equivocator_kicked_and_stays_out_witness:
  "RejoinCooldown (fst (new_session sample_cfg (sample_env 0) (note_equivocation 2 sample_joined))) 2 = Some 30
   \<and> 2 \<notin> set (DesiredValidators (fst (new_session sample_cfg (sample_env 0) (note_equivocation 2 sample_joined))))"
proof -
  have reach: "reachable (vinit sample_cfg sample_cur) (vstep sample_cfg sample_cur) (0, note_equivocation 2 sample_joined)"
    by (rule reach_step [OF sample_joined_reachable report_equivocation])
  have "2 \<in> EquivocationThisSession (note_equivocation 2 sample_joined)"
    "ValidatorLocks (note_equivocation 2 sample_joined) 2 = Some \<lparr> amount = 0, lock_block = 0, expiry_block = 50, status = Active \<rparr>"
    by (simp_all add: note_equivocation_def sample_joined_def sample_vgenesis_eq(1) empty_vstate_def is_active_def)
  from equivocator_kicked_and_stays_out [OF reach this _ _ sample_trie_order [of 0] _ rtranclp.rtrancl_refl]
  show ?thesis
    by (simp add: sample_cfg_def sample_env_def U32_MAX_def)
qed

text \<open>
  C39: A reported equivocator that calls \<open>request_exit\<close> before the session boundary is not
  kicked: it leaves with the status \<open>ExitRequested\<close> and without any rejoin cooldown.
\<close>

theorem equivocator_escapes_by_exit:
  assumes "reachable (vinit cfg cur) (vstep cfg cur) (now, s)" "a \<in> EquivocationThisSession s"
    and "RejoinCooldown s a = None" "request_exit (System_origin (Signed a)) s = Inr s1"
  shows "RejoinCooldown (fst (new_session cfg env s1)) a = None
    \<and> map_option status (ValidatorLocks (fst (new_session cfg env s1)) a) = Some ExitRequested
    \<and> a \<notin> set (DesiredValidators (fst (new_session cfg env s1)))"
proof -
  have "vinv cfg cur (now, s1)"
    by (rule request_exit_inv [OF vreachable_inv [OF assms(1)] assms(4)])
  then have set: "set_inv cfg s1"
    by (simp add: vinv_def)
  have s1: "\<not> is_active s1 a" "RejoinCooldown s1 a = None" "map_option status (ValidatorLocks s1 a) = Some ExitRequested"
    using assms(3,4) by (auto simp: request_exit_def is_active_def Let_def split: option.splits if_splits)
  note same = inactive_entry [OF s1(1), of cfg env]
  have "\<not> is_active (after_kicks cfg env s1) a"
    using s1(1) same by (simp add: is_active_def)
  then show ?thesis
    using s1 same by (simp add: new_session_effect(2-4) [OF set refl refl] unpromoted_def)
qed

theorem equivocator_escapes_by_exit_witness:
  "\<exists>s1. request_exit (signed 2) (note_equivocation 2 sample_joined) = Inr s1
    \<and> RejoinCooldown (fst (new_session sample_cfg (sample_env 0) s1)) 2 = None"
proof -
  have reach: "reachable (vinit sample_cfg sample_cur) (vstep sample_cfg sample_cur) (0, note_equivocation 2 sample_joined)"
    by (rule reach_step [OF sample_joined_reachable report_equivocation])
  have flagged: "2 \<in> EquivocationThisSession (note_equivocation 2 sample_joined)"
    "RejoinCooldown (note_equivocation 2 sample_joined) 2 = None"
    by (simp_all add: note_equivocation_def sample_joined_def sample_vgenesis_eq(1) empty_vstate_def is_active_def)
  obtain s1 where "request_exit (signed 2) (note_equivocation 2 sample_joined) = Inr s1"
    by (simp add: request_exit_def note_equivocation_def sample_joined_def sample_vgenesis_eq(1) empty_vstate_def
        is_active_def Let_def)
  with equivocator_escapes_by_exit [OF reach flagged this, of "sample_env 0"] show ?thesis
    by blast
qed

text \<open>
  Offline accounting. For a member of the active set that is active and not reported for
  equivocation, a session without an offline report clears its counter, a reported session
  raises it by one, and the session in which it reaches \<open>OfflineThreshold\<close> kicks it.
\<close>

theorem offline_accounting:
  assumes "reachable (vinit cfg cur) (vstep cfg cur) (now, s)" "trie_order_ok env"
    and "a \<in> set (DesiredValidators s)" "a \<notin> EquivocationThisSession s"
    and "ValidatorLocks s a = Some i" "status i = Active"
    and "c = (case OfflineSessionCount s a of Some c \<Rightarrow> c | None \<Rightarrow> 0)" "c < U32_MAX"
  shows "if a \<notin> OfflineThisSession s
    then OfflineSessionCount (fst (new_session cfg env s)) a = None \<and> is_active (fst (new_session cfg env s)) a
    else if Suc c < OfflineThreshold cfg
    then OfflineSessionCount (fst (new_session cfg env s)) a = Some (Suc c) \<and> is_active (fst (new_session cfg env s)) a
    else ValidatorLocks (fst (new_session cfg env s)) a = Some (i \<lparr> status := Kicked \<rparr>)"
proof -
  have inv: "vinv cfg cur (now, s)"
    by (rule vreachable_inv [OF assms(1)])
  then have set: "set_inv cfg s" and fin: "finite (EquivocationThisSession s)"
    by (simp_all add: vinv_def stake_inv_def)
  have d: "distinct (DesiredValidators s)" "a \<notin> set (PendingValidators s)"
    using set assms(3) by (auto simp: set_inv_def members_def)
  note entry = after_kicks_entry [OF assms(2) fin assms(4) d(1) assms(3), of cfg]
  have locks: "ValidatorLocks (fst (new_session cfg env s)) a = ValidatorLocks (offline_one cfg env a s) a"
    using d(2) by (simp add: new_session_effect(3) [OF set refl refl] unpromoted_def entry)
  have "sat_add 32 c (Suc 0) = Suc c"
    using assms(8) by (simp add: sat_add_32)
  then show ?thesis
    unfolding is_active_def locks new_session_count [OF set assms(3)] entry
    using assms(5-7) by (auto simp: offline_one_def kick_validator_def is_active_def Let_def)
qed

theorem offline_accounting_witness:
  "OfflineSessionCount (fst (new_session sample_cfg (sample_env 0) (note_offline 3 sample_joined))) 3 = Some 1"
proof -
  have reach: "reachable (vinit sample_cfg sample_cur) (vstep sample_cfg sample_cur) (0, note_offline 3 sample_joined)"
    by (rule reach_step [OF sample_joined_reachable report_offline])
  have s: "3 \<in> set (DesiredValidators (note_offline 3 sample_joined))" "3 \<notin> EquivocationThisSession (note_offline 3 sample_joined)"
    "ValidatorLocks (note_offline 3 sample_joined) 3 = Some \<lparr> amount = 0, lock_block = 0, expiry_block = 50, status = Active \<rparr>"
    "OfflineSessionCount (note_offline 3 sample_joined) 3 = None" "3 \<in> OfflineThisSession (note_offline 3 sample_joined)"
    by (simp_all add: note_offline_def sample_joined_def sample_vgenesis_eq(1) empty_vstate_def)
  from offline_accounting [OF reach sample_trie_order s(1,2,3) _ refl] s(4,5) show ?thesis
    by (simp add: sample_cfg_def)
qed

text \<open>
  C38: The outcome of \<open>lock\<close> on every branch: the first failing check decides the error, and a
  call that passes them all queues the caller and records the larger of the old and the
  required amount and the later of the old and the fresh expiry.
\<close>

theorem lock_outcome:
  assumes "reachable (vinit cfg cur) (vstep cfg cur) (now, s)" "block_number env = now"
    and "req = (if who \<in> StakeExemptAccounts s then 0 else LockAmount cfg)"
    and "amt = (case ValidatorLocks s who of Some p \<Rightarrow> max (amount p) req | None \<Rightarrow> req)"
    and "expiry = (case ValidatorLocks s who of Some p \<Rightarrow> max (expiry_block p) (now + LockDuration cfg) | None \<Rightarrow> now + LockDuration cfg)"
  shows "if who \<in> set (DesiredValidators s @ PendingValidators s) then lock cfg cur env (System_origin (Signed who)) s = Inl AlreadyValidator
    else if MaxValidators cfg \<le> length (DesiredValidators s @ PendingValidators s) then lock cfg cur env (System_origin (Signed who)) s = Inl TooManyValidators
    else if \<not> has_keys env who then lock cfg cur env (System_origin (Signed who)) s = Inl SessionKeysNotRegistered
    else if \<not> identity_gate env who then lock cfg cur env (System_origin (Signed who)) s = Inl IdentityNotQualified
    else if (\<exists>d. RejoinCooldown s who = Some d \<and> now \<le> d) then lock cfg cur env (System_origin (Signed who)) s = Inl InCooldown
    else if free_balance cur (vcurrency s) who < amt then lock cfg cur env (System_origin (Signed who)) s = Inl InsufficientBalance
    else \<exists>s'. lock cfg cur env (System_origin (Signed who)) s = Inr s' \<and> PendingValidators s' = PendingValidators s @ [who]
      \<and> ValidatorLocks s' who = Some \<lparr> amount = amt, lock_block = now, expiry_block = expiry, status = Active \<rparr>
      \<and> vcurrency s' = set_lock cur who amt (vcurrency s)"
proof -
  have inv: "vinv cfg cur (now, s)"
    by (rule vreachable_inv [OF assms(1)])
  then have "now + LockDuration cfg \<le> U32_MAX" and max: "MaxValidators cfg \<le> U32_MAX"
    by (simp_all add: vinv_def time_inv_def vconfig_ok_def)
  then have terms: "lock_terms cfg now s who = (amt, expiry)"
    unfolding assms(3-5) lock_terms_def by (simp add: sat_add_32 required_lock_def split: option.splits)
  have "sat_add 32 (length (DesiredValidators s)) (length (PendingValidators s)) < MaxValidators cfg
      \<longleftrightarrow> length (DesiredValidators s @ PendingValidators s) < MaxValidators cfg"
    using max by (auto simp: sat_add_32)
  then show ?thesis
    unfolding lock_eq assms(2) terms in_cooldown_def members_def by (auto simp: push_ignore_simps not_less)
qed

theorem lock_outcome_witness:
  "lock sample_cfg sample_cur (sample_env 0) (System_origin (Signed 9) :: (nat, unit) runtime_origin) sample_joined = Inl TooManyValidators"
proof -
  have "block_number (sample_env 0) = 0"
    by (simp add: sample_env_def)
  from lock_outcome [OF sample_joined_reachable this refl refl refl, of 9] show ?thesis
    by (simp add: sample_joined_def sample_vgenesis_eq(1) empty_vstate_def sample_cfg_def)
qed

end
