(* ===== verification/PoScan.thy ===== *)
theory PoScan
  imports Bytes
begin

text \<open>
  The PoScan proof of work (\<open>consensus/poscan/src/lib.rs\<close>) and the algorithm adapter of the
  node (\<open>consensus/poscan-pow/src/lib.rs\<close>). SHA-256, the mesh generator, the spectral scan and
  the floating point quantisation of one feature are the fields of \<open>scan_ops\<close>; the byte strings
  that go into the hashes, the seal layout, the difficulty rule and the verification are
  written out.

  The lemmas show the seal round trip, what an accepted seal proves, and that the overflow
  test of \<open>hash_meets_difficulty\<close> is the comparison with \<open>U256::MAX / work\<close>.
\<close>

section \<open>The code\<close>

record ('m, 'f) scan_ops =
  sha256 :: "bytes \<Rightarrow> bytes"
  asteroid :: "bytes \<Rightarrow> nat \<Rightarrow> 'm"
  scan :: "'m \<Rightarrow> nat \<Rightarrow> 'f list option"
  round_bucket :: "nat \<Rightarrow> 'f \<Rightarrow> int"

definition SUBDIVISIONS :: nat where
  "SUBDIVISIONS = 4"

definition TARGET_SAMPLES :: nat where
  "TARGET_SAMPLES = 4096"

text \<open>The ASCII bytes of \<open>poscan-v1\<close>.\<close>

definition POSCAN_PROTOCOL :: bytes where
  "POSCAN_PROTOCOL = [112, 111, 115, 99, 97, 110, 45, 118, 49]"

record Seal =
  seal_nonce :: nat
  seal_work :: bytes

record Compute =
  pre_hash :: bytes
  nonce :: nat

definition derive_seed :: "('m, 'f) scan_ops \<Rightarrow> bytes \<Rightarrow> nat \<Rightarrow> bytes" where
  "derive_seed ops ph n = sha256 ops (POSCAN_PROTOCOL @ [0] @ ph @ le_bytes 32 n)"

definition quantize :: "('m, 'f) scan_ops \<Rightarrow> 'f list \<Rightarrow> int list" where
  "quantize ops features = map (\<lambda>i. round_bucket ops i (features ! i)) [0..<length features]"

definition i64_le_bytes :: "int \<Rightarrow> bytes" where
  "i64_le_bytes x = le_bytes 8 (nat (x mod 2 ^ 64))"

definition hash_buckets :: "('m, 'f) scan_ops \<Rightarrow> int list \<Rightarrow> bytes \<Rightarrow> bytes" where
  "hash_buckets ops buckets ph = sha256 ops (POSCAN_PROTOCOL @ [0] @ ph @ concat (map i64_le_bytes buckets))"

definition mesh :: "('m, 'f) scan_ops \<Rightarrow> Compute \<Rightarrow> 'm" where
  "mesh ops c = asteroid ops (derive_seed ops (pre_hash c) (nonce c)) SUBDIVISIONS"

definition work :: "('m, 'f) scan_ops \<Rightarrow> Compute \<Rightarrow> bytes option" where
  "work ops c =
     (case scan ops (mesh ops c) TARGET_SAMPLES of
        None \<Rightarrow> None
      | Some features \<Rightarrow> Some (hash_buckets ops (quantize ops features) (pre_hash c)))"

definition seal :: "('m, 'f) scan_ops \<Rightarrow> Compute \<Rightarrow> Seal option" where
  "seal ops c =
     (case work ops c of None \<Rightarrow> None | Some w \<Rightarrow> Some \<lparr> seal_nonce = nonce c, seal_work = w \<rparr>)"

definition hash_meets_difficulty :: "bytes \<Rightarrow> nat \<Rightarrow> bool" where
  "hash_meets_difficulty h difficulty = (\<not> snd (overflowing_mul 256 (be_val h) difficulty))"

text \<open>
  The SCALE form of a seal: the nonce as 32 little-endian bytes, then the 32 bytes of the
  work. \<open>decode_all\<close> fails when bytes are missing or left over.
\<close>

definition encode_seal :: "Seal \<Rightarrow> bytes" where
  "encode_seal s = le_bytes 32 (seal_nonce s) @ seal_work s"

definition decode_seal :: "bytes \<Rightarrow> Seal option" where
  "decode_seal raw =
     (if length raw = 64 then Some \<lparr> seal_nonce = le_val (take 32 raw), seal_work = drop 32 raw \<rparr> else None)"

definition verify_seal :: "('m, 'f) scan_ops \<Rightarrow> bytes \<Rightarrow> bytes \<Rightarrow> nat \<Rightarrow> bool option" where
  "verify_seal ops ph raw_seal difficulty =
     (case decode_seal raw_seal of
        None \<Rightarrow> None
      | Some s \<Rightarrow>
          if \<not> hash_meets_difficulty (seal_work s) difficulty then Some False
          else Some (work ops \<lparr> pre_hash = ph, nonce = seal_nonce s \<rparr> = Some (seal_work s)))"

text \<open>\<open>PowVerifyApi::verify_seal\<close> of \<open>runtime/src/apis.rs\<close>: a seal that does not decode is invalid.\<close>

definition runtime_verify_seal :: "('m, 'f) scan_ops \<Rightarrow> bytes \<Rightarrow> bytes \<Rightarrow> nat \<Rightarrow> bool" where
  "runtime_verify_seal ops ph raw_seal difficulty =
     (case verify_seal ops ph raw_seal difficulty of None \<Rightarrow> False | Some b \<Rightarrow> b)"

section \<open>Library\<close>

definition seal_wf :: "Seal \<Rightarrow> bool" where
  "seal_wf s \<longleftrightarrow> seal_nonce s \<le> U256_MAX \<and> length (seal_work s) = 32"

lemma decode_encode_seal: "seal_wf s \<Longrightarrow> decode_seal (encode_seal s) = Some s"
  using power_256_32 by (simp add: seal_wf_def decode_seal_def encode_seal_def le_val_le_bytes)

lemma decode_seal_wf: "decode_seal raw = Some s \<Longrightarrow> seal_wf s \<and> encode_seal s = raw"
proof -
  assume d: "decode_seal raw = Some s"
  then have len: "length (take 32 raw) = 32" "length (drop 32 raw) = 32"
    by (auto simp: decode_seal_def split: if_splits)
  have "le_val (take 32 raw) < Suc U256_MAX" "le_bytes 32 (le_val (take 32 raw)) = take 32 raw"
    using le_val_less [of "take 32 raw"] le_bytes_le_val [of "take 32 raw"] unfolding len(1) power_256_32 by simp_all
  then show ?thesis
    using d len(2) by (auto simp: seal_wf_def decode_seal_def encode_seal_def split: if_splits)
qed

lemma hash_meets_iff: "hash_meets_difficulty h d \<longleftrightarrow> be_val h * d \<le> U256_MAX"
  by (simp only: hash_meets_difficulty_def overflowing_mul_def snd_conv not_le power_le_MAX_iff)

lemma verify_seal_iff:
  "verify_seal ops ph raw d = Some True \<longleftrightarrow>
     (\<exists>s. decode_seal raw = Some s \<and> be_val (seal_work s) * d \<le> U256_MAX
        \<and> work ops \<lparr> pre_hash = ph, nonce = seal_nonce s \<rparr> = Some (seal_work s))"
  by (auto simp: verify_seal_def hash_meets_iff split: option.splits)

lemma be_val_bij: "bij_betw be_val {h. length h = 32} {..U256_MAX}"
proof (rule bij_betw_imageI)
  show "inj_on be_val {h. length h = 32}"
    by (auto simp: inj_on_def be_val_inject)
  have "be_val h \<le> U256_MAX" if "length h = 32" for h
    using be_val_less [of h] that unfolding that power_256_32 by simp
  moreover have "n \<in> be_val ` {h. length h = 32}" if "n \<le> U256_MAX" for n
    by (rule image_eqI [of _ _ "be_bytes 32 n"]) (use that power_256_32 in \<open>simp_all add: be_val_be_bytes\<close>)
  ultimately show "be_val ` {h. length h = 32} = {..U256_MAX}"
    by auto
qed

section \<open>The algorithm adapter\<close>

text \<open>
  \<open>PoScanAlgorithm\<close> delegates to the runtime at the parent block. A runtime API call can fail
  (\<open>Inl\<close>); a block id that is a number is refused.
\<close>

datatype 'h block_id = Block_hash 'h | Block_number nat

datatype 'e pow_error =
    Pow_Environment 'e | Pow_Runtime 'e | Pow_NoTimestamp | Pow_NumberNotSupported

definition poscan_difficulty ::
  "('h \<Rightarrow> bytes \<Rightarrow> 'e + nat option) \<Rightarrow> 'h \<Rightarrow> bytes \<Rightarrow> 'e pow_error + nat" where
  "poscan_difficulty difficulty_api parent timestamp_inherent =
     (case difficulty_api parent timestamp_inherent of
        Inl err \<Rightarrow> Inl (Pow_Environment err)
      | Inr None \<Rightarrow> Inl Pow_NoTimestamp
      | Inr (Some d) \<Rightarrow> Inr d)"

definition poscan_verify ::
  "('h \<Rightarrow> 'p \<Rightarrow> bytes \<Rightarrow> nat \<Rightarrow> 'e + bool) \<Rightarrow> 'h block_id \<Rightarrow> 'p \<Rightarrow> bytes option \<Rightarrow> bytes \<Rightarrow> nat \<Rightarrow>
   'e pow_error + bool" where
  "poscan_verify verify_api parent ph pre_digest raw_seal difficulty =
     (case parent of
        Block_number n \<Rightarrow> Inl Pow_NumberNotSupported
      | Block_hash h \<Rightarrow>
          (case verify_api h ph raw_seal difficulty of
             Inl err \<Rightarrow> Inl (Pow_Runtime err)
           | Inr b \<Rightarrow> Inr b))"

section \<open>Properties\<close>

text \<open>
  C28: A raw seal is accepted for a pre-hash and a difficulty exactly when it is the encoding of
  the seal that the scan yields for some 256-bit nonce and whose work, read as a big-endian
  number, times the difficulty fits in 256 bits. In particular every honestly mined seal is
  accepted and nothing else is: no other nonce, work or encoding passes.
\<close>

theorem verify_seal_exact:
  assumes "\<forall>x. length (sha256 ops x) = 32"
  shows "verify_seal ops ph raw d = Some True \<longleftrightarrow>
    (\<exists>n s. n \<le> U256_MAX \<and> seal ops \<lparr> pre_hash = ph, nonce = n \<rparr> = Some s \<and> raw = encode_seal s
      \<and> be_val (seal_work s) * d \<le> U256_MAX)"
proof
  assume "verify_seal ops ph raw d = Some True"
  then obtain s where s: "decode_seal raw = Some s" "be_val (seal_work s) * d \<le> U256_MAX"
    "work ops \<lparr> pre_hash = ph, nonce = seal_nonce s \<rparr> = Some (seal_work s)"
    by (auto simp: verify_seal_iff)
  then show "\<exists>n s. n \<le> U256_MAX \<and> seal ops \<lparr> pre_hash = ph, nonce = n \<rparr> = Some s \<and> raw = encode_seal s
      \<and> be_val (seal_work s) * d \<le> U256_MAX"
    using decode_seal_wf [OF s(1)]
    by (intro exI [of _ "seal_nonce s"] exI [of _ s]) (simp add: seal_def seal_wf_def)
next
  assume "\<exists>n s. n \<le> U256_MAX \<and> seal ops \<lparr> pre_hash = ph, nonce = n \<rparr> = Some s \<and> raw = encode_seal s
      \<and> be_val (seal_work s) * d \<le> U256_MAX"
  then obtain n w where nw: "n \<le> U256_MAX" "work ops \<lparr> pre_hash = ph, nonce = n \<rparr> = Some w"
    "raw = encode_seal \<lparr> seal_nonce = n, seal_work = w \<rparr>" "be_val w * d \<le> U256_MAX"
    by (auto simp: seal_def split: option.splits)
  have "length w = 32"
    using nw(2) assms by (auto simp: work_def hash_buckets_def split: option.splits)
  then have "decode_seal raw = Some \<lparr> seal_nonce = n, seal_work = w \<rparr>"
    using nw(1,3) by (simp add: decode_encode_seal seal_wf_def)
  then show "verify_seal ops ph raw d = Some True"
    using nw by (simp add: verify_seal_iff)
qed

definition sample_ops :: "(bytes, nat) scan_ops" where
  "sample_ops = \<lparr> sha256 = (\<lambda>x. le_bytes 32 (length x)), asteroid = (\<lambda>s n. s),
     scan = (\<lambda>m n. Some [length m]), round_bucket = (\<lambda>i f. int f) \<rparr>"

theorem verify_seal_exact_witness:
  "\<exists>s. seal sample_ops \<lparr> pre_hash = [], nonce = 7 \<rparr> = Some s \<and> verify_seal sample_ops [] (encode_seal s) 1 = Some True"
proof -
  have sha: "\<forall>x. length (sha256 sample_ops x) = 32"
    by (simp add: sample_ops_def)
  obtain s where s: "seal sample_ops \<lparr> pre_hash = [], nonce = 7 \<rparr> = Some s"
    by (simp add: seal_def work_def sample_ops_def)
  then have "length (seal_work s) = 32"
    using sha by (auto simp: seal_def work_def hash_buckets_def split: option.splits)
  then have "be_val (seal_work s) * 1 \<le> U256_MAX"
    using bij_betw_apply [OF be_val_bij] by simp
  moreover have "7 \<le> U256_MAX"
    by (simp add: U256_MAX_def)
  ultimately show ?thesis
    using s verify_seal_exact [OF sha, of "[]" "encode_seal s" 1] by blast
qed

text \<open>
  The overflow test is the difficulty target: a hash meets a difficulty exactly when it
  does not exceed \<open>U256::MAX / difficulty\<close>, and of all 32-byte hashes exactly
  \<open>U256::MAX / difficulty + 1\<close> do, so difficulty is inversely proportional to the chance of a hit.
\<close>

theorem hash_meets_difficulty_count:
  assumes "0 < d"
  shows "(hash_meets_difficulty h d \<longleftrightarrow> be_val h \<le> U256_MAX div d)
    \<and> card {h. length h = 32 \<and> hash_meets_difficulty h d} = Suc (U256_MAX div d)"
proof -
  have meets: "hash_meets_difficulty h d \<longleftrightarrow> be_val h \<le> U256_MAX div d" for h
    using assms by (simp add: hash_meets_iff less_eq_div_iff_mult_less_eq)
  let ?A = "{h. length h = 32 \<and> hash_meets_difficulty h d}"
  have bij: "bij_betw be_val {h. length h = 32} {..U256_MAX}"
    by (rule be_val_bij)
  have "be_val ` ?A = {..U256_MAX div d}"
  proof (intro equalityI subsetI)
    fix n
    assume "n \<in> {..U256_MAX div d}"
    then have n: "n \<le> U256_MAX div d" by simp
    then have "n \<le> U256_MAX" using div_le_dividend [of U256_MAX d] by linarith
    then have "n \<in> be_val ` {h. length h = 32}"
      using bij_betw_imp_surj_on [OF bij] by simp
    then obtain h where "length h = 32" "be_val h = n"
      by blast
    then show "n \<in> be_val ` ?A" using n by (auto simp: meets)
  qed (auto simp: meets)
  moreover have "inj_on be_val ?A"
    using bij by (auto simp: bij_betw_def inj_on_def)
  ultimately have "card ?A = card {..U256_MAX div d}"
    using card_image [of be_val ?A] by (simp only:)
  then have "card ?A = Suc (U256_MAX div d)"
    by (simp only: card_atMost)
  then show ?thesis
    using meets [of h] by blast
qed

theorem hash_meets_difficulty_count_witness:
  "card {h. length h = 32 \<and> hash_meets_difficulty h U256_MAX} = 2"
proof -
  have "card {h. length h = 32 \<and> hash_meets_difficulty h U256_MAX} = Suc (U256_MAX div U256_MAX)"
    by (rule conjunct2 [OF hash_meets_difficulty_count [OF MAX_pos(4)]])
  also have "\<dots> = 2" by simp
  finally show ?thesis .
qed

end
