(* ===== verification/PowConsensus.thy ===== *)
theory PowConsensus
  imports Digest PoScan
begin

text \<open>
  The node's proof-of-work consensus (\<open>consensus/sc-consensus-pow/src/lib.rs\<close>): auxiliary data,
  the finality check, the header verifier, seal and digest lookup and block import with its
  fork choice. Hashes are byte strings. The client, the chain selection, the inherent checks,
  the encoding of an extrinsic and the hash of a header belong to the Substrate client and are
  the fields of \<open>pow_env\<close>; the algorithm is the record \<open>pow_alg\<close>.

  The locale \<open>pow_algorithm\<close> is what block import relies on: a seal that the algorithm accepts
  is a proof of the stated work. \<open>PoScan\<close> is its instance.
\<close>

section \<open>Data\<close>

type_synonym hash = bytes

record 'r header =
  parent_hash :: hash
  number :: nat
  logs :: "digest_item list"
  rest :: 'r

datatype 'e cons_error =
    WrongEngine engine_id
  | HeaderUnsealed hash
  | InvalidSeal
  | FailedPreliminaryVerify
  | MultiplePreRuntimeDigests
  | MissingTimestampInherent
  | HeaderNotFound hash
  | Aux_Codec
  | Client_error 'e
  | ChainLookup 'e
  | CreateInherents 'e
  | CheckInherents 'e
  | CheckInherentsUnknownError bytes
  | Algorithm_error "'e pow_error"
  | Import_error 'e

record PowAux =
  aux_difficulty :: nat
  total_difficulty :: nat

text \<open>The ways the inherent check of the block builder library fails.\<close>

datatype 'e inherents_failure =
    Create_inherent_data 'e | Inherents_client 'e | Inherents_rejected 'e | Inherents_unknown bytes

datatype fork_choice = Custom bool | LongestChain

record ('r, 'x) import_params =
  bheader :: "'r header"
  body :: "'x list option"
  post_digests :: "digest_item list"
  post_hash :: "hash option"
  auxiliary :: "(bytes \<times> bytes option) list"
  fork_choice :: "fork_choice option"
  skip_execution_checks :: bool

record 'e pow_alg =
  alg_difficulty :: "hash \<Rightarrow> bytes \<Rightarrow> 'e pow_error + nat"
  alg_preliminary_verify :: "hash \<Rightarrow> bytes \<Rightarrow> 'e pow_error + bool option"
  alg_break_tie :: "bytes \<Rightarrow> bytes \<Rightarrow> bool"
  alg_verify :: "hash block_id \<Rightarrow> hash \<Rightarrow> bytes option \<Rightarrow> bytes \<Rightarrow> nat \<Rightarrow> 'e pow_error + bool"

record ('r, 'x, 'e, 'p) pow_env =
  pow_engine :: engine_id
  hash_of :: "'r header \<Rightarrow> hash"
  post_header_hash :: "'r header \<Rightarrow> digest_item list \<Rightarrow> hash option \<Rightarrow> hash"
  best_chain :: "'e + 'r header"
  get_aux :: "bytes \<Rightarrow> 'e + bytes option"
  inherent_providers :: "hash \<Rightarrow> 'e + 'p"
  block_check_inherents :: "hash \<Rightarrow> 'r header \<times> 'x list \<Rightarrow> 'p \<Rightarrow> 'e inherents_failure + unit"
  check_inherents_after :: nat
  finalized_hash :: hash
  finalized_number :: nat
  header_of :: "hash \<Rightarrow> 'e + 'r header option"
  encode_xt :: "'x \<Rightarrow> bytes"
  increment :: "nat \<Rightarrow> nat \<Rightarrow> nat"

text \<open>The method \<open>post_hash\<close> of the import parameters: the hash of the header with its post digests.\<close>

definition full_hash :: "('r, 'x, 'e, 'p) pow_env \<Rightarrow> ('r, 'x) import_params \<Rightarrow> hash" where
  "full_hash env b = post_header_hash env (bheader b) (post_digests b) (post_hash b)"

section \<open>Auxiliary data\<close>

text \<open>The ASCII bytes of \<open>PoW:\<close>.\<close>

definition POW_AUX_PREFIX :: bytes where
  "POW_AUX_PREFIX = [80, 111, 87, 58]"

definition aux_key :: "hash \<Rightarrow> bytes" where
  "aux_key h = POW_AUX_PREFIX @ h"

definition encode_aux :: "PowAux \<Rightarrow> bytes" where
  "encode_aux a = le_bytes 32 (aux_difficulty a) @ le_bytes 32 (total_difficulty a)"

definition decode_aux :: "bytes \<Rightarrow> PowAux option" where
  "decode_aux bs =
     (if length bs < 64 then None
      else Some \<lparr> aux_difficulty = le_val (take 32 bs), total_difficulty = le_val (take 32 (drop 32 bs)) \<rparr>)"

definition read_aux :: "('r, 'x, 'e, 'p) pow_env \<Rightarrow> hash \<Rightarrow> 'e cons_error + PowAux" where
  "read_aux env h =
     (case get_aux env (aux_key h) of
        Inl e \<Rightarrow> Inl (Client_error e)
      | Inr None \<Rightarrow> Inr \<lparr> aux_difficulty = 0, total_difficulty = 0 \<rparr>
      | Inr (Some bs) \<Rightarrow> (case decode_aux bs of None \<Rightarrow> Inl Aux_Codec | Some a \<Rightarrow> Inr a))"

section \<open>Finality\<close>

text \<open>Both walks of \<open>finality_conflicts\<close>: back along parent hashes from one height to another.\<close>

function walk_back ::
  "(hash \<Rightarrow> 'e + 'r header option) \<Rightarrow> nat \<Rightarrow> hash \<Rightarrow> nat \<Rightarrow> 'e cons_error + hash" where
  "walk_back header_of' target cur_hash cur_number =
     (if target < cur_number then
        (case header_of' cur_hash of
           Inl e \<Rightarrow> Inl (Client_error e)
         | Inr None \<Rightarrow> Inl (HeaderNotFound cur_hash)
         | Inr (Some header) \<Rightarrow> walk_back header_of' target (parent_hash header) (cur_number - 1))
      else Inr cur_hash)"
  by pat_completeness auto
termination
  by (relation "measure (\<lambda>(_, _, _, n). n)") auto

declare walk_back.simps [simp del]

definition finality_conflicts ::
  "hash \<Rightarrow> nat \<Rightarrow> hash \<Rightarrow> hash \<Rightarrow> nat \<Rightarrow> (hash \<Rightarrow> 'e + 'r header option) \<Rightarrow> 'e cons_error + bool" where
  "finality_conflicts new_hash new_number parent fin_hash fin_number header_of' =
     (if new_number \<le> fin_number then
        bind_res (walk_back header_of' new_number fin_hash fin_number) (\<lambda>cur. Inr (cur \<noteq> new_hash))
      else
        bind_res (walk_back header_of' fin_number parent (new_number - 1)) (\<lambda>cur. Inr (cur \<noteq> fin_hash)))"

section \<open>Digests and headers\<close>

definition fetch_seal :: "engine_id \<Rightarrow> digest_item option \<Rightarrow> hash \<Rightarrow> 'e cons_error + bytes" where
  "fetch_seal pow_id digest h =
     (case digest of
        Some (Seal_item i s) \<Rightarrow> if i = pow_id then Inr s else Inl (WrongEngine i)
      | _ \<Rightarrow> Inl (HeaderUnsealed h))"

fun find_pre_digest_loop :: "engine_id \<Rightarrow> digest_item list \<Rightarrow> bytes option \<Rightarrow> 'e cons_error + bytes option" where
  "find_pre_digest_loop pow_id [] pre = Inr pre"
| "find_pre_digest_loop pow_id (PreRuntime i v # ls) pre =
     (if i = pow_id then
        (if pre \<noteq> None then Inl MultiplePreRuntimeDigests else find_pre_digest_loop pow_id ls (Some v))
      else find_pre_digest_loop pow_id ls pre)"
| "find_pre_digest_loop pow_id (_ # ls) pre = find_pre_digest_loop pow_id ls pre"

definition find_pre_digest :: "engine_id \<Rightarrow> 'r header \<Rightarrow> 'e cons_error + bytes option" where
  "find_pre_digest pow_id h = find_pre_digest_loop pow_id (logs h) None"

definition last_log :: "digest_item list \<Rightarrow> digest_item option" where
  "last_log ls = (if ls = [] then None else Some (last ls))"

definition check_header ::
  "('r, 'x, 'e, 'p) pow_env \<Rightarrow> 'e pow_alg \<Rightarrow> 'r header \<Rightarrow> 'e cons_error + 'r header \<times> digest_item" where
  "check_header env alg h =
     (let hsh = hash_of env h; popped = last_log (logs h); h = h \<lparr> logs := butlast (logs h) \<rparr> in
      bind_res
        (case popped of
           Some (Seal_item i s) \<Rightarrow> if i = pow_engine env then Inr (Seal_item i s, s) else Inl (WrongEngine i)
         | _ \<Rightarrow> Inl (HeaderUnsealed hsh))
        (\<lambda>(item, inner_seal).
           (case alg_preliminary_verify alg (hash_of env h) inner_seal of
              Inl e \<Rightarrow> Inl (Algorithm_error e)
            | Inr r \<Rightarrow>
                if \<not> (case r of None \<Rightarrow> True | Some b \<Rightarrow> b) then Inl FailedPreliminaryVerify
                else Inr (h, item))))"

definition verifier_verify ::
  "('r, 'x, 'e, 'p) pow_env \<Rightarrow> 'e pow_alg \<Rightarrow> ('r, 'x) import_params \<Rightarrow> 'e cons_error + ('r, 'x) import_params" where
  "verifier_verify env alg b =
     (let hsh = hash_of env (bheader b) in
      bind_res (check_header env alg (bheader b))
        (\<lambda>(checked, item). Inr (b \<lparr> bheader := checked, post_digests := post_digests b @ [item], post_hash := Some hsh \<rparr>)))"

section \<open>Import\<close>

definition check_inherents ::
  "('r, 'x, 'e, 'p) pow_env \<Rightarrow> 'r header \<times> 'x list \<Rightarrow> hash \<Rightarrow> 'p \<Rightarrow> 'e cons_error + unit" where
  "check_inherents env blk at_hash providers =
     (if number (fst blk) < check_inherents_after env then Inr ()
      else case block_check_inherents env at_hash blk providers of
             Inl (Create_inherent_data e) \<Rightarrow> Inl (CreateInherents e)
           | Inl (Inherents_client e) \<Rightarrow> Inl (Client_error e)
           | Inl (Inherents_rejected e) \<Rightarrow> Inl (CheckInherents e)
           | Inl (Inherents_unknown i) \<Rightarrow> Inl (CheckInherentsUnknownError i)
           | Inr u \<Rightarrow> Inr ())"

definition choose_fork ::
  "('r, 'x, 'e, 'p) pow_env \<Rightarrow> 'e pow_alg \<Rightarrow> 'r header \<Rightarrow> PowAux \<Rightarrow> PowAux \<Rightarrow> bytes \<Rightarrow>
   ('r, 'x) import_params \<Rightarrow> 'e cons_error + ('r, 'x) import_params" where
  "choose_fork env alg best_header best_aux aux inner_seal b =
     (if fork_choice b \<noteq> None then Inr b
      else
        bind_res (finality_conflicts (full_hash env b) (number (bheader b)) (parent_hash (bheader b))
                    (finalized_hash env) (finalized_number env) (header_of env))
          (\<lambda>conflicts.
             if conflicts then Inr (b \<lparr> fork_choice := Some (Custom False) \<rparr>)
             else if total_difficulty aux < total_difficulty best_aux
             then Inr (b \<lparr> fork_choice := Some (Custom False) \<rparr>)
             else if total_difficulty best_aux < total_difficulty aux
             then Inr (b \<lparr> fork_choice := Some (Custom True) \<rparr>)
             else
               bind_res (fetch_seal (pow_engine env) (last_log (logs best_header)) (hash_of env best_header))
                 (\<lambda>best_seal. Inr (b \<lparr> fork_choice := Some (Custom (alg_break_tie alg best_seal inner_seal)) \<rparr>))))"

text \<open>Everything \<open>import_block\<close> does before it hands the block to the inner import.\<close>

definition prepare_import ::
  "('r, 'x, 'e, 'p) pow_env \<Rightarrow> 'e pow_alg \<Rightarrow> ('r, 'x) import_params \<Rightarrow> 'e cons_error + ('r, 'x) import_params" where
  "prepare_import env alg b =
     (case best_chain env of
        Inl e \<Rightarrow> Inl (ChainLookup e)
      | Inr best_header \<Rightarrow>
          (let parent = parent_hash (bheader b) in
           bind_res (read_aux env (hash_of env best_header)) (\<lambda>best_aux.
           bind_res (read_aux env parent) (\<lambda>aux.
           bind_res
             (case body b of
                Some inner_body \<Rightarrow>
                  if skip_execution_checks b then Inr ()
                  else (case inherent_providers env parent of
                          Inl e \<Rightarrow> Inl (CreateInherents e)
                        | Inr p \<Rightarrow> check_inherents env (bheader b, inner_body) parent p)
              | None \<Rightarrow> Inr ()) (\<lambda>_.
           bind_res (fetch_seal (pow_engine env) (last_log (post_digests b)) (hash_of env (bheader b))) (\<lambda>inner_seal.
           bind_res
             (case body b of
                Some (x # _) \<Rightarrow> Inr (encode_xt env x)
              | _ \<Rightarrow> Inl MissingTimestampInherent) (\<lambda>timestamp_inherent.
           bind_res
             (case alg_difficulty alg parent timestamp_inherent of
                Inl e \<Rightarrow> Inl (Algorithm_error e) | Inr d \<Rightarrow> Inr d) (\<lambda>difficulty.
           bind_res (find_pre_digest (pow_engine env) (bheader b)) (\<lambda>pre_digest.
           bind_res
             (case alg_verify alg (Block_hash parent) (hash_of env (bheader b)) pre_digest inner_seal difficulty of
                Inl e \<Rightarrow> Inl (Algorithm_error e) | Inr ok \<Rightarrow> ensure ok InvalidSeal) (\<lambda>_.
             let aux = \<lparr> aux_difficulty = difficulty,
                         total_difficulty = increment env (total_difficulty aux) difficulty \<rparr>;
                 b = b \<lparr> auxiliary := auxiliary b @ [(aux_key (full_hash env b), Some (encode_aux aux))] \<rparr>
             in choose_fork env alg best_header best_aux aux inner_seal b))))))))))"

definition import_block ::
  "('r, 'x, 'e, 'p) pow_env \<Rightarrow> 'e pow_alg \<Rightarrow> (('r, 'x) import_params \<Rightarrow> 'e + 'res) \<Rightarrow>
   ('r, 'x) import_params \<Rightarrow> 'e cons_error + 'res" where
  "import_block env alg inner b =
     bind_res (prepare_import env alg b)
       (\<lambda>b. case inner b of Inl e \<Rightarrow> Inl (Import_error e) | Inr r \<Rightarrow> Inr r)"

section \<open>Ancestors\<close>

text \<open>
  The parent relation of a header store with block numbers \<open>num\<close>, and what the walks rely on:
  the number of a known block is one more than its parent's, and no header is missing between
  a block and genesis.
\<close>

definition child_of :: "(hash \<Rightarrow> 'e + 'r header option) \<Rightarrow> (hash \<Rightarrow> nat) \<Rightarrow> hash \<Rightarrow> hash \<Rightarrow> bool" where
  "child_of H num a p \<longleftrightarrow> 0 < num a \<and> (\<exists>hd. H a = Inr (Some hd) \<and> parent_hash hd = p)"

definition numbered :: "(hash \<Rightarrow> 'e + 'r header option) \<Rightarrow> (hash \<Rightarrow> nat) \<Rightarrow> bool" where
  "numbered H num \<longleftrightarrow> (\<forall>a p. child_of H num a p \<longrightarrow> num a = Suc (num p))"

definition complete_from :: "(hash \<Rightarrow> 'e + 'r header option) \<Rightarrow> (hash \<Rightarrow> nat) \<Rightarrow> hash \<Rightarrow> bool" where
  "complete_from H num h \<longleftrightarrow>
     (\<forall>a. (child_of H num)\<^sup>*\<^sup>* h a \<longrightarrow> 0 < num a \<longrightarrow> (\<exists>p. child_of H num a p))"

lemma child_of_unique: "child_of H num a p \<Longrightarrow> child_of H num a q \<Longrightarrow> p = q"
  by (auto simp: child_of_def)

lemma ancestor_num_le:
  assumes "numbered H num" "(child_of H num)\<^sup>*\<^sup>* a b"
  shows "num b \<le> num a"
  using assms(2)
proof (induction rule: rtranclp_induct)
  case (step y z)
  then have "num y = Suc (num z)"
    using assms(1) by (simp add: numbered_def)
  then show ?case using step.IH by simp
qed simp

lemma ancestor_num_less:
  assumes "numbered H num" "(child_of H num)\<^sup>*\<^sup>* a b" "a \<noteq> b"
  shows "num b < num a"
proof -
  obtain y where y: "child_of H num a y" "(child_of H num)\<^sup>*\<^sup>* y b"
    using assms(2,3) by (auto elim: converse_rtranclpE)
  have "num a = Suc (num y)"
    using assms(1) y(1) by (simp add: numbered_def)
  then show ?thesis
    using ancestor_num_le [OF assms(1) y(2)] by simp
qed

lemma ancestor_unique:
  assumes "numbered H num" "(child_of H num)\<^sup>*\<^sup>* a b" "(child_of H num)\<^sup>*\<^sup>* a c" "num b = num c"
  shows "b = c"
  using assms(2-4)
proof (induction arbitrary: c rule: converse_rtranclp_induct)
  case base
  then show ?case
    using ancestor_num_less [OF assms(1), of b c] by (cases "b = c") auto
next
  case (step a a')
  have "num b \<le> num a'"
    by (rule ancestor_num_le [OF assms(1) step.hyps(2)])
  moreover have "num a = Suc (num a')"
    using assms(1) step.hyps(1) by (simp add: numbered_def)
  ultimately have "a \<noteq> c"
    using step.prems(2) by auto
  then obtain y where "child_of H num a y" "(child_of H num)\<^sup>*\<^sup>* y c"
    using step.prems(1) by (auto elim: converse_rtranclpE)
  then show ?case
    using step.IH step.prems(2) child_of_unique [OF step.hyps(1)] by simp
qed

lemma walk_back_ancestor:
  assumes "numbered H num" "complete_from H num h" "num h = n" "target \<le> n"
  shows "\<exists>g. walk_back H target h n = Inr g \<and> (child_of H num)\<^sup>*\<^sup>* h g \<and> num g = target"
  using assms
proof (induction n arbitrary: h)
  case (Suc n)
  show ?case
  proof (cases "target = Suc n")
    case False
    obtain p where p: "child_of H num h p"
      using Suc.prems(2,3) by (auto simp: complete_from_def)
    then have "num p = n" "complete_from H num p"
      using Suc.prems by (auto simp: numbered_def complete_from_def intro: converse_rtranclp_into_rtranclp)
    then obtain g where "walk_back H target p n = Inr g" "(child_of H num)\<^sup>*\<^sup>* p g" "num g = target"
      using Suc.IH [of p] Suc.prems(1,4) False by auto
    moreover from this(2) have "(child_of H num)\<^sup>*\<^sup>* h g"
      using p by (rule converse_rtranclp_into_rtranclp [rotated])
    ultimately show ?thesis
      using p Suc.prems(4) False by (subst walk_back.simps) (auto simp: child_of_def)
  qed (use Suc.prems in \<open>auto simp: walk_back.simps\<close>)
qed (auto simp: walk_back.simps)

section \<open>What a successful import has checked\<close>

lemma prepare_import_InrD:
  fixes env :: "('r, 'x, 'e, 'p) pow_env"
  assumes "prepare_import env alg b = Inr b'"
  obtains best_header best_aux aux0 sl x xs d pd where
    "best_chain env = Inr best_header" "read_aux env (hash_of env best_header) = Inr best_aux"
    "read_aux env (parent_hash (bheader b)) = Inr aux0"
    "body b = Some (x # xs)"
    "skip_execution_checks b \<or> number (bheader b) < check_inherents_after env \<or>
      (\<exists>p. inherent_providers env (parent_hash (bheader b)) = Inr p \<and>
           block_check_inherents env (parent_hash (bheader b)) (bheader b, x # xs) p = Inr ())"
    "fetch_seal (pow_engine env) (last_log (post_digests b)) (hash_of env (bheader b)) = (Inr sl :: 'e cons_error + bytes)"
    "alg_difficulty alg (parent_hash (bheader b)) (encode_xt env x) = Inr d"
    "find_pre_digest (pow_engine env) (bheader b) = (Inr pd :: 'e cons_error + bytes option)"
    "alg_verify alg (Block_hash (parent_hash (bheader b))) (hash_of env (bheader b)) pd sl d = Inr True"
    "choose_fork env alg best_header best_aux
       \<lparr> aux_difficulty = d, total_difficulty = increment env (total_difficulty aux0) d \<rparr> sl
       (b \<lparr> auxiliary := auxiliary b @ [(aux_key (full_hash env b),
          Some (encode_aux \<lparr> aux_difficulty = d, total_difficulty = increment env (total_difficulty aux0) d \<rparr>))] \<rparr>) = Inr b'"
proof -
  obtain best_header where best: "best_chain env = Inr best_header"
    using assms by (cases "best_chain env") (simp_all add: prepare_import_def)
  note run = assms [unfolded prepare_import_def best sum.case Let_def]
  have inherents: "skip_execution_checks b \<or> number (bheader b) < check_inherents_after env \<or>
      (\<exists>p. inherent_providers env (parent_hash (bheader b)) = Inr p \<and>
           block_check_inherents env (parent_hash (bheader b)) (bheader b, ys) p = Inr ())"
    if "(case body b of
          Some inner_body \<Rightarrow>
            if skip_execution_checks b then Inr ()
            else (case inherent_providers env (parent_hash (bheader b)) of
                    Inl e \<Rightarrow> Inl (CreateInherents e)
                  | Inr p \<Rightarrow> check_inherents env (bheader b, inner_body) (parent_hash (bheader b)) p)
        | None \<Rightarrow> Inr ()) = Inr ()" "body b = Some ys" for ys
    using that by (auto simp: check_inherents_def split: sum.splits if_splits inherents_failure.splits)
  from run obtain best_aux aux0 sl ti d pd where
    "read_aux env (hash_of env best_header) = Inr best_aux" "read_aux env (parent_hash (bheader b)) = Inr aux0"
    and inh: "(case body b of
          Some inner_body \<Rightarrow>
            if skip_execution_checks b then Inr ()
            else (case inherent_providers env (parent_hash (bheader b)) of
                    Inl e \<Rightarrow> Inl (CreateInherents e)
                  | Inr p \<Rightarrow> check_inherents env (bheader b, inner_body) (parent_hash (bheader b)) p)
        | None \<Rightarrow> Inr ()) = Inr ()"
    and "fetch_seal (pow_engine env) (last_log (post_digests b)) (hash_of env (bheader b)) = (Inr sl :: 'e cons_error + bytes)"
    and ti: "(case body b of Some (x # _) \<Rightarrow> Inr (encode_xt env x) | _ \<Rightarrow> Inl MissingTimestampInherent)
      = (Inr ti :: 'e cons_error + bytes)"
    and d: "(case alg_difficulty alg (parent_hash (bheader b)) ti of Inl e \<Rightarrow> Inl (Algorithm_error e) | Inr d \<Rightarrow> Inr d) = Inr d"
    and "find_pre_digest (pow_engine env) (bheader b) = (Inr pd :: 'e cons_error + bytes option)"
    and v: "(case alg_verify alg (Block_hash (parent_hash (bheader b))) (hash_of env (bheader b)) pd sl d of
        Inl e \<Rightarrow> Inl (Algorithm_error e) | Inr ok \<Rightarrow> ensure ok InvalidSeal) = Inr ()"
    and "choose_fork env alg best_header best_aux
       \<lparr> aux_difficulty = d, total_difficulty = increment env (total_difficulty aux0) d \<rparr> sl
       (b \<lparr> auxiliary := auxiliary b @ [(aux_key (full_hash env b),
          Some (encode_aux \<lparr> aux_difficulty = d, total_difficulty = increment env (total_difficulty aux0) d \<rparr>))] \<rparr>) = Inr b'"
    by (elim bind_res_InrE) auto
  moreover obtain x xs where x: "body b = Some (x # xs)" "ti = encode_xt env x"
    using ti by (auto split: option.splits list.splits)
  moreover have "alg_difficulty alg (parent_hash (bheader b)) (encode_xt env x) = Inr d"
    using d x by (auto split: sum.splits)
  moreover have "alg_verify alg (Block_hash (parent_hash (bheader b))) (hash_of env (bheader b)) pd sl d = Inr True"
    using v by (auto split: sum.splits)
  ultimately show ?thesis
    using that [OF best _ _ x(1) inherents [OF inh x(1)]] by blast
qed

lemma choose_fork_best:
  assumes "choose_fork env alg bh best aux sl b = Inr b'" "fork_choice b = None" "fork_choice b' = Some (Custom True)"
    and "\<And>x y. \<not> alg_break_tie alg x y"
  shows "finality_conflicts (full_hash env b) (number (bheader b)) (parent_hash (bheader b))
      (finalized_hash env) (finalized_number env) (header_of env) = Inr False
    \<and> total_difficulty best < total_difficulty aux"
proof -
  obtain c where c: "finality_conflicts (full_hash env b) (number (bheader b)) (parent_hash (bheader b))
      (finalized_hash env) (finalized_number env) (header_of env) = Inr c"
    using assms(1,2) by (auto simp: choose_fork_def)
  have no: "b' \<noteq> b \<lparr> fork_choice := Some (Custom False) \<rparr>"
    using assms(3) by auto
  show ?thesis
    using assms(1,2,4) no by (auto simp: choose_fork_def c split: if_splits)
qed

lemma choose_fork_frame:
  "choose_fork env alg bh best aux sl b = Inr b' \<Longrightarrow> auxiliary b' = auxiliary b \<and> bheader b' = bheader b
   \<and> (fork_choice b = None \<longrightarrow> (\<exists>c. fork_choice b' = Some (Custom c)))"
  by (auto simp: choose_fork_def split: if_splits)

lemma import_block_InrE:
  assumes "import_block env alg inner b = Inr r"
  obtains b' where "prepare_import env alg b = Inr b'" "inner b' = Inr r"
  using assms by (auto simp: import_block_def sum_cases_Inr_iff)

lemma fetch_seal_Inr_iff: "fetch_seal pow_id l h = Inr s \<longleftrightarrow> l = Some (Seal_item pow_id s)"
  by (auto simp: fetch_seal_def split: option.splits digest_item.splits)

lemma decode_encode_aux:
  "aux_difficulty a \<le> U256_MAX \<Longrightarrow> total_difficulty a \<le> U256_MAX \<Longrightarrow> decode_aux (encode_aux a) = Some a"
  using power_256_32 by (simp add: decode_aux_def encode_aux_def le_val_le_bytes)

text \<open>The PoW pre-runtime digests of a header.\<close>

definition pow_pre_digests :: "engine_id \<Rightarrow> digest_item list \<Rightarrow> bytes list" where
  "pow_pre_digests pow_id ls = map snd [p \<leftarrow> List.map_filter as_pre_runtime ls. fst p = pow_id]"

lemma pow_pre_digests_simps [simp]:
  "pow_pre_digests pow_id [] = []"
  "pow_pre_digests pow_id (PreRuntime i v # ls) = (if i = pow_id then v # pow_pre_digests pow_id ls else pow_pre_digests pow_id ls)"
  "pow_pre_digests pow_id (Consensus i v # ls) = pow_pre_digests pow_id ls"
  "pow_pre_digests pow_id (Seal_item i v # ls) = pow_pre_digests pow_id ls"
  "pow_pre_digests pow_id (Other_item v # ls) = pow_pre_digests pow_id ls"
  "pow_pre_digests pow_id (RuntimeEnvironmentUpdated # ls) = pow_pre_digests pow_id ls"
  by (simp_all add: pow_pre_digests_def map_filter_simps)

lemma find_pre_digest_loop_eq:
  "find_pre_digest_loop pow_id ls pre =
     (case (pre, pow_pre_digests pow_id ls) of
        (None, []) \<Rightarrow> Inr None
      | (None, [v]) \<Rightarrow> Inr (Some v)
      | (Some v, []) \<Rightarrow> Inr (Some v)
      | _ \<Rightarrow> Inl MultiplePreRuntimeDigests)"
  by (induction pow_id ls pre rule: find_pre_digest_loop.induct) (auto split: option.splits list.splits)

lemma pow_find_author_digests:
  "pow_find_author pow_id decode (List.map_filter as_pre_runtime ls) =
     (case pow_pre_digests pow_id ls of [] \<Rightarrow> None | v # _ \<Rightarrow> decode v)"
proof (induction ls)
  case (Cons l ls)
  then show ?case by (cases l) (auto simp: map_filter_simps)
qed (simp add: map_filter_simps)

section \<open>The algorithm interface\<close>

locale pow_algorithm =
  fixes alg :: "'e pow_alg"
    and proves :: "hash \<Rightarrow> hash \<Rightarrow> bytes \<Rightarrow> nat \<Rightarrow> bool"
  assumes verify_sound: "alg_verify alg (Block_hash p) ph pd sl d = Inr True \<Longrightarrow> proves p ph sl d"
    and earliest_wins: "\<not> alg_break_tie alg own new"
begin

lemma import_sound:
  assumes "prepare_import env alg b = Inr b'"
  obtains x xs d sl where "body b = Some (x # xs)" "last_log (post_digests b) = Some (Seal_item (pow_engine env) sl)"
    "alg_difficulty alg (parent_hash (bheader b)) (encode_xt env x) = Inr d"
    "proves (parent_hash (bheader b)) (hash_of env (bheader b)) sl d"
  using assms by (elim prepare_import_InrD) (auto simp: fetch_seal_Inr_iff dest: verify_sound)

lemma import_best:
  assumes "prepare_import env alg b = Inr b'" "fork_choice b = None"
  shows "\<exists>x d aux0 best_header best_aux. alg_difficulty alg (parent_hash (bheader b)) (encode_xt env x) = Inr d
    \<and> read_aux env (parent_hash (bheader b)) = Inr aux0 \<and> best_chain env = Inr best_header
    \<and> read_aux env (hash_of env best_header) = Inr best_aux
    \<and> auxiliary b' = auxiliary b @ [(aux_key (full_hash env b), Some (encode_aux
        \<lparr> aux_difficulty = d, total_difficulty = increment env (total_difficulty aux0) d \<rparr>))]
    \<and> (\<exists>c. fork_choice b' = Some (Custom c) \<and> (c \<longrightarrow>
          total_difficulty best_aux < increment env (total_difficulty aux0) d \<and>
          finality_conflicts (full_hash env b) (number (bheader b)) (parent_hash (bheader b))
            (finalized_hash env) (finalized_number env) (header_of env) = Inr False))"
  using assms(1)
proof (rule prepare_import_InrD)
  fix best_header and best_aux aux0 :: PowAux and sl x xs d pd
  let ?aux = "\<lparr> aux_difficulty = d, total_difficulty = increment env (total_difficulty aux0) d \<rparr>"
  let ?b = "b \<lparr> auxiliary := auxiliary b @ [(aux_key (full_hash env b), Some (encode_aux ?aux))] \<rparr>"
  assume *: "best_chain env = Inr best_header" "read_aux env (hash_of env best_header) = Inr best_aux"
    "read_aux env (parent_hash (bheader b)) = Inr aux0"
    "alg_difficulty alg (parent_hash (bheader b)) (encode_xt env x) = Inr d"
    and choose: "choose_fork env alg best_header best_aux ?aux sl ?b = Inr b'"
  from choose_fork_frame [OF choose] assms(2) obtain c where
    c: "auxiliary b' = auxiliary ?b" "fork_choice b' = Some (Custom c)" by auto
  have "total_difficulty best_aux < total_difficulty ?aux \<and>
      finality_conflicts (full_hash env ?b) (number (bheader ?b)) (parent_hash (bheader ?b))
        (finalized_hash env) (finalized_number env) (header_of env) = Inr False" if c
    using choose_fork_best [OF choose] assms(2) c(2) that earliest_wins by auto
  then have "c \<longrightarrow> total_difficulty best_aux < increment env (total_difficulty aux0) d \<and>
      finality_conflicts (full_hash env b) (number (bheader b)) (parent_hash (bheader b))
        (finalized_hash env) (finalized_number env) (header_of env) = Inr False"
    by (simp add: full_hash_def)
  then show ?thesis
    using * c by (intro exI conjI) (assumption | simp)+
qed

end

text \<open>The PoScan algorithm over a runtime that can refuse a call, with the scan of the parent's runtime.\<close>

definition runtime_verify_api ::
  "(hash \<Rightarrow> 'e option) \<Rightarrow> (hash \<Rightarrow> ('m, 'f) scan_ops) \<Rightarrow> hash \<Rightarrow> hash \<Rightarrow> bytes \<Rightarrow> nat \<Rightarrow> 'e + bool" where
  "runtime_verify_api fails ops_at parent ph raw_seal difficulty =
     (case fails parent of Some e \<Rightarrow> Inl e | None \<Rightarrow> Inr (runtime_verify_seal (ops_at parent) ph raw_seal difficulty))"

definition poscan_alg ::
  "(hash \<Rightarrow> bytes \<Rightarrow> 'e + nat option) \<Rightarrow> (hash \<Rightarrow> hash \<Rightarrow> bytes \<Rightarrow> nat \<Rightarrow> 'e + bool) \<Rightarrow> 'e pow_alg" where
  "poscan_alg difficulty_api verify_api =
     \<lparr> alg_difficulty = poscan_difficulty difficulty_api,
       alg_preliminary_verify = (\<lambda>_ _. Inr None),
       alg_break_tie = (\<lambda>_ _. False),
       alg_verify = poscan_verify verify_api \<rparr>"

definition scan_proves :: "(hash \<Rightarrow> ('m, 'f) scan_ops) \<Rightarrow> hash \<Rightarrow> hash \<Rightarrow> bytes \<Rightarrow> nat \<Rightarrow> bool" where
  "scan_proves ops_at parent ph raw d \<longleftrightarrow>
     (\<exists>s. decode_seal raw = Some s \<and> be_val (seal_work s) * d \<le> U256_MAX
        \<and> work (ops_at parent) \<lparr> pre_hash = ph, nonce = seal_nonce s \<rparr> = Some (seal_work s))"

interpretation poscan_pow: pow_algorithm "poscan_alg dapi (runtime_verify_api fails ops_at)" "scan_proves ops_at"
  for dapi fails ops_at
  by unfold_locales
     (auto simp: poscan_alg_def poscan_verify_def runtime_verify_api_def runtime_verify_seal_def scan_proves_def
       verify_seal_iff [symmetric] split: option.splits sum.splits)

text \<open>What an accepted block has shown, shared by the properties of import.\<close>

lemma poscan_import_work:
  assumes "prepare_import env (poscan_alg dapi (runtime_verify_api fails ops_at)) b = Inr b'"
  shows "\<exists>x xs d s. body b = Some (x # xs) \<and> dapi (parent_hash (bheader b)) (encode_xt env x) = Inr (Some d)
    \<and> last_log (post_digests b) = Some (Seal_item (pow_engine env) (encode_seal s))
    \<and> work (ops_at (parent_hash (bheader b))) \<lparr> pre_hash = hash_of env (bheader b), nonce = seal_nonce s \<rparr> = Some (seal_work s)
    \<and> be_val (seal_work s) * d \<le> U256_MAX \<and> decode_seal (encode_seal s) = Some s"
proof -
  obtain x xs d sl where *: "body b = Some (x # xs)" "last_log (post_digests b) = Some (Seal_item (pow_engine env) sl)"
    "alg_difficulty (poscan_alg dapi (runtime_verify_api fails ops_at)) (parent_hash (bheader b)) (encode_xt env x) = Inr d"
    "scan_proves ops_at (parent_hash (bheader b)) (hash_of env (bheader b)) sl d"
    using assms by (rule poscan_pow.import_sound)
  then obtain s where "decode_seal sl = Some s" "be_val (seal_work s) * d \<le> U256_MAX"
    "work (ops_at (parent_hash (bheader b))) \<lparr> pre_hash = hash_of env (bheader b), nonce = seal_nonce s \<rparr> = Some (seal_work s)"
    by (auto simp: scan_proves_def)
  moreover from this(1) have "sl = encode_seal s"
    using decode_seal_wf by simp
  moreover have "dapi (parent_hash (bheader b)) (encode_xt env x) = Inr (Some d)"
    using *(3) by (auto simp: poscan_alg_def poscan_difficulty_def split: sum.splits option.splits)
  ultimately show ?thesis
    using *(1,2) by blast
qed

section \<open>Properties\<close>

text \<open>
  C9: The finality check is exact. In a header store with consistent numbers and no gap
  between the two blocks and genesis, it returns, and it reports a conflict exactly when the
  candidate and the finalized block do not lie on one chain: the candidate is no ancestor of
  the finalized block (nor the block itself), and the finalized block is no ancestor of the
  candidate's parent (nor the parent).
\<close>

theorem finality_conflicts_exact:
  assumes "numbered H num" "complete_from H num fin" "complete_from H num parent"
    and "num fin = fin_number" "num new = new_number" "num new = Suc (num parent)"
  shows "finality_conflicts new new_number parent fin fin_number H =
    Inr (\<not> ((child_of H num)\<^sup>*\<^sup>* fin new \<or> (child_of H num)\<^sup>*\<^sup>* parent fin))"
proof (cases "new_number \<le> fin_number")
  case True
  from walk_back_ancestor [OF assms(1,2,4) True] obtain g where
    g: "walk_back H new_number fin fin_number = Inr g" "(child_of H num)\<^sup>*\<^sup>* fin g" "num g = new_number"
    by (elim exE conjE) (rule that)
  have "g = new" if "(child_of H num)\<^sup>*\<^sup>* fin new"
    by (rule ancestor_unique [OF assms(1) g(2) that]) (simp add: g(3) assms(5))
  then have "g = new \<longleftrightarrow> (child_of H num)\<^sup>*\<^sup>* fin new"
    using g(2) by blast
  moreover have "\<not> (child_of H num)\<^sup>*\<^sup>* parent fin"
  proof
    assume "(child_of H num)\<^sup>*\<^sup>* parent fin"
    from ancestor_num_le [OF assms(1) this] show False
      using assms(4-6) True by simp
  qed
  ultimately show ?thesis
    using True g(1) by (simp add: finality_conflicts_def)
next
  case False
  have "num parent = new_number - 1" "fin_number \<le> new_number - 1"
    using assms(5,6) False by simp_all
  from walk_back_ancestor [OF assms(1,3) this] obtain g where
    g: "walk_back H fin_number parent (new_number - 1) = Inr g" "(child_of H num)\<^sup>*\<^sup>* parent g" "num g = fin_number"
    by (elim exE conjE) (rule that)
  have "g = fin" if "(child_of H num)\<^sup>*\<^sup>* parent fin"
    by (rule ancestor_unique [OF assms(1) g(2) that]) (simp add: g(3) assms(4))
  then have "g = fin \<longleftrightarrow> (child_of H num)\<^sup>*\<^sup>* parent fin"
    using g(2) by blast
  moreover have "\<not> (child_of H num)\<^sup>*\<^sup>* fin new"
  proof
    assume "(child_of H num)\<^sup>*\<^sup>* fin new"
    from ancestor_num_le [OF assms(1) this] show False
      using assms(4,5) False by simp
  qed
  ultimately show ?thesis
    using False g(1) by (simp add: finality_conflicts_def)
qed

text \<open>A store with the chain 0, 1, 2, 3 and a fork 9 at height 1.\<close>

definition sample_parent :: "byte \<Rightarrow> byte" where
  "sample_parent h = (if h = 9 then 0 else h - 1)"

definition sample_store :: "hash \<Rightarrow> unit + unit header option" where
  "sample_store h = (if h \<in> {[0], [1], [2], [3], [9]}
     then Inr (Some \<lparr> parent_hash = [sample_parent (hd h)], number = 0, logs = [], rest = () \<rparr>) else Inr None)"

definition sample_num :: "hash \<Rightarrow> nat" where
  "sample_num h = (if h = [1] \<or> h = [9] then 1 else if h = [2] then 2 else if h = [3] then 3 else if h = [4] then 4 else 0)"

lemma sample_child: "child_of sample_store sample_num a p \<longleftrightarrow> (a, p) \<in> {([1], [0]), ([2], [1]), ([3], [2]), ([9], [0])}"
  by (auto simp: child_of_def sample_store_def sample_num_def sample_parent_def)

lemma sample_numbered: "numbered sample_store sample_num"
  by (auto simp: numbered_def sample_child sample_num_def)

lemma sample_ancestors:
  "(child_of sample_store sample_num)\<^sup>*\<^sup>* h a \<Longrightarrow> h \<in> {[0], [1], [2], [3], [9]} \<Longrightarrow> a \<in> {[0], [1], [2], [3], [9]}"
  by (induction rule: rtranclp_induct) (auto simp: sample_child)

lemma sample_complete: "h \<in> {[0], [1], [2], [3], [9]} \<Longrightarrow> complete_from sample_store sample_num h"
  unfolding complete_from_def by (intro allI impI) (drule sample_ancestors, auto simp: sample_child sample_num_def)

theorem finality_conflicts_exact_witness:
  "finality_conflicts [4] 4 [3] [2] 2 sample_store = Inr False \<and> finality_conflicts [2] 2 [9] [1] 1 sample_store = Inr True"
proof -
  have "child_of sample_store sample_num [3] [2]"
    by (simp add: sample_child)
  then have "finality_conflicts [4] 4 [3] [2] 2 sample_store = Inr False"
    using finality_conflicts_exact [OF sample_numbered sample_complete sample_complete, of "[2]" "[3]" 2 "[4]" 4]
    by (auto simp: sample_num_def)
  moreover have "\<not> (child_of sample_store sample_num)\<^sup>*\<^sup>* [9] [1]" "\<not> (child_of sample_store sample_num)\<^sup>*\<^sup>* [1] [2]"
    using ancestor_num_less [OF sample_numbered, of "[9]" "[1]"] ancestor_num_less [OF sample_numbered, of "[1]" "[2]"]
    by (auto simp: sample_num_def)
  then have "finality_conflicts [2] 2 [9] [1] 1 sample_store = Inr True"
    using finality_conflicts_exact [OF sample_numbered sample_complete sample_complete, of "[1]" "[9]" 1 "[2]" 2]
    by (auto simp: sample_num_def)
  ultimately show ?thesis ..
qed

text \<open>
  C8: No block without work. Whatever the client, the chain and the inner import are, a block
  that \<open>import_block\<close> accepts under the PoScan algorithm has a first extrinsic, carries as its
  last post digest a PoW seal, and that seal decodes to a nonce and a work value that the scan
  of the parent's runtime yields for the block's pre-hash and that meets the difficulty the
  parent's runtime demands for that extrinsic.
\<close>

theorem import_requires_work:
  assumes "import_block env (poscan_alg dapi (runtime_verify_api fails ops_at)) inner b = Inr r"
  shows "\<exists>x xs d s. body b = Some (x # xs) \<and> dapi (parent_hash (bheader b)) (encode_xt env x) = Inr (Some d)
    \<and> last_log (post_digests b) = Some (Seal_item (pow_engine env) (encode_seal s))
    \<and> work (ops_at (parent_hash (bheader b))) \<lparr> pre_hash = hash_of env (bheader b), nonce = seal_nonce s \<rparr> = Some (seal_work s)
    \<and> be_val (seal_work s) * d \<le> U256_MAX"
proof -
  obtain b' where "prepare_import env (poscan_alg dapi (runtime_verify_api fails ops_at)) b = Inr b'"
    using assms by (rule import_block_InrE)
  from poscan_import_work [OF this] show ?thesis
    by blast
qed

text \<open>A node on the sample store: genesis \<open>[0]\<close> is best and final, and a sealed block \<open>[4]\<close> arrives on top of it.\<close>

definition sample_pow_env :: "(unit, nat, unit, unit) pow_env" where
  "sample_pow_env = \<lparr> pow_engine = [112], hash_of = (\<lambda>h. [of_nat (number h)]),
     post_header_hash = (\<lambda>h l c. [4]),
     best_chain = Inr \<lparr> parent_hash = [], number = 0, logs = [], rest = () \<rparr>,
     get_aux = (\<lambda>k. Inr None), inherent_providers = (\<lambda>h. Inr ()), block_check_inherents = (\<lambda>h b p. Inr ()),
     check_inherents_after = 0, finalized_hash = [0], finalized_number = 0,
     header_of = sample_store, encode_xt = (\<lambda>x. le_bytes 8 x), increment = (\<lambda>t d. min (t + d) U256_MAX) \<rparr>"

definition sample_alg :: "unit pow_alg" where
  "sample_alg = poscan_alg (\<lambda>p i. Inr (Some 1)) (runtime_verify_api (\<lambda>_. None) (\<lambda>_. sample_ops))"

definition sample_seal :: Seal where
  "sample_seal = the (seal sample_ops \<lparr> pre_hash = [1], nonce = 7 \<rparr>)"

definition sample_block :: "(unit, nat) import_params" where
  "sample_block = \<lparr> bheader = \<lparr> parent_hash = [0], number = 1, logs = [PreRuntime [112] [5]], rest = () \<rparr>,
     body = Some [1700000000000], post_digests = [Seal_item [112] (encode_seal sample_seal)], post_hash = Some [4],
     auxiliary = [], fork_choice = None, skip_execution_checks = False \<rparr>"

lemma sample_seal_ok: "runtime_verify_seal sample_ops [1] (encode_seal sample_seal) 1 = True"
proof -
  obtain w where w: "work sample_ops \<lparr> pre_hash = [1], nonce = 7 \<rparr> = Some w"
    by (simp add: work_def sample_ops_def)
  then have sample: "sample_seal = \<lparr> seal_nonce = 7, seal_work = w \<rparr>"
    by (simp add: sample_seal_def seal_def)
  have len: "length w = 32"
    using w by (auto simp: work_def hash_buckets_def sample_ops_def)
  then have "decode_seal (encode_seal sample_seal) = Some sample_seal"
    by (intro decode_encode_seal) (simp add: seal_wf_def sample U256_MAX_def)
  moreover have "be_val w \<le> U256_MAX"
    using len bij_betw_apply [OF be_val_bij] by simp
  ultimately show ?thesis
    using w by (simp add: runtime_verify_seal_def verify_seal_def hash_meets_iff sample)
qed

lemma sample_import: "prepare_import sample_pow_env sample_alg sample_block =
  Inr (sample_block \<lparr> auxiliary := [(aux_key [4], Some (encode_aux \<lparr> aux_difficulty = 1, total_difficulty = 1 \<rparr>))],
    fork_choice := Some (Custom True) \<rparr>)"
proof -
  have min1: "min (Suc 0) U256_MAX = Suc 0"
    by (simp add: U256_MAX_def)
  show ?thesis
    using sample_seal_ok
    by (simp add: prepare_import_def sample_pow_env_def sample_alg_def sample_block_def read_aux_def check_inherents_def
        fetch_seal_def last_log_def find_pre_digest_def poscan_alg_def poscan_difficulty_def poscan_verify_def
        runtime_verify_api_def choose_fork_def finality_conflicts_def walk_back.simps full_hash_def ensure_def min1)
qed

theorem import_requires_work_witness:
  "\<exists>s :: Seal. work sample_ops \<lparr> pre_hash = [1], nonce = seal_nonce s \<rparr> = Some (seal_work s) \<and> be_val (seal_work s) \<le> U256_MAX"
proof -
  have "import_block sample_pow_env (poscan_alg (\<lambda>p i. Inr (Some 1)) (runtime_verify_api (\<lambda>_. None) (\<lambda>_. sample_ops)))
      (\<lambda>b. Inr ()) sample_block = Inr ()"
    using sample_import by (simp add: import_block_def sample_alg_def)
  from import_requires_work [OF this] show ?thesis
    by (auto simp: sample_pow_env_def sample_block_def)
qed



text \<open>
  The verifier takes the header apart without loss: it accepts only headers whose last
  digest is a PoW seal, the header it passes on is the original without that seal, the seal is
  appended to the post digests where import reads it, and the recorded post hash is the hash
  of the original header.
\<close>

theorem verifier_splits_seal:
  fixes env :: "('r, 'x, 'e, 'p) pow_env"
  assumes "verifier_verify env alg b = Inr b'"
  shows "\<exists>sl. logs (bheader b) = logs (bheader b') @ [Seal_item (pow_engine env) sl]
    \<and> bheader b = (bheader b') \<lparr> logs := logs (bheader b') @ [Seal_item (pow_engine env) sl] \<rparr>
    \<and> post_digests b' = post_digests b @ [Seal_item (pow_engine env) sl]
    \<and> post_hash b' = Some (hash_of env (bheader b))
    \<and> fetch_seal (pow_engine env) (last_log (post_digests b')) h = (Inr sl :: 'e cons_error + bytes)"
proof -
  from assms obtain item where
    item: "check_header env alg (bheader b) = Inr (bheader b', item)" "post_digests b' = post_digests b @ [item]"
      "post_hash b' = Some (hash_of env (bheader b))"
    by (auto simp: verifier_verify_def Let_def)
  then obtain sl where sl: "last_log (logs (bheader b)) = Some (Seal_item (pow_engine env) sl)"
    "item = Seal_item (pow_engine env) sl" "bheader b' = (bheader b) \<lparr> logs := butlast (logs (bheader b)) \<rparr>"
    by (auto simp: check_header_def Let_def split: option.splits digest_item.splits if_splits sum.splits)
  then have "logs (bheader b) = butlast (logs (bheader b)) @ [Seal_item (pow_engine env) sl]"
    by (auto simp: last_log_def split: if_splits) (metis append_butlast_last_id)
  then show ?thesis
    using item(2,3) sl(2,3) by (auto simp: fetch_seal_def last_log_def)
qed

theorem verifier_splits_seal_witness:
  "\<exists>b'. verifier_verify sample_pow_env sample_alg (sample_block \<lparr> bheader := (bheader sample_block) \<lparr> logs :=
      [PreRuntime [112] [5], Seal_item [112] [1, 2]] \<rparr>, post_digests := [] \<rparr>) = Inr b'
    \<and> logs (bheader b') = [PreRuntime [112] [5]] \<and> post_digests b' = [Seal_item [112] [1, 2]]"
proof -
  let ?b = "sample_block \<lparr> bheader := (bheader sample_block) \<lparr> logs := [PreRuntime [112] [5], Seal_item [112] [1, 2]] \<rparr>, post_digests := [] \<rparr>"
  obtain b' where b': "verifier_verify sample_pow_env sample_alg ?b = Inr b'"
    by (simp add: verifier_verify_def check_header_def sample_pow_env_def sample_alg_def poscan_alg_def last_log_def)
  from verifier_splits_seal [OF b', of "[]"] b' show ?thesis
    by (auto simp: sample_pow_env_def)
qed

text \<open>
  One author per block. If import finds the PoW pre-digest of a header, the runtime's
  author search on the same digest decodes exactly that payload, and a header with two PoW
  pre-runtime digests is rejected, so nobody can be paid for a digest that the seal check did
  not see.
\<close>

theorem one_author_per_block:
  "find_pre_digest pow_id h = (Inr pd :: 'e cons_error + bytes option) \<Longrightarrow>
   pow_find_author pow_id decode (List.map_filter as_pre_runtime (logs h)) = Option.bind pd decode"
  by (auto simp: find_pre_digest_def find_pre_digest_loop_eq pow_find_author_digests split: list.splits)

theorem one_author_per_block_witness:
  "find_pre_digest [112] (bheader sample_block) = (Inr (Some [5]) :: unit cons_error + bytes option)
   \<and> pow_find_author [112] (\<lambda>d. Some (length d)) (List.map_filter as_pre_runtime (logs (bheader sample_block))) = Some 1"
proof -
  have pd: "find_pre_digest [112] (bheader sample_block) = (Inr (Some [5]) :: unit cons_error + bytes option)"
    by (simp add: find_pre_digest_def sample_block_def)
  show ?thesis
    using pd one_author_per_block [OF pd, of "\<lambda>d. Some (length d)"] by simp
qed

end
