(* ===== verification/MiningWorker.thy ===== *)
theory MiningWorker
  imports PowConsensus "HOL-Library.Multiset"
begin

text \<open>
  The mining worker (\<open>consensus/sc-consensus-pow/src/worker.rs\<close>) and the loop that feeds it
  (\<open>start_mining_worker\<close> in \<open>lib.rs\<close>). The queue of builds, the version counter and the watch
  channel are the record \<open>worker\<close>; sending on the channel belongs to the async runtime and is
  an argument.

  \<open>submit\<close> takes the queue lock twice and runs the verification and the import outside of it,
  so other calls interleave. Its sequential form is \<open>submit\<close>; the machine \<open>wstep\<close> splits it at
  the lock boundaries. The invariants show that the queue is bounded and belongs to one head,
  and that under every interleaving each build is imported at most once and only with a seal
  that the algorithm accepted for its metadata.
\<close>

section \<open>Data\<close>

record metadata =
  best_hash :: hash
  mpre_hash :: hash
  pre_runtime :: "bytes option"
  mdifficulty :: nat

record ('r, 'x, 's) build =
  meta :: metadata
  prop_header :: "'r header"
  prop_body :: "'x list"
  storage_changes :: 's

record ('r, 'x, 's, 'w) worker =
  builds :: "('r, 'x, 's) build list"
  version :: nat
  task_changed :: 'w

definition MAX_LIVE_TASKS :: nat where
  "MAX_LIVE_TASKS = 256"

section \<open>Operations\<close>

definition increment_version :: "(nat \<Rightarrow> 'w \<Rightarrow> 'w) \<Rightarrow> ('r, 'x, 's, 'w) worker \<Rightarrow> ('r, 'x, 's, 'w) worker" where
  "increment_version send w =
     (let v = wrapping_add 64 (version w) 1 in w \<lparr> version := v, task_changed := send v (task_changed w) \<rparr>)"

definition new_worker :: "'w \<Rightarrow> ('r, 'x, 's, 'w) worker" where
  "new_worker channel = \<lparr> builds = [], version = 0, task_changed = channel \<rparr>"

definition on_major_syncing :: "(nat \<Rightarrow> 'w \<Rightarrow> 'w) \<Rightarrow> ('r, 'x, 's, 'w) worker \<Rightarrow> ('r, 'x, 's, 'w) worker" where
  "on_major_syncing send w = increment_version send (w \<lparr> builds := [] \<rparr>)"

fun pop_front_while :: "nat \<Rightarrow> 'a list \<Rightarrow> 'a list" where
  "pop_front_while bound [] = []"
| "pop_front_while bound (x # xs) = (if bound < length (x # xs) then pop_front_while bound xs else x # xs)"

definition current_best_hash :: "('r, 'x, 's, 'w) worker \<Rightarrow> hash option" where
  "current_best_hash w = (if builds w = [] then None else Some (best_hash (meta (last (builds w)))))"

definition current_metadata :: "('r, 'x, 's, 'w) worker \<Rightarrow> metadata option" where
  "current_metadata w = (if builds w = [] then None else Some (meta (last (builds w))))"

definition on_build ::
  "(nat \<Rightarrow> 'w \<Rightarrow> 'w) \<Rightarrow> ('r, 'x, 's) build \<Rightarrow> ('r, 'x, 's, 'w) worker \<Rightarrow> ('r, 'x, 's, 'w) worker" where
  "on_build send v w =
     (let bs = builds w;
          bs = (if current_best_hash w \<noteq> Some (best_hash (meta v)) then [] else bs);
          bs = bs @ [v];
          bs = pop_front_while MAX_LIVE_TASKS bs
      in increment_version send (w \<lparr> builds := bs \<rparr>))"

text \<open>The parts of \<open>submit\<close> between its lock operations.\<close>

definition submit_lookup :: "hash \<Rightarrow> ('r, 'x, 's, 'w) worker \<Rightarrow> metadata option" where
  "submit_lookup ph w = map_option meta (find (\<lambda>b. mpre_hash (meta b) = ph) (builds w))"

definition submit_verify :: "'e pow_alg \<Rightarrow> metadata \<Rightarrow> bytes \<Rightarrow> bool" where
  "submit_verify alg m raw_seal =
     (case alg_verify alg (Block_hash (best_hash m)) (mpre_hash m) (pre_runtime m) raw_seal (mdifficulty m) of
        Inr True \<Rightarrow> True
      | Inr False \<Rightarrow> False
      | Inl err \<Rightarrow> False)"

lemma submit_verify_iff: "submit_verify alg m sl \<longleftrightarrow>
  alg_verify alg (Block_hash (best_hash m)) (mpre_hash m) (pre_runtime m) sl (mdifficulty m) = Inr True"
  by (auto simp: submit_verify_def split: sum.splits bool.splits)

definition submit_take ::
  "(nat \<Rightarrow> 'w \<Rightarrow> 'w) \<Rightarrow> hash \<Rightarrow> ('r, 'x, 's, 'w) worker \<Rightarrow>
   (('r, 'x, 's) build \<times> ('r, 'x, 's, 'w) worker) option" where
  "submit_take send ph w =
     (case List.extract (\<lambda>b. mpre_hash (meta b) = ph) (builds w) of
        None \<Rightarrow> None
      | Some (before, b, after) \<Rightarrow> Some (b, increment_version send (w \<lparr> builds := before @ after \<rparr>)))"

definition import_params_of :: "engine_id \<Rightarrow> ('r, 'x, 's) build \<Rightarrow> bytes \<Rightarrow> ('r, 'x) import_params" where
  "import_params_of pow_id b raw_seal =
     \<lparr> bheader = prop_header b, body = Some (prop_body b), post_digests = [Seal_item pow_id raw_seal],
       post_hash = None, auxiliary = [], fork_choice = None, skip_execution_checks = False \<rparr>"

definition submit_finish :: "(nat \<Rightarrow> 'w \<Rightarrow> 'w) \<Rightarrow> bool \<Rightarrow> ('r, 'x, 's, 'w) worker \<Rightarrow> ('r, 'x, 's, 'w) worker" where
  "submit_finish send ok w = (if ok then increment_version send (w \<lparr> builds := [] \<rparr>) else w)"

text \<open>
  \<open>submit\<close> without interference. \<open>imp\<close> is the block import with the state of the client; the
  build's storage changes go along with the parameters.
\<close>

definition submit ::
  "(nat \<Rightarrow> 'w \<Rightarrow> 'w) \<Rightarrow> engine_id \<Rightarrow> 'e pow_alg \<Rightarrow>
   (('r, 'x) import_params \<Rightarrow> 's \<Rightarrow> 'c \<Rightarrow> bool \<times> 'c) \<Rightarrow> hash \<Rightarrow> bytes \<Rightarrow>
   ('r, 'x, 's, 'w) worker \<Rightarrow> 'c \<Rightarrow> bool \<times> ('r, 'x, 's, 'w) worker \<times> 'c" where
  "submit send pow_id alg imp ph raw_seal w c =
     (case submit_lookup ph w of
        None \<Rightarrow> (False, w, c)
      | Some m \<Rightarrow>
          if \<not> submit_verify alg m raw_seal then (False, w, c)
          else
            (case submit_take send ph w of
               None \<Rightarrow> (False, w, c)
             | Some (b, w) \<Rightarrow>
                 (let (ok, c) = imp (import_params_of pow_id b raw_seal) (storage_changes b) c
                  in (ok, submit_finish send ok w, c))))"

section \<open>The loop that feeds the worker\<close>

text \<open>
  One turn of the task of \<open>start_mining_worker\<close>: what each fallible call returned, in the order
  of the code. Any failure skips the turn and leaves the worker as it is.
\<close>

record ('r, 'x, 's, 'e) tick =
  major_syncing :: bool
  tick_best :: "'e + 'r header"
  tick_providers :: "'e + 'e + unit"
  tick_proposer :: "'e + unit"
  tick_proposal :: "digest_item list \<Rightarrow> 'e + ('r header \<times> 'x list) \<times> 's"

definition mining_tick ::
  "(nat \<Rightarrow> 'w \<Rightarrow> 'w) \<Rightarrow> ('r, 'x, 'e, 'p) pow_env \<Rightarrow> 'e pow_alg \<Rightarrow> bytes option \<Rightarrow> ('r, 'x, 's, 'e) tick \<Rightarrow>
   ('r, 'x, 's, 'w) worker \<Rightarrow> ('r, 'x, 's, 'w) worker" where
  "mining_tick send env alg pre_rt t w =
     (if major_syncing t then on_major_syncing send w
      else case tick_best t of
        Inl e \<Rightarrow> w
      | Inr best_header \<Rightarrow>
          (let best = hash_of env best_header in
           case tick_providers t of
             Inl e \<Rightarrow> w
           | Inr (Inl e) \<Rightarrow> w
           | Inr (Inr u) \<Rightarrow>
               (let inherent_digests = (case pre_rt of Some p \<Rightarrow> [PreRuntime (pow_engine env) p] | None \<Rightarrow> []) in
                case tick_proposer t of
                  Inl e \<Rightarrow> w
                | Inr u \<Rightarrow>
                    (case tick_proposal t inherent_digests of
                       Inl e \<Rightarrow> w
                     | Inr ((hdr, xs), changes) \<Rightarrow>
                         (case xs of
                            [] \<Rightarrow> w
                          | x # _ \<Rightarrow>
                              (case alg_difficulty alg best (encode_xt env x) of
                                 Inl e \<Rightarrow> w
                               | Inr d \<Rightarrow>
                                   on_build send
                                     \<lparr> meta = \<lparr> best_hash = best, mpre_hash = hash_of env hdr, pre_runtime = pre_rt, mdifficulty = d \<rparr>,
                                       prop_header = hdr, prop_body = xs, storage_changes = changes \<rparr> w))))))"

section \<open>The import-or-timeout stream\<close>

datatype 'a poll = Pending | Ready 'a

text \<open>
  \<open>poll_next\<close> drains the notification stream, given as the results its successive polls would
  return; a stream that is exhausted without an end is pending.
\<close>

fun drain_notifications :: "'n option poll list \<Rightarrow> bool \<Rightarrow> bool option" where
  "drain_notifications [] fire = Some fire"
| "drain_notifications (Pending # ps) fire = Some fire"
| "drain_notifications (Ready (Some n) # ps) fire = drain_notifications ps True"
| "drain_notifications (Ready None # ps) fire = None"

definition poll_next ::
  "'d \<Rightarrow> ('d \<Rightarrow> bool) \<Rightarrow> 'n option poll list \<Rightarrow> 'd option \<Rightarrow> unit option poll \<times> 'd option" where
  "poll_next fresh_delay elapsed notifications inner_delay =
     (case drain_notifications notifications False of
        None \<Rightarrow> (Ready None, inner_delay)
      | Some fire \<Rightarrow>
          (let delay = (case inner_delay of Some d \<Rightarrow> d | None \<Rightarrow> fresh_delay);
               fire = (fire \<or> elapsed delay)
           in if fire then (Ready (Some ()), None) else (Pending, Some delay)))"

section \<open>The concurrent machine\<close>

text \<open>
  Calls in flight: \<open>verified\<close> holds the submissions between their two lock operations, \<open>taken\<close>
  the builds removed from the queue and on their way to import, \<open>attempted\<close> everything that
  reached block import, \<open>produced\<close> every build the loop ever made. \<open>meta_of\<close> says that a pre-hash
  determines the metadata: it is the hash of a header that commits to parent, author digest
  and extrinsics.
\<close>

record ('r, 'x, 's, 'w) mstate =
  wrk :: "('r, 'x, 's, 'w) worker"
  verified :: "(hash \<times> bytes) multiset"
  taken :: "(('r, 'x, 's) build \<times> bytes) multiset"
  attempted :: "(('r, 'x, 's) build \<times> bytes) multiset"
  produced :: "('r, 'x, 's) build multiset"

definition winit :: "('r, 'x, 's, 'w) mstate \<Rightarrow> bool" where
  "winit m \<longleftrightarrow> (\<exists>ch. m = \<lparr> wrk = new_worker ch, verified = {#}, taken = {#}, attempted = {#}, produced = {#} \<rparr>)"

inductive wstep ::
  "(nat \<Rightarrow> 'w \<Rightarrow> 'w) \<Rightarrow> 'e pow_alg \<Rightarrow> (hash \<Rightarrow> metadata) \<Rightarrow> ('r, 'x, 's, 'w) mstate \<Rightarrow> ('r, 'x, 's, 'w) mstate \<Rightarrow> bool"
  for send alg meta_of where
  built: "meta v = meta_of (mpre_hash (meta v)) \<Longrightarrow>
    wstep send alg meta_of m (m \<lparr> wrk := on_build send v (wrk m), produced := add_mset v (produced m) \<rparr>)"
| synced: "wstep send alg meta_of m (m \<lparr> wrk := on_major_syncing send (wrk m) \<rparr>)"
| begun: "submit_lookup ph (wrk m) = Some md \<Longrightarrow> submit_verify alg md sl \<Longrightarrow>
    wstep send alg meta_of m (m \<lparr> verified := add_mset (ph, sl) (verified m) \<rparr>)"
| took: "(ph, sl) \<in># verified m \<Longrightarrow> submit_take send ph (wrk m) = Some (b, w) \<Longrightarrow>
    wstep send alg meta_of m (m \<lparr> wrk := w, verified := verified m - {#(ph, sl)#}, taken := add_mset (b, sl) (taken m) \<rparr>)"
| lost: "(ph, sl) \<in># verified m \<Longrightarrow> submit_take send ph (wrk m) = None \<Longrightarrow>
    wstep send alg meta_of m (m \<lparr> verified := verified m - {#(ph, sl)#} \<rparr>)"
| imported: "(b, sl) \<in># taken m \<Longrightarrow>
    wstep send alg meta_of m (m \<lparr> wrk := submit_finish send ok (wrk m), taken := taken m - {#(b, sl)#},
      attempted := add_mset (b, sl) (attempted m) \<rparr>)"

definition one_head :: "('r, 'x, 's) build list \<Rightarrow> bool" where
  "one_head bs \<longleftrightarrow> (\<exists>h. \<forall>b \<in> set bs. best_hash (meta b) = h)"

definition winv :: "'e pow_alg \<Rightarrow> (hash \<Rightarrow> metadata) \<Rightarrow> ('r, 'x, 's, 'w) mstate \<Rightarrow> bool" where
  "winv alg meta_of m \<longleftrightarrow>
     length (builds (wrk m)) \<le> MAX_LIVE_TASKS \<and> one_head (builds (wrk m)) \<and>
     (\<forall>b \<in> set (builds (wrk m)). meta b = meta_of (mpre_hash (meta b))) \<and>
     (\<forall>(ph, sl) \<in># verified m. submit_verify alg (meta_of ph) sl) \<and>
     (\<forall>(b, sl) \<in># taken m + attempted m. submit_verify alg (meta b) sl) \<and>
     mset (builds (wrk m)) + image_mset fst (taken m) + image_mset fst (attempted m) \<subseteq># produced m"

section \<open>Library\<close>

lemma increment_version_simps [simp]: "builds (increment_version send w) = builds w"
  by (simp add: increment_version_def Let_def)

lemma pop_front_while_eq: "pop_front_while n xs = drop (length xs - n) xs"
  by (induction n xs rule: pop_front_while.induct) (auto simp: Suc_diff_le)

definition kept :: "('r, 'x, 's) build \<Rightarrow> ('r, 'x, 's, 'w) worker \<Rightarrow> ('r, 'x, 's) build list" where
  "kept v w = (if current_best_hash w = Some (best_hash (meta v)) then builds w else [])"

lemma on_build_builds: "builds (on_build send v w) = drop (Suc (length (kept v w)) - MAX_LIVE_TASKS) (kept v w @ [v])"
  by (simp add: on_build_def kept_def Let_def pop_front_while_eq)

lemma one_head_subset: "one_head bs \<Longrightarrow> set cs \<subseteq> set bs \<Longrightarrow> one_head cs"
  by (auto simp: one_head_def)

lemma one_head_nil [simp]: "one_head []"
  by (simp add: one_head_def)

lemma one_head_on_build:
  assumes "one_head (builds w)"
  shows "one_head (builds (on_build send v w))"
proof -
  have "one_head (kept v w @ [v])"
    using assms by (auto simp: one_head_def kept_def current_best_hash_def split: if_splits)
  then show ?thesis
    by (rule one_head_subset) (auto simp: on_build_builds dest: in_set_dropD)
qed

lemma mset_drop_subset: "mset (drop n xs) \<subseteq># mset xs"
  using mset_subset_eq_add_right [of "mset (drop n xs)" "mset (take n xs)"] by (simp flip: mset_append)

lemma mset_on_build: "mset (builds (on_build send v w)) \<subseteq># add_mset v (mset (builds w))"
proof -
  have "mset (builds (on_build send v w)) \<subseteq># mset (kept v w @ [v])"
    unfolding on_build_builds by (rule mset_drop_subset)
  also have "\<dots> \<subseteq># add_mset v (mset (builds w))"
    by (simp add: kept_def)
  finally show ?thesis .
qed

lemma length_on_build: "length (builds (on_build send v w)) \<le> MAX_LIVE_TASKS"
  by (simp add: on_build_builds MAX_LIVE_TASKS_def)

lemma submit_take_SomeD:
  assumes "submit_take send ph w = Some (b, w')"
  shows "mset (builds w) = add_mset b (mset (builds w'))" "mpre_hash (meta b) = ph"
    and "set (builds w') \<subseteq> set (builds w)" "length (builds w') \<le> length (builds w)"
    and "one_head (builds w) \<Longrightarrow> one_head (builds w')"
proof -
  obtain before after where e: "List.extract (\<lambda>b. mpre_hash (meta b) = ph) (builds w) = Some (before, b, after)"
    "builds w' = before @ after"
    using assms by (auto simp: submit_take_def split: option.splits)
  then have "builds w = before @ b # after" "mpre_hash (meta b) = ph"
    by (auto simp: extract_Some_iff)
  then show "mset (builds w) = add_mset b (mset (builds w'))" "mpre_hash (meta b) = ph"
    "set (builds w') \<subseteq> set (builds w)" "length (builds w') \<le> length (builds w)"
    "one_head (builds w) \<Longrightarrow> one_head (builds w')"
    using e(2) by (auto simp: one_head_def)
qed

lemma submit_lookup_SomeD:
  "submit_lookup ph w = Some m \<Longrightarrow> \<exists>b \<in> set (builds w). meta b = m \<and> mpre_hash m = ph"
  unfolding submit_lookup_def by (auto dest!: find_Some_mem)

text \<open>Each clause of the invariant across each step.\<close>

definition conserved :: "('r, 'x, 's, 'w) mstate \<Rightarrow> bool" where
  "conserved m \<longleftrightarrow> mset (builds (wrk m)) + (image_mset fst (taken m) + image_mset fst (attempted m)) \<subseteq># produced m"

lemma conserved_step:
  assumes c: "conserved m" and step: "wstep send alg meta_of m m'"
  shows "conserved m'"
  using step
proof cases
  case (built v)
  have "mset (builds (on_build send v (wrk m))) + (image_mset fst (taken m) + image_mset fst (attempted m))
      \<subseteq># add_mset v (mset (builds (wrk m))) + (image_mset fst (taken m) + image_mset fst (attempted m))"
    by (intro subset_mset.add_mono mset_on_build subset_mset.order_refl)
  also have "\<dots> \<subseteq># add_mset v (produced m)"
    using c by (simp add: conserved_def)
  finally show ?thesis
    by (simp add: built(1) conserved_def)
next
  case synced
  have "image_mset fst (taken m) + image_mset fst (attempted m) \<subseteq># produced m"
    by (rule subset_mset.order_trans [OF mset_subset_eq_add_right c [unfolded conserved_def]])
  then show ?thesis
    by (simp add: synced conserved_def on_major_syncing_def)
next
  case (took ph sl b w)
  have "mset (builds (wrk m)) = add_mset b (mset (builds w))"
    by (rule submit_take_SomeD(1) [OF took(3)])
  then show ?thesis
    using c by (simp add: took(1) conserved_def)
next
  case (imported b sl ok)
  obtain T where T: "taken m = add_mset (b, sl) T"
    using insert_DiffM [OF imported(2), symmetric] by blast
  have "mset (builds (submit_finish send ok (wrk m))) \<subseteq># mset (builds (wrk m))"
    by (simp add: submit_finish_def)
  from subset_mset.add_mono [OF this subset_mset.order_refl, of "image_mset fst (taken m) + image_mset fst (attempted m)"]
  have "mset (builds (submit_finish send ok (wrk m))) + (image_mset fst (taken m) + image_mset fst (attempted m)) \<subseteq># produced m"
    using c unfolding conserved_def by (rule subset_mset.order_trans)
  then show ?thesis
    by (simp add: imported(1) T conserved_def)
qed (use c in \<open>simp_all add: conserved_def\<close>)

definition sound_calls :: "'e pow_alg \<Rightarrow> (hash \<Rightarrow> metadata) \<Rightarrow> ('r, 'x, 's, 'w) mstate \<Rightarrow> bool" where
  "sound_calls alg meta_of m \<longleftrightarrow>
     (\<forall>b \<in> set (builds (wrk m)). meta b = meta_of (mpre_hash (meta b))) \<and>
     (\<forall>(ph, sl) \<in># verified m. submit_verify alg (meta_of ph) sl) \<and>
     (\<forall>(b, sl) \<in># taken m + attempted m. submit_verify alg (meta b) sl)"

lemma set_on_build: "set (builds (on_build send v w)) \<subseteq> insert v (set (builds w))"
  using set_mset_mono [OF mset_on_build [of send v w]] by simp

lemma sound_calls_step:
  assumes s: "sound_calls alg meta_of m" and step: "wstep send alg meta_of m m'"
  shows "sound_calls alg meta_of m'"
  using step
proof cases
  case (built v)
  then show ?thesis
    using s set_on_build [of send v "wrk m"] by (auto simp: sound_calls_def)
next
  case (begun ph md sl)
  then have "md = meta_of ph"
    using s submit_lookup_SomeD [OF begun(2)] by (auto simp: sound_calls_def)
  then show ?thesis
    using s begun(3) by (auto simp: begun(1) sound_calls_def)
next
  case (took ph sl b w)
  note take = submit_take_SomeD [OF took(3)]
  have "b \<in> set (builds (wrk m))"
    using arg_cong [OF take(1), of set_mset] by simp
  then have "meta b = meta_of ph"
    using s take(2) by (auto simp: sound_calls_def)
  then show ?thesis
    using s took(2) take(3) by (auto simp: took(1) sound_calls_def dest: in_diffD)
qed (use s in \<open>auto simp: sound_calls_def on_major_syncing_def submit_finish_def dest: in_diffD split: if_splits\<close>)

lemma bounded_step:
  assumes "length (builds (wrk m)) \<le> MAX_LIVE_TASKS" "one_head (builds (wrk m))" "wstep send alg meta_of m m'"
  shows "length (builds (wrk m')) \<le> MAX_LIVE_TASKS \<and> one_head (builds (wrk m'))"
  using assms(3)
proof cases
  case (took ph sl b w)
  note take = submit_take_SomeD [OF took(3)]
  have "length (builds w) \<le> MAX_LIVE_TASKS"
    using take(4) assms(1) by linarith
  then show ?thesis
    using took(1) take(5) assms(2) by simp
qed (use assms(1,2) in \<open>auto simp: length_on_build one_head_on_build on_major_syncing_def submit_finish_def one_head_nil\<close>)

lemma winv_alt: "winv alg meta_of m \<longleftrightarrow>
  length (builds (wrk m)) \<le> MAX_LIVE_TASKS \<and> one_head (builds (wrk m)) \<and> sound_calls alg meta_of m \<and> conserved m"
  by (simp add: winv_def sound_calls_def conserved_def add.assoc)

interpretation worker_machine: invariant_system winit "wstep send alg meta_of" "winv alg meta_of"
  for send :: "nat \<Rightarrow> 'w \<Rightarrow> 'w" and alg :: "'e pow_alg" and meta_of
proof
  fix m m' :: "('r, 'x, 's, 'w) mstate"
  show "winit m \<Longrightarrow> winv alg meta_of m"
    by (auto simp: winit_def winv_def new_worker_def one_head_def)
  show "winv alg meta_of m \<Longrightarrow> wstep send alg meta_of m m' \<Longrightarrow> winv alg meta_of m'"
    unfolding winv_alt using bounded_step [of m send alg meta_of m'] sound_calls_step [of alg meta_of m send m']
      conserved_step [of m send alg meta_of m'] by simp
qed

lemma submit_take_lookup: "submit_take send ph w = None \<longleftrightarrow> submit_lookup ph w = None"
proof -
  have "submit_take send ph w = None \<longleftrightarrow> List.extract (\<lambda>b. mpre_hash (meta b) = ph) (builds w) = None"
    by (auto simp: submit_take_def split: option.splits)
  then show ?thesis
    by (auto simp: submit_lookup_def extract_None_iff find_None_iff)
qed

text \<open>Errors that would blame the sealed proposal itself.\<close>

definition seal_error :: "'e cons_error \<Rightarrow> bool" where
  "seal_error err \<longleftrightarrow> err = InvalidSeal \<or> err = MissingTimestampInherent \<or> err = MultiplePreRuntimeDigests
     \<or> (\<exists>e. err = Algorithm_error e)"

lemma read_aux_error: "read_aux env h = Inl e \<Longrightarrow> \<not> seal_error e"
  by (auto simp: read_aux_def seal_error_def split: sum.splits option.splits)

lemma walk_back_error: "walk_back H k h n = Inl e \<Longrightarrow> \<not> seal_error e"
proof (induction H k h n rule: walk_back.induct)
  case (1 H k h n)
  from 1(2) show ?case
    by (subst (asm) walk_back.simps)
      (auto simp: seal_error_def simp del: walk_back.simps dest: 1(1) [unfolded seal_error_def]
        split: if_splits sum.splits option.splits)
qed

lemma finality_error: "finality_conflicts a b c d f H = Inl e \<Longrightarrow> \<not> seal_error e"
  by (auto simp: finality_conflicts_def bind_res_Inl_iff simp del: walk_back.simps dest: walk_back_error split: if_splits)

lemma fetch_seal_error: "fetch_seal p l h = Inl e \<Longrightarrow> \<not> seal_error e"
  by (auto simp: fetch_seal_def seal_error_def split: option.splits digest_item.splits if_splits)

lemma choose_fork_error: "choose_fork env alg bh best aux sl b = Inl e \<Longrightarrow> \<not> seal_error e"
  by (auto simp: choose_fork_def bind_res_Inl_iff dest: finality_error fetch_seal_error split: if_splits)

lemma check_inherents_error: "check_inherents env blk h p = Inl e \<Longrightarrow> \<not> seal_error e"
  by (auto simp: check_inherents_def seal_error_def split: sum.splits if_splits inherents_failure.splits)

text \<open>An import whose sealed block passes every check of its own is not refused because of it.\<close>

lemma prepare_import_not_seal_error:
  fixes env :: "('r, 'x, 'e, 'p) pow_env"
  assumes "prepare_import env alg b = Inl e" "body b = Some (x # xs)"
    and "\<And>h. fetch_seal (pow_engine env) (last_log (post_digests b)) h = (Inr s :: 'e cons_error + bytes)"
    and "alg_difficulty alg (parent_hash (bheader b)) (encode_xt env x) = Inr d"
    and "find_pre_digest (pow_engine env) (bheader b) = (Inr pre :: 'e cons_error + bytes option)"
    and "alg_verify alg (Block_hash (parent_hash (bheader b))) (hash_of env (bheader b)) pre s d = Inr True"
  shows "\<not> seal_error e"
  using assms(1) unfolding prepare_import_def
  by (auto simp: assms(2-) ensure_def Let_def bind_res_Inl_iff
      dest: read_aux_error check_inherents_error choose_fork_error split: sum.splits if_splits)
    (auto simp: seal_error_def)

text \<open>A turn of the loop that changes the queue outside of syncing has made one build.\<close>

lemma mining_tick_build:
  assumes "\<not> major_syncing t" "mining_tick send env alg pre_rt t w \<noteq> w"
  obtains b x xs where "mining_tick send env alg pre_rt t w = on_build send b w"
    "mpre_hash (meta b) = hash_of env (prop_header b)" "pre_runtime (meta b) = pre_rt" "prop_body b = x # xs"
    "alg_difficulty alg (best_hash (meta b)) (encode_xt env x) = Inr (mdifficulty (meta b))"
  using assms by (auto simp: mining_tick_def Let_def split: sum.splits prod.splits list.splits)

section \<open>Properties\<close>

text \<open>
  C10: Under every interleaving of new tasks, sync resets and concurrent submissions, the task
  queue stays within its cap and belongs to one head, everything that reaches block import is
  a build the loop made, as often as it was made and no more, and it carries a seal that the
  algorithm accepted for that build's own metadata.
\<close>

theorem worker_imports_each_build_once:
  assumes "reachable winit (wstep send alg meta_of) m"
  shows "image_mset fst (attempted m) \<subseteq># produced m
    \<and> (\<forall>b sl. (b, sl) \<in># attempted m \<longrightarrow> alg_verify alg (Block_hash (best_hash (meta b))) (mpre_hash (meta b))
        (pre_runtime (meta b)) sl (mdifficulty (meta b)) = Inr True)
    \<and> length (builds (wrk m)) \<le> MAX_LIVE_TASKS
    \<and> (\<forall>b \<in> set (builds (wrk m)). \<forall>b' \<in> set (builds (wrk m)). best_hash (meta b) = best_hash (meta b'))"
proof -
  have inv: "winv alg meta_of m"
    by (rule worker_machine.reachable_inv [OF assms])
  then have c: "conserved m" and s: "sound_calls alg meta_of m" and o: "one_head (builds (wrk m))"
    and l: "length (builds (wrk m)) \<le> MAX_LIVE_TASKS"
    by (simp_all add: winv_alt)
  have "image_mset fst (attempted m) \<subseteq># mset (builds (wrk m)) + (image_mset fst (taken m) + image_mset fst (attempted m))"
    by (simp add: subseteq_mset_def)
  from subset_mset.order_trans [OF this c [unfolded conserved_def]]
  have "image_mset fst (attempted m) \<subseteq># produced m" .
  moreover have "submit_verify alg (meta b) sl" if "(b, sl) \<in># attempted m" for b sl
    using s that by (auto simp: sound_calls_def)
  moreover have "best_hash (meta b) = best_hash (meta b')" if "b \<in> set (builds (wrk m))" "b' \<in> set (builds (wrk m))" for b b'
    using o that by (auto simp: one_head_def)
  ultimately show ?thesis
    using l unfolding submit_verify_iff by blast
qed

definition sample_build :: "(unit, nat, unit) build" where
  "sample_build = \<lparr> meta = \<lparr> best_hash = [0], mpre_hash = [1], pre_runtime = Some [5], mdifficulty = 1 \<rparr>,
     prop_header = bheader sample_block, prop_body = [1700000000000], storage_changes = () \<rparr>"

definition sample_machine :: "nat \<Rightarrow> (unit, nat, unit, nat) mstate" where
  "sample_machine v = \<lparr> wrk = new_worker 0, verified = {#}, taken = {#}, attempted = {#}, produced = {#} \<rparr>
     \<lparr> wrk := on_build (\<lambda>v c. v) sample_build (new_worker 0), produced := {#sample_build#} \<rparr>"

theorem worker_imports_each_build_once_witness:
  "length (builds (wrk (sample_machine 0))) \<le> MAX_LIVE_TASKS \<and> produced (sample_machine 0) = {#sample_build#}"
proof -
  have "reachable winit (wstep (\<lambda>v c. v) sample_alg (\<lambda>_. meta sample_build))
      (\<lparr> wrk = new_worker 0, verified = {#}, taken = {#}, attempted = {#}, produced = {#} \<rparr> :: (unit, nat, unit, nat) mstate)"
    by (rule reach_init) (auto simp: winit_def)
  from reach_step [OF this built [of sample_build]]
  have "reachable winit (wstep (\<lambda>v c. v) sample_alg (\<lambda>_. meta sample_build)) (sample_machine 0)"
    by (simp add: sample_machine_def)
  from worker_imports_each_build_once [OF this] show ?thesis
    by (simp add: sample_machine_def)
qed

text \<open>
  The outcome of a submission. Without a task for the pre-hash, or with a seal the
  algorithm does not accept for that task, nothing changes and the answer is no. Otherwise
  exactly one build, the first with that pre-hash, leaves the queue and is imported with the
  seal attached, the answer is the import's, and a successful import empties the queue.
\<close>

theorem submit_outcome:
  shows "if (\<exists>m. submit_lookup ph w = Some m \<and> submit_verify alg m sl)
    then \<exists>b w1. submit_take send ph w = Some (b, w1) \<and> mset (builds w) = add_mset b (mset (builds w1)) \<and> mpre_hash (meta b) = ph
      \<and> submit send pow_id alg imp ph sl w c =
        (let (ok, c') = imp (import_params_of pow_id b sl) (storage_changes b) c
         in (ok, if ok then increment_version send (w1 \<lparr> builds := [] \<rparr>) else w1, c'))
    else submit send pow_id alg imp ph sl w c = (False, w, c)"
proof (cases "\<exists>m. submit_lookup ph w = Some m \<and> submit_verify alg m sl")
  case True
  then obtain m where m: "submit_lookup ph w = Some m" "submit_verify alg m sl"
    by blast
  obtain b w1 where t: "submit_take send ph w = Some (b, w1)"
    using m(1) submit_take_lookup [of send ph w] by auto
  show ?thesis
    using True m t submit_take_SomeD(1,2) [OF t] by (simp add: submit_def submit_finish_def)
qed (auto simp: submit_def split: option.splits)

text \<open>
  C26: A seal that the worker accepts is never refused by block import. For a task built by the
  loop whose header builds on the head and carries the configured author digest, importing
  the sealed proposal cannot fail with an invalid seal, a missing timestamp, a duplicate
  author digest or an error of the algorithm: the difficulty and the seal are checked at
  import against the same values as at submission.
\<close>

theorem submitted_seal_passes_import:
  fixes env :: "('r, 'x, 'e, 'p) pow_env"
  assumes "\<not> major_syncing t" "mining_tick send env alg pre_rt t w \<noteq> w"
  shows "\<exists>b. mining_tick send env alg pre_rt t w = on_build send b w \<and>
    (\<forall>sl err. parent_hash (prop_header b) = best_hash (meta b) \<longrightarrow>
      find_pre_digest (pow_engine env) (prop_header b) = (Inr pre_rt :: 'e cons_error + bytes option) \<longrightarrow> submit_verify alg (meta b) sl \<longrightarrow>
      prepare_import env alg (import_params_of (pow_engine env) b sl) = Inl err \<longrightarrow> \<not> seal_error err)"
proof -
  from assms obtain b x xs where b: "mining_tick send env alg pre_rt t w = on_build send b w"
    "mpre_hash (meta b) = hash_of env (prop_header b)" "pre_runtime (meta b) = pre_rt" "prop_body b = x # xs"
    "alg_difficulty alg (best_hash (meta b)) (encode_xt env x) = Inr (mdifficulty (meta b))"
    by (rule mining_tick_build)
  show ?thesis
  proof (intro exI [of _ b] conjI allI impI b(1))
    fix sl err
    assume p: "parent_hash (prop_header b) = best_hash (meta b)"
      and pd: "find_pre_digest (pow_engine env) (prop_header b) = (Inr pre_rt :: 'e cons_error + bytes option)"
      and v: "submit_verify alg (meta b) sl"
      and err: "prepare_import env alg (import_params_of (pow_engine env) b sl) = Inl err"
    have "alg_verify alg (Block_hash (best_hash (meta b))) (hash_of env (prop_header b)) pre_rt sl (mdifficulty (meta b)) = Inr True"
      using v b(2,3) by (auto simp: submit_verify_def split: sum.splits bool.splits)
    then show "\<not> seal_error err"
      using prepare_import_not_seal_error [OF err] b(4,5) pd
      by (simp add: import_params_of_def fetch_seal_def last_log_def p)
  qed
qed

definition sample_tick :: "(unit, nat, unit, unit) tick" where
  "sample_tick = \<lparr> major_syncing = False, tick_best = Inr \<lparr> parent_hash = [], number = 0, logs = [], rest = () \<rparr>,
     tick_providers = Inr (Inr ()), tick_proposer = Inr (),
     tick_proposal = (\<lambda>ls. Inr ((\<lparr> parent_hash = [0], number = 1, logs = ls, rest = () \<rparr>, [1700000000000]), ())) \<rparr>"

lemma sample_tick_eq:
  "mining_tick (\<lambda>v c. v) sample_pow_env sample_alg (Some [5]) sample_tick (new_worker 0) = on_build (\<lambda>v c. v) sample_build (new_worker 0)"
  by (simp add: mining_tick_def sample_tick_def sample_pow_env_def sample_alg_def sample_build_def sample_block_def
      poscan_alg_def poscan_difficulty_def)

theorem submitted_seal_passes_import_witness:
  "submit_verify sample_alg (meta sample_build) (encode_seal sample_seal) \<and>
   (case prepare_import sample_pow_env sample_alg (import_params_of [112] sample_build (encode_seal sample_seal)) of
      Inl err \<Rightarrow> \<not> seal_error err | Inr _ \<Rightarrow> True)"
proof -
  have single: "builds (on_build (\<lambda>v c. v) b (new_worker (0::nat))) = [b]" for b :: "(unit, nat, unit) build"
    by (simp add: on_build_builds kept_def new_worker_def MAX_LIVE_TASKS_def)
  have ne: "mining_tick (\<lambda>v c. v) sample_pow_env sample_alg (Some [5]) sample_tick (new_worker 0) \<noteq> new_worker 0"
    using single [of sample_build] unfolding sample_tick_eq by (auto simp: new_worker_def)
  have "\<not> major_syncing sample_tick"
    by (simp add: sample_tick_def)
  from submitted_seal_passes_import [OF this ne] obtain b where
    b: "on_build (\<lambda>v c. v) sample_build (new_worker 0) = on_build (\<lambda>v c. v) b (new_worker 0)" and
    imp: "\<And>sl err. parent_hash (prop_header b) = best_hash (meta b) \<Longrightarrow>
      find_pre_digest (pow_engine sample_pow_env) (prop_header b) = (Inr (Some [5]) :: unit cons_error + bytes option) \<Longrightarrow>
      submit_verify sample_alg (meta b) sl \<Longrightarrow>
      prepare_import sample_pow_env sample_alg (import_params_of (pow_engine sample_pow_env) b sl) = Inl err \<Longrightarrow> \<not> seal_error err"
    unfolding sample_tick_eq by blast
  have "b = sample_build"
    using arg_cong [OF b, of builds] by (simp add: single)
  moreover have v: "submit_verify sample_alg (meta sample_build) (encode_seal sample_seal)"
    using sample_seal_ok by (simp add: submit_verify_iff sample_build_def sample_alg_def poscan_alg_def poscan_verify_def runtime_verify_api_def)
  moreover have "parent_hash (prop_header sample_build) = best_hash (meta sample_build)"
    "find_pre_digest (pow_engine sample_pow_env) (prop_header sample_build) = (Inr (Some [5]) :: unit cons_error + bytes option)"
    by (simp_all add: sample_build_def sample_block_def sample_pow_env_def find_pre_digest_def)
  moreover have "pow_engine sample_pow_env = [112]"
    by (simp add: sample_pow_env_def)
  ultimately show ?thesis
    using imp [of "encode_seal sample_seal"] by (simp split: sum.split)
qed

end
