(* ===== verification/Computations.thy ===== *)
theory Computations
  imports Prelude
begin

text \<open>
  Stateful code that can fail: a computation takes the state and gives an error or a result with
  the new state, the way a Rust function over \<open>&mut\<close> state that returns a \<open>Result\<close> does with
  its \<open>?\<close> operator. \<open>atomic\<close> is a call boundary that undoes every change of a failed call.
\<close>

type_synonym ('s, 'e, 'a) comp = "'s \<Rightarrow> 'e + 'a \<times> 's"

definition return_c :: "'a \<Rightarrow> ('s, 'e, 'a) comp" where
  "return_c x s = Inr (x, s)"

definition fail_c :: "'e \<Rightarrow> ('s, 'e, 'a) comp" where
  "fail_c e s = Inl e"

definition bind_c :: "('s, 'e, 'a) comp \<Rightarrow> ('a \<Rightarrow> ('s, 'e, 'b) comp) \<Rightarrow> ('s, 'e, 'b) comp" where
  "bind_c m f s = (case m s of Inl e \<Rightarrow> Inl e | Inr (x, s') \<Rightarrow> f x s')"

definition then_c :: "('s, 'e, 'a) comp \<Rightarrow> ('s, 'e, 'b) comp \<Rightarrow> ('s, 'e, 'b) comp" where
  "then_c m n = bind_c m (\<lambda>_. n)"

definition read_c :: "('s \<Rightarrow> 'a) \<Rightarrow> ('s, 'e, 'a) comp" where
  "read_c f s = Inr (f s, s)"

definition modify_c :: "('s \<Rightarrow> 's) \<Rightarrow> ('s, 'e, unit) comp" where
  "modify_c f s = Inr ((), f s)"

definition check_c :: "bool \<Rightarrow> 'e \<Rightarrow> ('s, 'e, unit) comp" where
  "check_c b e s = (if b then Inr ((), s) else Inl e)"

definition lift_c :: "'e + 'a \<Rightarrow> ('s, 'e, 'a) comp" where
  "lift_c r s = (case r of Inl e \<Rightarrow> Inl e | Inr x \<Rightarrow> Inr (x, s))"

definition atomic :: "('s, 'e, 'a) comp \<Rightarrow> 's \<Rightarrow> ('e + 'a) \<times> 's" where
  "atomic m s = (case m s of Inl e \<Rightarrow> (Inl e, s) | Inr (x, s') \<Rightarrow> (Inr x, s'))"

lemma return_c_Inr_iff [simp]: "return_c x s = Inr (y, s') \<longleftrightarrow> x = y \<and> s = s'"
  by (simp add: return_c_def)

lemma fail_c_Inr [simp]: "fail_c e s = Inr y \<longleftrightarrow> False"
  by (simp add: fail_c_def)

lemma bind_c_Inr_iff [simp]:
  "bind_c m f s = Inr y \<longleftrightarrow> (\<exists>x s'. m s = Inr (x, s') \<and> f x s' = Inr y)"
  by (auto simp: bind_c_def split: sum.splits prod.splits)

lemma then_c_Inr_iff [simp]:
  "then_c m n s = Inr y \<longleftrightarrow> (\<exists>x s'. m s = Inr (x, s') \<and> n s' = Inr y)"
  by (simp add: then_c_def)

lemma read_c_Inr_iff [simp]: "read_c f s = Inr (y, s') \<longleftrightarrow> y = f s \<and> s' = s"
  by (auto simp: read_c_def)

lemma modify_c_Inr_iff [simp]: "modify_c f s = Inr (y, s') \<longleftrightarrow> s' = f s"
  by (auto simp: modify_c_def)

lemma check_c_Inr_iff [simp]: "check_c b e s = Inr (y, s') \<longleftrightarrow> b \<and> s' = s"
  by (auto simp: check_c_def)

lemma lift_c_Inr_iff [simp]: "lift_c r s = Inr (y, s') \<longleftrightarrow> r = Inr y \<and> s' = s"
  by (auto simp: lift_c_def split: sum.splits)

lemma map_sum_Inr_iff [simp]: "map_sum f id m = Inr y \<longleftrightarrow> m = Inr y"
  by (cases m) auto

lemma comp_Inl_iff:
  "bind_c m f s = Inl e \<longleftrightarrow> m s = Inl e \<or> (\<exists>x s'. m s = Inr (x, s') \<and> f x s' = Inl e)"
  "then_c m n s = Inl e \<longleftrightarrow> m s = Inl e \<or> (\<exists>x s'. m s = Inr (x, s') \<and> n s' = Inl e)"
  "return_c x s = Inl e \<longleftrightarrow> False" "read_c g s = Inl e \<longleftrightarrow> False" "modify_c h s = Inl e \<longleftrightarrow> False"
  by (auto simp: bind_c_def then_c_def return_c_def read_c_def modify_c_def split: sum.splits prod.splits)

text \<open>For evaluation on concrete states.\<close>

lemmas comp_eval = return_c_def fail_c_def bind_c_def then_c_def read_c_def modify_c_def check_c_def lift_c_def

end
