(* ===== verification/Erc20.thy ===== *)
theory Erc20
  imports Computations Bytes
begin

text \<open>
  The native token as an ERC20 (\<open>runtime/src/balances_erc20.rs\<close>, the precompile). The storage maps
  \<open>Allowances\<close> and \<open>Nonces\<close>, the ledger, the weight meter and the emitted logs are one record; every
  function of the file is a computation over it. The ledger is \<open>pallet_balances\<close> and the call
  environment is \<open>pallet_revive\<close>: both are parameters, in the records \<open>ledger_ops\<close> and \<open>platform\<close>.
  Addresses, account ids and hashes are byte strings, 256-bit numbers are natural numbers, and the
  ABI encoding of a return value is left as the value.
\<close>

type_synonym h160 = bytes
type_synonym account = bytes
type_synonym weight = "nat \<times> nat"

section \<open>Constants\<close>

definition SLOT :: nat where
  "SLOT = 0x0802"

definition NAME :: string where
  "NAME = ''Numen''"

definition SYMBOL :: string where
  "SYMBOL = ''NUMN''"

definition DECIMALS :: nat where
  "DECIMALS = 18"

definition slot_address :: "nat \<Rightarrow> h160" where
  "slot_address pos =
     (let address = replicate 20 0; slot = be_bytes 2 SLOT
      in address[pos := slot ! 0, pos + 1 := slot ! 1])"

definition ADDRESS :: h160 where
  "ADDRESS = slot_address 18"

definition PRECOMPILE :: h160 where
  "PRECOMPILE = slot_address 16"

text \<open>A byte string literal.\<close>

definition ascii :: "string \<Rightarrow> bytes" where
  "ascii s = map of_char s"

section \<open>Interface and state\<close>

datatype Call =
    Name_call | Symbol_call | Decimals_call | TotalSupply_call
  | BalanceOf_call h160
  | Allowance_call h160 h160
  | Approve_call h160 nat
  | Transfer_call h160 nat
  | TransferFrom_call h160 h160 nat
  | Withdraw_call account nat
  | Deposit_call
  | Nonces_call h160
  | Domain_separator_call
  | Permit_call h160 h160 nat nat nat bytes bytes

datatype Event =
    Transfer_event h160 h160 nat
  | Approval_event h160 h160 nat
  | Deposit_event h160 nat
  | Withdrawal_event h160 account nat

datatype return_value = Ret_string string | Ret_uint nat | Ret_bool bool | Ret_bytes32 bytes | Ret_empty

datatype 'e erc20_error = Revert string | Out_of_gas | Dispatch 'e

datatype cost =
    Charge weight
  | BalanceOf_cost | Caller_cost | ToAccountId_cost | EcdsaRecovery_cost | EcdsaToEthAddress_cost
  | HashKeccak256_cost nat
  | DepositEvent_cost nat nat

record ('l, 'e) ledger_ops =
  l_transfer :: "account \<Rightarrow> account \<Rightarrow> nat \<Rightarrow> 'l \<Rightarrow> 'e + 'l"
  l_mint_into :: "account \<Rightarrow> nat \<Rightarrow> 'l \<Rightarrow> 'e + 'l"
  l_deactivate :: "nat \<Rightarrow> 'l \<Rightarrow> 'l"
  l_total_issuance :: "'l \<Rightarrow> nat"
  l_minimum_balance :: nat
  l_account_exists :: "account \<Rightarrow> 'l \<Rightarrow> bool"
  l_evm_balance :: "h160 \<Rightarrow> 'l \<Rightarrow> nat"

record 'g platform =
  try_charge :: "cost \<Rightarrow> 'g \<Rightarrow> 'g option"
  to_address :: "account \<Rightarrow> h160"
  to_account_id :: "h160 \<Rightarrow> account"
  keccak256 :: "bytes \<Rightarrow> bytes"
  ecdsa_recover :: "bytes \<Rightarrow> bytes \<Rightarrow> bytes option"
  ecdsa_to_eth_address :: "bytes \<Rightarrow> h160 option"
  transfer_keep_alive_weight :: weight
  db_read_weight :: "nat \<Rightarrow> weight"
  db_write_weight :: "nat \<Rightarrow> weight"

text \<open>The call frame: the address that runs, its account, the caller if it is an account, and the block's time and chain.\<close>

record frame =
  env_address :: h160
  env_account_id :: account
  env_caller :: "account option"
  env_read_only :: bool
  env_value :: nat
  env_now :: nat
  env_chain_id :: nat

record ('l, 'g) erc20_state =
  ledger :: 'l
  Allowances :: "h160 \<Rightarrow> h160 \<Rightarrow> nat"
  Nonces :: "h160 \<Rightarrow> nat"
  meter :: 'g
  logs :: "Event list"

type_synonym ('l, 'g, 'e, 'a) erc20_comp = "(('l, 'g) erc20_state, 'e erc20_error, 'a) comp"

section \<open>Helpers\<close>

definition weight_add :: "weight \<Rightarrow> weight \<Rightarrow> weight" where
  "weight_add a b = (sat_add 64 (fst a) (fst b), sat_add 64 (snd a) (snd b))"

definition db_reads :: "'g platform \<Rightarrow> nat \<Rightarrow> weight" where
  "db_reads pf count = db_read_weight pf count"

definition db_writes :: "'g platform \<Rightarrow> nat \<Rightarrow> weight" where
  "db_writes pf count = db_write_weight pf count"

definition transfer_weight :: "'g platform \<Rightarrow> weight" where
  "transfer_weight pf = weight_add (transfer_keep_alive_weight pf) (db_writes pf 2)"

definition charge :: "'g platform \<Rightarrow> cost \<Rightarrow> ('l, 'g, 'e, unit) erc20_comp" where
  "charge pf c st = (case try_charge pf c (meter st) of
     None \<Rightarrow> Inl Out_of_gas
   | Some g \<Rightarrow> Inr ((), st \<lparr> meter := g \<rparr>))"

definition revert :: "string \<Rightarrow> ('l, 'g, 'e, 'a) erc20_comp" where
  "revert reason = fail_c (Revert reason)"

definition to_evm :: "nat \<Rightarrow> nat" where
  "to_evm value = be_val (be_bytes 32 value)"

definition from_evm :: "nat \<Rightarrow> nat" where
  "from_evm value = be_val (be_bytes 32 value)"

definition num_topics :: "Event \<Rightarrow> nat" where
  "num_topics ev = (case ev of Transfer_event _ _ _ \<Rightarrow> 3 | Approval_event _ _ _ \<Rightarrow> 3 | Deposit_event _ _ \<Rightarrow> 2
     | Withdrawal_event _ _ _ \<Rightarrow> 3)"

definition emit :: "'g platform \<Rightarrow> Event \<Rightarrow> ('l, 'g, 'e, unit) erc20_comp" where
  "emit pf ev = then_c (charge pf (DepositEvent_cost (num_topics ev) 32)) (modify_c (\<lambda>st. st \<lparr> logs := logs st @ [ev] \<rparr>))"

definition caller :: "'g platform \<Rightarrow> frame \<Rightarrow> ('l, 'g, 'e, account \<times> h160) erc20_comp" where
  "caller pf env = then_c (charge pf Caller_cost)
     (case env_caller env of
        None \<Rightarrow> revert ''ERC20: no account to act for''
      | Some acc \<Rightarrow> return_c (acc, to_address pf acc))"

definition account_of :: "'g platform \<Rightarrow> h160 \<Rightarrow> ('l, 'g, 'e, account) erc20_comp" where
  "account_of pf address = then_c (charge pf ToAccountId_cost) (return_c (to_account_id pf address))"

definition with_ledger :: "('l \<Rightarrow> 'e erc20_error + 'l) \<Rightarrow> ('l, 'g, 'e, unit) erc20_comp" where
  "with_ledger f st = (case f (ledger st) of Inl e \<Rightarrow> Inl e | Inr l \<Rightarrow> Inr ((), st \<lparr> ledger := l \<rparr>))"

definition move_funds :: "('l, 'e) ledger_ops \<Rightarrow> account \<Rightarrow> account \<Rightarrow> nat \<Rightarrow> ('l, 'g, 'e, unit) erc20_comp" where
  "move_funds bal from_acc to_acc value =
     (if U128_MAX < value then revert ''ERC20: amount overflow''
      else if value = 0 then return_c ()
      else
        then_c
          (bind_c (read_c (\<lambda>st. l_account_exists bal to_acc (ledger st))) (\<lambda>ex.
             if \<not> ex then
               then_c (with_ledger (\<lambda>l. map_sum Dispatch id (l_mint_into bal to_acc (l_minimum_balance bal) l)))
                      (with_ledger (\<lambda>l. Inr (l_deactivate bal (l_minimum_balance bal) l)))
             else return_c ()))
          (with_ledger (\<lambda>l. map_sum (\<lambda>_. Revert ''ERC20: transfer failed'') id (l_transfer bal from_acc to_acc value l))))"

definition keccak :: "'g platform \<Rightarrow> bytes \<Rightarrow> ('l, 'g, 'e, bytes) erc20_comp" where
  "keccak pf data = then_c (charge pf (HashKeccak256_cost (length data mod 2 ^ 32))) (return_c (keccak256 pf data))"

section \<open>Signatures\<close>

definition domain_separator :: "'g platform \<Rightarrow> frame \<Rightarrow> ('l, 'g, 'e, bytes) erc20_comp" where
  "domain_separator pf env =
     bind_c (keccak pf (ascii ''EIP712Domain(string name,string version,uint256 chainId,address verifyingContract)'')) (\<lambda>type_hash.
     bind_c (keccak pf (ascii NAME)) (\<lambda>name_hash.
     bind_c (keccak pf (ascii ''1'')) (\<lambda>version_hash.
     keccak pf (type_hash @ name_hash @ version_hash @ be_bytes 32 (env_chain_id env) @ replicate 12 0 @ ADDRESS))))"

definition permit_struct :: "bytes \<Rightarrow> h160 \<Rightarrow> h160 \<Rightarrow> nat \<Rightarrow> nat \<Rightarrow> nat \<Rightarrow> bytes" where
  "permit_struct type_hash owner spender value nonce deadline =
     type_hash @ (replicate 12 0 @ owner) @ (replicate 12 0 @ spender) @ be_bytes 32 value @ be_bytes 32 nonce @ be_bytes 32 deadline"

definition signer :: "'g platform \<Rightarrow> bytes \<Rightarrow> nat \<Rightarrow> bytes \<Rightarrow> bytes \<Rightarrow> ('l, 'g, 'e, h160 option) erc20_comp" where
  "signer pf digest v r s =
     (let go = (\<lambda>recovery_id.
        then_c (charge pf EcdsaRecovery_cost)
          (case ecdsa_recover pf (r @ s @ [word_of_nat recovery_id]) digest of
             None \<Rightarrow> return_c None
           | Some public \<Rightarrow>
               then_c (charge pf EcdsaToEthAddress_cost) (return_c (ecdsa_to_eth_address pf public))))
      in if v = 27 \<or> v = 28 then go (v - 27)
         else if v = 0 \<or> v = 1 then go v
         else return_c None)"

section \<open>Operations\<close>

definition total_supply :: "('l, 'e) ledger_ops \<Rightarrow> 'g platform \<Rightarrow> ('l, 'g, 'e, return_value) erc20_comp" where
  "total_supply bal pf =
     then_c (charge pf (Charge (db_reads pf 1)))
       (bind_c (read_c (\<lambda>st. l_total_issuance bal (ledger st))) (\<lambda>supply. return_c (Ret_uint supply)))"

definition balance_of :: "('l, 'e) ledger_ops \<Rightarrow> 'g platform \<Rightarrow> h160 \<Rightarrow> ('l, 'g, 'e, return_value) erc20_comp" where
  "balance_of bal pf owner =
     then_c (charge pf BalanceOf_cost)
       (bind_c (read_c (\<lambda>st. l_evm_balance bal owner (ledger st))) (\<lambda>balance. return_c (Ret_uint (to_evm balance))))"

definition allowance :: "'g platform \<Rightarrow> h160 \<Rightarrow> h160 \<Rightarrow> ('l, 'g, 'e, return_value) erc20_comp" where
  "allowance pf owner spender =
     then_c (charge pf (Charge (db_reads pf 1)))
       (bind_c (read_c (\<lambda>st. Allowances st owner spender)) (\<lambda>value. return_c (Ret_uint (to_evm value))))"

definition insert_allowance :: "h160 \<Rightarrow> h160 \<Rightarrow> nat \<Rightarrow> ('l, 'g, 'e, unit) erc20_comp" where
  "insert_allowance owner spender value =
     modify_c (\<lambda>st. st \<lparr> Allowances := (Allowances st)(owner := (Allowances st owner)(spender := value)) \<rparr>)"

definition approve :: "'g platform \<Rightarrow> frame \<Rightarrow> h160 \<Rightarrow> nat \<Rightarrow> ('l, 'g, 'e, return_value) erc20_comp" where
  "approve pf env spender value =
     then_c (charge pf (Charge (db_writes pf 1)))
       (bind_c (caller pf env) (\<lambda>(_, owner).
        then_c (insert_allowance owner spender (from_evm value))
       (then_c (emit pf (Approval_event owner spender value))
        (return_c (Ret_bool True)))))"

definition transfer :: "('l, 'e) ledger_ops \<Rightarrow> 'g platform \<Rightarrow> frame \<Rightarrow> h160 \<Rightarrow> nat \<Rightarrow> ('l, 'g, 'e, return_value) erc20_comp" where
  "transfer bal pf env to_addr value =
     then_c (charge pf (Charge (transfer_weight pf)))
       (bind_c (caller pf env) (\<lambda>(from_account, from_addr).
        bind_c (account_of pf to_addr) (\<lambda>to_acc.
        then_c (move_funds bal from_account to_acc value)
       (then_c (emit pf (Transfer_event from_addr to_addr value))
        (return_c (Ret_bool True))))))"

definition spend_allowance :: "h160 \<Rightarrow> h160 \<Rightarrow> nat \<Rightarrow> ('l, 'g, 'e, unit) erc20_comp" where
  "spend_allowance from_addr spender value =
     (if from_addr \<noteq> spender then
        bind_c (read_c (\<lambda>st. checked_sub (Allowances st from_addr spender) (from_evm value))) (\<lambda>rest.
        case rest of
          None \<Rightarrow> revert ''ERC20: insufficient allowance''
        | Some left \<Rightarrow> insert_allowance from_addr spender left)
      else return_c ())"

definition transfer_from ::
  "('l, 'e) ledger_ops \<Rightarrow> 'g platform \<Rightarrow> frame \<Rightarrow> h160 \<Rightarrow> h160 \<Rightarrow> nat \<Rightarrow> ('l, 'g, 'e, return_value) erc20_comp" where
  "transfer_from bal pf env from_addr to_addr value =
     then_c (charge pf (Charge (weight_add (weight_add (transfer_weight pf) (db_reads pf 1)) (db_writes pf 1))))
       (bind_c (caller pf env) (\<lambda>(_, spender).
        then_c (spend_allowance from_addr spender value)
       (bind_c (account_of pf from_addr) (\<lambda>from_account.
        bind_c (account_of pf to_addr) (\<lambda>to_acc.
        then_c (move_funds bal from_account to_acc value)
       (then_c (emit pf (Transfer_event from_addr to_addr value))
        (return_c (Ret_bool True))))))))"

definition withdraw ::
  "('l, 'e) ledger_ops \<Rightarrow> 'g platform \<Rightarrow> frame \<Rightarrow> account \<Rightarrow> nat \<Rightarrow> ('l, 'g, 'e, return_value) erc20_comp" where
  "withdraw bal pf env dest value =
     then_c (charge pf (Charge (transfer_weight pf)))
       (bind_c (caller pf env) (\<lambda>(from_account, from_addr).
        then_c (move_funds bal from_account dest value)
       (then_c (emit pf (Withdrawal_event from_addr dest value))
        (return_c (Ret_bool True)))))"

definition deposit :: "('l, 'e) ledger_ops \<Rightarrow> 'g platform \<Rightarrow> frame \<Rightarrow> ('l, 'g, 'e, return_value) erc20_comp" where
  "deposit bal pf env =
     then_c (charge pf (Charge (transfer_weight pf)))
       (let value = env_value env in
        if value = 0 then revert ''ERC20: cannot deposit zero''
        else
          bind_c (caller pf env) (\<lambda>(to_account, to_addr).
          then_c (check_c (value \<le> U128_MAX) (Revert ''ERC20: amount overflow''))
         (then_c (with_ledger (\<lambda>l. map_sum (\<lambda>_. Revert ''ERC20: deposit refund failed'') id
            (l_transfer bal (env_account_id env) to_account value l)))
         (then_c (emit pf (Deposit_event to_addr (to_evm value)))
          (return_c Ret_empty)))))"

definition nonces :: "'g platform \<Rightarrow> h160 \<Rightarrow> ('l, 'g, 'e, return_value) erc20_comp" where
  "nonces pf owner =
     then_c (charge pf (Charge (db_reads pf 1)))
       (bind_c (read_c (\<lambda>st. Nonces st owner)) (\<lambda>nonce. return_c (Ret_uint (to_evm nonce))))"

definition domain :: "'g platform \<Rightarrow> frame \<Rightarrow> ('l, 'g, 'e, return_value) erc20_comp" where
  "domain pf env =
     then_c (charge pf (Charge (db_reads pf 1)))
       (bind_c (domain_separator pf env) (\<lambda>separator. return_c (Ret_bytes32 separator)))"

definition permit ::
  "'g platform \<Rightarrow> frame \<Rightarrow> h160 \<Rightarrow> h160 \<Rightarrow> nat \<Rightarrow> nat \<Rightarrow> nat \<Rightarrow> bytes \<Rightarrow> bytes \<Rightarrow> ('l, 'g, 'e, return_value) erc20_comp" where
  "permit pf env owner spender value deadline v r s =
     then_c (charge pf (Charge (weight_add (db_reads pf 2) (db_writes pf 2))))
       (if from_evm deadline < env_now env then revert ''Permit expired''
        else
          bind_c (read_c (\<lambda>st. Nonces st owner)) (\<lambda>nonce.
          bind_c (keccak pf (ascii ''Permit(address owner,address spender,uint256 value,uint256 nonce,uint256 deadline)'')) (\<lambda>type_hash.
          bind_c (domain_separator pf env) (\<lambda>separator.
          bind_c (keccak pf (permit_struct type_hash owner spender value nonce deadline)) (\<lambda>permit_hash.
          bind_c (keccak pf ([0x19, 0x01] @ separator @ permit_hash)) (\<lambda>digest.
          bind_c (signer pf digest v r s) (\<lambda>recovered.
          then_c (check_c (recovered = Some owner) (Revert ''Invalid permit''))
         (then_c (modify_c (\<lambda>st. st \<lparr> Nonces := (Nonces st)(owner := sat_add 256 nonce 1) \<rparr>))
         (then_c (insert_allowance owner spender (from_evm value))
         (then_c (emit pf (Approval_event owner spender value))
          (return_c Ret_empty)))))))))))"

definition writes :: "Call \<Rightarrow> bool" where
  "writes input = (case input of Approve_call _ _ \<Rightarrow> True | Transfer_call _ _ \<Rightarrow> True | TransferFrom_call _ _ _ \<Rightarrow> True
     | Withdraw_call _ _ \<Rightarrow> True | Deposit_call \<Rightarrow> True | Permit_call _ _ _ _ _ _ _ \<Rightarrow> True | _ \<Rightarrow> False)"

definition erc20_call :: "('l, 'e) ledger_ops \<Rightarrow> 'g platform \<Rightarrow> frame \<Rightarrow> Call \<Rightarrow> ('l, 'g, 'e, return_value) erc20_comp" where
  "erc20_call bal pf env input =
     (if env_address env \<noteq> ADDRESS then revert ''ERC20: call the token at 0x0000000000000000000000000000000000000802''
      else if writes input \<and> env_read_only env then revert ''Can't call non-static function in static context''
      else if input \<noteq> Deposit_call \<and> env_value env \<noteq> 0 then revert ''Function is not payable''
      else case input of
        Name_call \<Rightarrow> return_c (Ret_string NAME)
      | Symbol_call \<Rightarrow> return_c (Ret_string SYMBOL)
      | Decimals_call \<Rightarrow> return_c (Ret_uint DECIMALS)
      | TotalSupply_call \<Rightarrow> total_supply bal pf
      | BalanceOf_call owner \<Rightarrow> balance_of bal pf owner
      | Allowance_call owner spender \<Rightarrow> allowance pf owner spender
      | Approve_call spender value \<Rightarrow> approve pf env spender value
      | Transfer_call to_addr value \<Rightarrow> transfer bal pf env to_addr value
      | TransferFrom_call from_addr to_addr value \<Rightarrow> transfer_from bal pf env from_addr to_addr value
      | Withdraw_call dest value \<Rightarrow> withdraw bal pf env dest value
      | Deposit_call \<Rightarrow> deposit bal pf env
      | Nonces_call owner \<Rightarrow> nonces pf owner
      | Domain_separator_call \<Rightarrow> domain pf env
      | Permit_call owner spender value deadline v r s \<Rightarrow> permit pf env owner spender value deadline v r s)"

section \<open>The abstract token\<close>

text \<open>
  What an ERC20 with EIP-2612 permits promises, without gas, encodings or the storage behind it:
  balances, supply, allowances and permit nonces, and for every call the token it leads to, or
  nothing when the caller has no right to it. \<open>ex\<close> tells whether an account exists and \<open>ed\<close> is the
  deposit a fresh account is endowed with.
\<close>

record token =
  t_balance :: "account \<Rightarrow> nat"
  t_supply :: nat
  t_allowance :: "h160 \<Rightarrow> h160 \<Rightarrow> nat"
  t_nonce :: "h160 \<Rightarrow> nat"

definition token_of :: "('l, 'e) ledger_ops \<Rightarrow> (account \<Rightarrow> 'l \<Rightarrow> nat) \<Rightarrow> ('l, 'g) erc20_state \<Rightarrow> token" where
  "token_of bal B st = \<lparr> t_balance = (\<lambda>a. B a (ledger st)), t_supply = l_total_issuance bal (ledger st),
     t_allowance = Allowances st, t_nonce = Nonces st \<rparr>"

definition token_create :: "nat \<Rightarrow> account \<Rightarrow> token \<Rightarrow> token" where
  "token_create ed a t = t \<lparr> t_balance := (t_balance t)(a := t_balance t a + ed), t_supply := t_supply t + ed \<rparr>"

definition token_move :: "account \<Rightarrow> account \<Rightarrow> nat \<Rightarrow> token \<Rightarrow> token option" where
  "token_move a b v t =
     (if a = b then Some t
      else if v \<le> t_balance t a
      then Some (t \<lparr> t_balance := (t_balance t)(a := t_balance t a - v, b := t_balance t b + v) \<rparr>)
      else None)"

definition token_send :: "nat \<Rightarrow> (account \<Rightarrow> bool) \<Rightarrow> account \<Rightarrow> account \<Rightarrow> nat \<Rightarrow> token \<Rightarrow> token option" where
  "token_send ed ex a b v t =
     (if v = 0 then Some t else token_move a b v (if ex b then t else token_create ed b t))"

definition token_allow :: "h160 \<Rightarrow> h160 \<Rightarrow> nat \<Rightarrow> token \<Rightarrow> token" where
  "token_allow owner spender v t = t \<lparr> t_allowance := (t_allowance t)(owner := (t_allowance t owner)(spender := v)) \<rparr>"

definition permit_digest :: "'g platform \<Rightarrow> nat \<Rightarrow> h160 \<Rightarrow> h160 \<Rightarrow> nat \<Rightarrow> nat \<Rightarrow> nat \<Rightarrow> bytes" where
  "permit_digest pf chain owner spender value nonce deadline =
     (let h = keccak256 pf;
          separator = h (h (ascii ''EIP712Domain(string name,string version,uint256 chainId,address verifyingContract)'')
            @ h (ascii NAME) @ h (ascii ''1'') @ be_bytes 32 chain @ replicate 12 0 @ ADDRESS);
          type_hash = h (ascii ''Permit(address owner,address spender,uint256 value,uint256 nonce,uint256 deadline)'')
      in h ([0x19, 0x01] @ separator @ h (permit_struct type_hash owner spender value nonce deadline)))"

definition recovers :: "'g platform \<Rightarrow> bytes \<Rightarrow> nat \<Rightarrow> bytes \<Rightarrow> bytes \<Rightarrow> h160 \<Rightarrow> bool" where
  "recovers pf digest v r s owner \<longleftrightarrow> v \<in> {0, 1, 27, 28} \<and>
     (case ecdsa_recover pf (r @ s @ [word_of_nat (if 27 \<le> v then v - 27 else v)]) digest of
        None \<Rightarrow> False | Some public \<Rightarrow> ecdsa_to_eth_address pf public = Some owner)"

definition token_step :: "'g platform \<Rightarrow> frame \<Rightarrow> nat \<Rightarrow> (account \<Rightarrow> bool) \<Rightarrow> Call \<Rightarrow> token \<Rightarrow> token option" where
  "token_step pf env ed ex c t =
     (let who = (\<lambda>f. case env_caller env of None \<Rightarrow> None | Some a \<Rightarrow> f a (to_address pf a)) in
      case c of
        Approve_call spender v \<Rightarrow> who (\<lambda>a owner. Some (token_allow owner spender v t))
      | Transfer_call to_addr v \<Rightarrow> who (\<lambda>a addr. token_send ed ex a (to_account_id pf to_addr) v t)
      | TransferFrom_call f to_addr v \<Rightarrow> who (\<lambda>a spender.
          if f = spender then token_send ed ex (to_account_id pf f) (to_account_id pf to_addr) v t
          else if v \<le> t_allowance t f spender
          then token_send ed ex (to_account_id pf f) (to_account_id pf to_addr) v
                 (token_allow f spender (t_allowance t f spender - v) t)
          else None)
      | Withdraw_call dest v \<Rightarrow> who (\<lambda>a addr. token_send ed ex a dest v t)
      | Deposit_call \<Rightarrow> who (\<lambda>a addr. if env_value env = 0 then None else token_move (env_account_id env) a (env_value env) t)
      | Permit_call owner spender v deadline sv r s \<Rightarrow>
          (if env_now env \<le> deadline \<and>
              recovers pf (permit_digest pf (env_chain_id env) owner spender v (t_nonce t owner) deadline) sv r s owner
           then Some (token_allow owner spender v (t \<lparr> t_nonce := (t_nonce t)(owner := min (t_nonce t owner + 1) U256_MAX) \<rparr>))
           else None)
      | _ \<Rightarrow> Some t)"

text \<open>
  What the token relies on of the ledger: a transfer moves exactly its amount and needs the funds,
  minting raises one balance and the issuance, and marking issuance as inactive moves nothing.
  \<open>B\<close> is the balance of an account in a ledger.
\<close>

definition ledger_laws :: "('l, 'e) ledger_ops \<Rightarrow> (account \<Rightarrow> 'l \<Rightarrow> nat) \<Rightarrow> bool" where
  "ledger_laws bal B \<longleftrightarrow>
     (\<forall>a b v l l'. l_transfer bal a b v l = Inr l' \<longrightarrow>
        l_total_issuance bal l' = l_total_issuance bal l \<and>
        (a = b \<longrightarrow> (\<forall>x. B x l' = B x l)) \<and>
        (a \<noteq> b \<longrightarrow> v \<le> B a l \<and> (\<forall>x. B x l' = (if x = a then B a l - v else if x = b then B b l + v else B x l)))) \<and>
     (\<forall>a v l l'. l_mint_into bal a v l = Inr l' \<longrightarrow>
        l_total_issuance bal l' = l_total_issuance bal l + v \<and> (\<forall>x. B x l' = (if x = a then B a l + v else B x l))) \<and>
     (\<forall>v l. l_total_issuance bal (l_deactivate bal v l) = l_total_issuance bal l \<and> (\<forall>x. B x (l_deactivate bal v l) = B x l))"

definition call_wf :: "Call \<Rightarrow> bool" where
  "call_wf c = (case c of
      Approve_call _ v \<Rightarrow> v \<le> U256_MAX
    | Transfer_call _ v \<Rightarrow> v \<le> U256_MAX
    | TransferFrom_call _ _ v \<Rightarrow> v \<le> U256_MAX
    | Withdraw_call _ v \<Rightarrow> v \<le> U256_MAX
    | Permit_call _ _ v d _ _ _ \<Rightarrow> v \<le> U256_MAX \<and> d \<le> U256_MAX
    | _ \<Rightarrow> True)"
end
