(* ===== verification/Erc20Props.thy ===== *)
theory Erc20Props
  imports Erc20
begin

text \<open>
  Correctness of the ERC20: the computations of \<open>Erc20\<close> refine the abstract token, nobody loses
  funds without having authorised it, and a permit is good for one nonce only.
\<close>

section \<open>What the helpers leave alone\<close>

definition same_token :: "('l, 'g) erc20_state \<Rightarrow> ('l, 'g) erc20_state \<Rightarrow> bool" where
  "same_token st st' \<longleftrightarrow> ledger st' = ledger st \<and> Allowances st' = Allowances st \<and> Nonces st' = Nonces st"

named_theorems erc20_dest "what a successful helper returned and left alone"

lemma same_token_refl [simp]: "same_token st st"
  by (simp add: same_token_def)

lemma same_token_trans: "same_token a b \<Longrightarrow> same_token b c \<Longrightarrow> same_token a c"
  by (simp add: same_token_def)

lemma token_of_same: "same_token st st' \<Longrightarrow> token_of bal B st' = token_of bal B st"
  by (simp add: same_token_def token_of_def)

lemma evm_word [simp]: "v \<le> U256_MAX \<Longrightarrow> to_evm v = v" "v \<le> U256_MAX \<Longrightarrow> from_evm v = v"
  by (simp_all add: to_evm_def from_evm_def be_val_be_bytes U256_MAX_def)

lemma charge_Inr [erc20_dest]: "charge pf c st = Inr (u, st') \<Longrightarrow> same_token st st'"
  by (auto simp: charge_def same_token_def split: option.splits)

lemma emit_Inr [erc20_dest]: "emit pf ev st = Inr (u, st') \<Longrightarrow> same_token st st'"
  by (auto simp: emit_def same_token_def dest!: charge_Inr)

lemma revert_Inr [simp]: "revert r st = Inr y \<longleftrightarrow> False"
  by (simp add: revert_def)

lemma caller_Inr [erc20_dest]:
  "caller pf env st = Inr (x, st') \<Longrightarrow> \<exists>a. env_caller env = Some a \<and> x = (a, to_address pf a) \<and> same_token st st'"
  by (auto simp: caller_def split: option.splits dest!: charge_Inr)

lemma account_of_Inr [erc20_dest]:
  "account_of pf h st = Inr (a, st') \<Longrightarrow> a = to_account_id pf h \<and> same_token st st'"
  by (auto simp: account_of_def dest!: charge_Inr)

lemma keccak_Inr [erc20_dest]: "keccak pf d st = Inr (x, st') \<Longrightarrow> x = keccak256 pf d \<and> same_token st st'"
  by (auto simp: keccak_def dest!: charge_Inr)

lemma domain_separator_Inr [erc20_dest]:
  assumes "domain_separator pf env st = Inr (x, st')"
  shows "same_token st st' \<and> x = keccak256 pf (keccak256 pf
      (ascii ''EIP712Domain(string name,string version,uint256 chainId,address verifyingContract)'')
    @ keccak256 pf (ascii NAME) @ keccak256 pf (ascii ''1'') @ be_bytes 32 (env_chain_id env) @ replicate 12 0 @ ADDRESS)"
  using assms unfolding domain_separator_def
  by (auto dest!: keccak_Inr) (metis same_token_trans)

lemma signer_Inr [erc20_dest]:
  assumes "signer pf d v r s st = Inr (x, st')"
  shows "same_token st st' \<and> (x = Some owner \<longrightarrow> recovers pf d v r s owner)"
  using assms unfolding signer_def Let_def recovers_def
  by (auto split: if_splits option.splits dest!: charge_Inr intro: same_token_trans)

section \<open>Refinement of the single operations\<close>

lemma insert_allowance_Inr [erc20_dest]:
  "insert_allowance o' s v st = Inr (u, st') \<Longrightarrow>
    st' = st \<lparr> Allowances := (Allowances st)(o' := (Allowances st o')(s := v)) \<rparr>"
  by (simp add: insert_allowance_def)

lemma spend_allowance_Inr [erc20_dest]:
  "spend_allowance f s v st = Inr (u, st') \<Longrightarrow>
    f = s \<and> st' = st \<or> f \<noteq> s \<and> from_evm v \<le> Allowances st f s \<and>
    st' = st \<lparr> Allowances := (Allowances st)(f := (Allowances st f)(s := Allowances st f s - from_evm v)) \<rparr>"
  by (auto simp: spend_allowance_def insert_allowance_def checked_sub_def split: if_splits)

lemma token_of_upd [simp]:
  "token_of bal B (st \<lparr> Allowances := A \<rparr>) = (token_of bal B st) \<lparr> t_allowance := A \<rparr>"
  "token_of bal B (st \<lparr> Nonces := N \<rparr>) = (token_of bal B st) \<lparr> t_nonce := N \<rparr>"
  by (simp_all add: token_of_def)

lemma l_transfer_token:
  assumes "ledger_laws bal B" "l_transfer bal a b v (ledger st) = Inr l"
  shows "token_move a b v (token_of bal B st) = Some (token_of bal B (st \<lparr> ledger := l \<rparr>))"
  using assms unfolding ledger_laws_def token_move_def token_of_def
  by (cases "a = b") (fastforce simp: fun_eq_iff)+

lemma l_mint_token:
  assumes "ledger_laws bal B" "l_mint_into bal a v (ledger st) = Inr l"
  shows "token_of bal B (st \<lparr> ledger := l_deactivate bal v l \<rparr>) = token_create v a (token_of bal B st)"
  using assms unfolding ledger_laws_def token_create_def token_of_def by (fastforce simp: fun_eq_iff)

lemma move_funds_token:
  assumes laws: "ledger_laws bal B" and "move_funds bal a b v st = Inr (u, st')"
  shows "token_send (l_minimum_balance bal) (\<lambda>x. l_account_exists bal x (ledger st)) a b v (token_of bal B st) = Some (token_of bal B st')"
proof (cases "v = 0")
  case False
  define st1 where "st1 = (if l_account_exists bal b (ledger st) then st
    else case l_mint_into bal b (l_minimum_balance bal) (ledger st) of
      Inr l \<Rightarrow> st \<lparr> ledger := l_deactivate bal (l_minimum_balance bal) l \<rparr> | _ \<Rightarrow> st)"
  have "\<exists>l. l_transfer bal a b v (ledger st1) = Inr l \<and> st' = st1 \<lparr> ledger := l \<rparr>"
    and "l_account_exists bal b (ledger st) \<or> (\<exists>l. l_mint_into bal b (l_minimum_balance bal) (ledger st) = Inr l)"
    using assms(2) False unfolding move_funds_def st1_def with_ledger_def
    by (auto split: if_splits sum.splits simp: map_sum_def)
  then show ?thesis
    using False l_transfer_token [OF laws, of a b v st1] l_mint_token [OF laws, of b "l_minimum_balance bal" st]
    by (auto simp: token_send_def st1_def)
qed (use assms(2) in \<open>auto simp: token_send_def move_funds_def split: if_splits\<close>)

lemma same_ledger: "same_token st st' \<Longrightarrow> ledger st' = ledger st"
  by (simp add: same_token_def)

lemma same_maps: "same_token st st' \<Longrightarrow> Allowances st' = Allowances st" "same_token st st' \<Longrightarrow> Nonces st' = Nonces st"
  by (simp_all add: same_token_def)

lemma token_of_sel [simp]:
  "t_allowance (token_of bal B st) = Allowances st" "t_nonce (token_of bal B st) = Nonces st"
  "t_balance (token_of bal B st) a = B a (ledger st)" "t_supply (token_of bal B st) = l_total_issuance bal (ledger st)"
  by (simp_all add: token_of_def)

lemmas token_simps = token_of_same same_ledger same_maps

lemma transfer_token:
  assumes laws: "ledger_laws bal B" and "transfer bal pf env to_addr v st = Inr (r, st')"
  shows "token_step pf env (l_minimum_balance bal) (\<lambda>x. l_account_exists bal x (ledger st)) (Transfer_call to_addr v) (token_of bal B st)
    = Some (token_of bal B st')"
  using assms(2-) unfolding transfer_def token_step_def
  by (auto dest!: erc20_dest move_funds_token [OF laws] simp: token_simps token_allow_def)

lemma withdraw_token:
  assumes laws: "ledger_laws bal B" and "withdraw bal pf env dest v st = Inr (r, st')"
  shows "token_step pf env (l_minimum_balance bal) (\<lambda>x. l_account_exists bal x (ledger st)) (Withdraw_call dest v) (token_of bal B st)
    = Some (token_of bal B st')"
  using assms(2-) unfolding withdraw_def token_step_def
  by (auto dest!: erc20_dest move_funds_token [OF laws] simp: token_simps token_allow_def)

lemma approve_token:
  assumes laws: "ledger_laws bal B" and "approve pf env s v st = Inr (r, st')" "v \<le> U256_MAX"
  shows "token_step pf env (l_minimum_balance bal) (\<lambda>x. l_account_exists bal x (ledger st)) (Approve_call s v) (token_of bal B st)
    = Some (token_of bal B st')"
  using assms(2-) unfolding approve_def token_step_def
  by (auto dest!: erc20_dest simp: token_simps token_allow_def)

lemma transfer_from_token:
  assumes laws: "ledger_laws bal B" and "transfer_from bal pf env f to_addr v st = Inr (r, st')" "v \<le> U256_MAX"
  shows "token_step pf env (l_minimum_balance bal) (\<lambda>x. l_account_exists bal x (ledger st)) (TransferFrom_call f to_addr v) (token_of bal B st)
    = Some (token_of bal B st')"
  using assms(2-) unfolding transfer_from_def token_step_def
  by (auto dest!: erc20_dest move_funds_token [OF laws] simp: token_simps token_allow_def)

lemma deposit_token:
  assumes laws: "ledger_laws bal B" and "deposit bal pf env st = Inr (r, st')"
  shows "token_step pf env (l_minimum_balance bal) (\<lambda>x. l_account_exists bal x (ledger st)) Deposit_call (token_of bal B st)
    = Some (token_of bal B st')"
  using assms(2-) unfolding deposit_def token_step_def with_ledger_def
  by (auto dest!: erc20_dest l_transfer_token [OF laws] simp: token_simps token_allow_def Let_def map_sum_def split: if_splits sum.splits)

lemma permit_token:
  assumes laws: "ledger_laws bal B" and "permit pf env ow s v d sv r sg st = Inr (x, st')" "v \<le> U256_MAX" "d \<le> U256_MAX"
  shows "token_step pf env (l_minimum_balance bal) (\<lambda>x. l_account_exists bal x (ledger st)) (Permit_call ow s v d sv r sg) (token_of bal B st)
    = Some (token_of bal B st')"
  using assms(2-) unfolding permit_def token_step_def
  by (auto dest!: erc20_dest simp: token_simps token_allow_def permit_digest_def Let_def sat_add_256 split: if_splits)

lemma view_token:
  "total_supply bal pf st = Inr (r, st') \<Longrightarrow> same_token st st'" "balance_of bal pf h st = Inr (r, st') \<Longrightarrow> same_token st st'"
  "allowance pf h h' st = Inr (r, st') \<Longrightarrow> same_token st st'" "nonces pf h st = Inr (r, st') \<Longrightarrow> same_token st st'"
  "domain pf env st = Inr (r, st') \<Longrightarrow> same_token st st'"
  by (auto simp: total_supply_def balance_of_def allowance_def nonces_def domain_def dest!: erc20_dest intro: same_token_trans)

lemma erc20_call_view:
  assumes "\<not> writes c" "erc20_call bal pf env c st = Inr (r, st')"
  shows "same_token st st'"
  using assms by (cases c) (auto simp: erc20_call_def writes_def split: if_splits dest: view_token)

lemma erc20_call_token:
  assumes "ledger_laws bal B" "call_wf c" "erc20_call bal pf env c st = Inr (r, st')"
  shows "token_step pf env (l_minimum_balance bal) (\<lambda>x. l_account_exists bal x (ledger st)) c (token_of bal B st)
    = Some (token_of bal B st')"
proof (cases "writes c")
  case True
  then show ?thesis
    using assms(2,3)
    by (cases c) (auto simp: erc20_call_def call_wf_def writes_def split: if_splits
        intro: transfer_token [OF assms(1)] withdraw_token [OF assms(1)] approve_token [OF assms(1)]
          transfer_from_token [OF assms(1)] deposit_token [OF assms(1)] permit_token [OF assms(1)])
next
  case False
  with token_of_same [OF erc20_call_view [OF False assms(3)], of bal B] show ?thesis
    by (cases c) (simp_all add: token_step_def writes_def)
qed

section \<open>Consequences of the specification\<close>

lemma token_move_loss:
  assumes "token_move a b v t = Some t'" "t_balance t' x < t_balance t x"
  shows "x = a" "t_balance t x = t_balance t' x + v" "t_allowance t' = t_allowance t"
  using assms by (auto simp: token_move_def split: if_splits)

lemma token_send_loss:
  assumes "token_send ed ex a b v t = Some t'" "t_balance t' x < t_balance t x"
  shows "x = a" "t_balance t x = t_balance t' x + v" "t_allowance t' = t_allowance t"
  using assms by (auto simp: token_send_def token_move_def token_create_def split: if_splits)

lemma token_allow_sel [simp]:
  "t_balance (token_allow f s v u) = t_balance u" "t_nonce (token_allow f s v u) = t_nonce u"
  "t_allowance (token_allow f s v u) f s = v"
  by (simp_all add: token_allow_def)

definition authorised_loss :: "'g platform \<Rightarrow> frame \<Rightarrow> Call \<Rightarrow> account \<Rightarrow> token \<Rightarrow> token \<Rightarrow> bool" where
  "authorised_loss pf env c x t t' \<longleftrightarrow> (\<exists>who. env_caller env = Some who \<and>
    (x = who \<or> x = to_account_id pf (to_address pf who)
     \<or> c = Deposit_call \<and> x = env_account_id env \<and> t_balance t x = t_balance t' x + env_value env
     \<or> (\<exists>f. x = to_account_id pf f \<and> t_allowance t f (to_address pf who)
          = t_allowance t' f (to_address pf who) + (t_balance t x - t_balance t' x))))"

lemma token_step_loss:
  assumes "token_step pf env ed ex c t = Some t'" and less: "t_balance t' x < t_balance t x"
  shows "authorised_loss pf env c x t t'"
proof (cases c)
  case (Transfer_call to_addr v)
  then obtain who where "env_caller env = Some who" "token_send ed ex who (to_account_id pf to_addr) v t = Some t'"
    using assms(1) by (auto simp: token_step_def split: option.splits)
  with token_send_loss(1) [OF this(2) less] show ?thesis
    by (simp add: authorised_loss_def)
next
  case (Withdraw_call dest v)
  then obtain who where "env_caller env = Some who" "token_send ed ex who dest v t = Some t'"
    using assms(1) by (auto simp: token_step_def split: option.splits)
  with token_send_loss(1) [OF this(2) less] show ?thesis
    by (simp add: authorised_loss_def)
next
  case (TransferFrom_call f to_addr v)
  then obtain who u where who: "env_caller env = Some who"
    and u: "token_send ed ex (to_account_id pf f) (to_account_id pf to_addr) v u = Some t'" "t_balance u = t_balance t"
    and al: "f = to_address pf who \<or> t_allowance t f (to_address pf who) = t_allowance u f (to_address pf who) + v"
    using assms(1) by (auto simp: token_step_def split: option.splits if_splits)
  have "t_balance t' x < t_balance u x"
    using less by (simp add: u(2))
  from token_send_loss [OF u(1) this] show ?thesis
    using who al by (auto simp: authorised_loss_def u(2))
next
  case Deposit_call
  then obtain who where "env_caller env = Some who" "token_move (env_account_id env) who (env_value env) t = Some t'"
    using assms(1) by (auto simp: token_step_def split: option.splits if_splits)
  with token_move_loss [OF this(2) less] Deposit_call show ?thesis
    by (simp add: authorised_loss_def)
qed (use assms in \<open>auto simp: token_step_def split: option.splits if_splits\<close>)

lemma token_send_nonce: "token_send ed ex a b v t = Some t' \<Longrightarrow> t_nonce t' = t_nonce t"
  by (auto simp: token_send_def token_move_def token_create_def split: if_splits)

lemma token_step_nonce:
  assumes "token_step pf env ed ex c t = Some t'"
  shows "t_nonce t' = t_nonce t \<or> (\<exists>ow. t_nonce t' = (t_nonce t)(ow := min (t_nonce t ow + 1) U256_MAX))"
  using assms
  by (cases c) (auto simp: token_step_def token_move_def split: option.splits if_splits dest!: token_send_nonce)

definition nonces_wf :: "('l, 'g) erc20_state \<Rightarrow> bool" where
  "nonces_wf st \<longleftrightarrow> (\<forall>ow. Nonces st ow \<le> U256_MAX)"

definition erc20_run ::
  "('l, 'e) ledger_ops \<Rightarrow> 'g platform \<Rightarrow> (frame \<times> Call) list \<Rightarrow> ('l, 'g) erc20_state \<Rightarrow> ('l, 'g) erc20_state" where
  "erc20_run bal pf cs st = fold (\<lambda>(env, c) st. snd (atomic (erc20_call bal pf env c) st)) cs st"

lemma erc20_call_nonce:
  assumes "ledger_laws bal B" "call_wf c" "nonces_wf st"
  shows "nonces_wf (snd (atomic (erc20_call bal pf env c) st)) \<and> Nonces st ow \<le> Nonces (snd (atomic (erc20_call bal pf env c) st)) ow"
proof (cases "erc20_call bal pf env c st")
  case (Inr y)
  obtain r st' where y: "y = (r, st')" by (cases y)
  have "Nonces st' = Nonces st \<or> (\<exists>ow. Nonces st' = (Nonces st)(ow := min (Nonces st ow + 1) U256_MAX))"
    using token_step_nonce [OF erc20_call_token [OF assms(1,2) Inr [unfolded y]]] by simp
  then show ?thesis
    using assms(3) by (auto simp: atomic_def Inr y nonces_wf_def le_Suc_eq)
qed (use assms(3) in \<open>simp add: atomic_def\<close>)

lemma erc20_run_nonce:
  assumes "ledger_laws bal B" "\<forall>(env, c) \<in> set cs. call_wf c" "nonces_wf st"
  shows "nonces_wf (erc20_run bal pf cs st) \<and> Nonces st ow \<le> Nonces (erc20_run bal pf cs st) ow"
  using assms(2,3)
proof (induction cs arbitrary: st)
  case (Cons ec cs)
  obtain env c where ec: "ec = (env, c)" by (cases ec)
  have "nonces_wf (snd (atomic (erc20_call bal pf env c) st))"
    "Nonces st ow \<le> Nonces (snd (atomic (erc20_call bal pf env c) st)) ow"
    using erc20_call_nonce [OF assms(1) _ Cons.prems(2)] Cons.prems(1) by (auto simp: ec)
  with Cons.IH [OF _ this(1)] Cons.prems(1) show ?case
    by (auto simp: erc20_run_def ec)
qed (simp add: erc20_run_def)

lemma be_bytes_256_inject: "a \<le> U256_MAX \<Longrightarrow> b \<le> U256_MAX \<Longrightarrow> be_bytes 32 a = be_bytes 32 b \<longleftrightarrow> a = b"
  by (metis evm_word(1) to_evm_def)

lemma permit_struct_nonce:
  "m \<le> U256_MAX \<Longrightarrow> n \<le> U256_MAX \<Longrightarrow> permit_struct th ow s v m d = permit_struct th ow s v n d \<longleftrightarrow> m = n"
  by (simp add: permit_struct_def be_bytes_256_inject)

section \<open>Properties\<close>

text \<open>
  C13: The precompile implements the abstract token. Whatever a call does to the storage, the
  ledger, the meter and the logs, a call that succeeds takes the token (balances, supply,
  allowances, permit nonces) to exactly what the specification of that call says, which
  includes that the caller had the funds, the allowance or the signature for it, and a call
  that fails, for any reason and at any point, leaves the token as it was.
\<close>

theorem erc20_refines_token:
  assumes "ledger_laws bal B" "call_wf c" "atomic (erc20_call bal pf env c) st = (res, st')"
  shows "case res of
      Inl e \<Rightarrow> token_of bal B st' = token_of bal B st
    | Inr r \<Rightarrow> token_step pf env (l_minimum_balance bal) (\<lambda>x. l_account_exists bal x (ledger st)) c (token_of bal B st)
        = Some (token_of bal B st')"
  using assms(3) erc20_call_token [OF assms(1,2), of pf env st]
  by (auto simp: atomic_def split: sum.splits)

text \<open>A ledger of plain balances for the witnesses: the issuance is kept beside the balances.\<close>

definition sample_ledger_ops :: "((account \<Rightarrow> nat) \<times> nat, unit) ledger_ops" where
  "sample_ledger_ops = \<lparr>
     l_transfer = (\<lambda>a b v l. if v < fst l a then Inr (if a = b then l else ((fst l)(a := fst l a - v, b := fst l b + v), snd l)) else Inl ()),
     l_mint_into = (\<lambda>a v l. Inr ((fst l)(a := fst l a + v), snd l + v)),
     l_deactivate = (\<lambda>v l. l), l_total_issuance = snd, l_minimum_balance = 1,
     l_account_exists = (\<lambda>a l. 0 < fst l a), l_evm_balance = (\<lambda>h l. fst l h - 1) \<rparr>"

definition sample_platform :: "nat platform" where
  "sample_platform = \<lparr> try_charge = (\<lambda>c g. if g = 0 then None else Some (g - 1)), to_address = id, to_account_id = id,
     keccak256 = (\<lambda>b. b), ecdsa_recover = (\<lambda>s d. Some [5]), ecdsa_to_eth_address = Some,
     transfer_keep_alive_weight = (10, 0), db_read_weight = (\<lambda>n. (n, 0)), db_write_weight = (\<lambda>n. (n, 0)) \<rparr>"

definition sample_frame :: frame where
  "sample_frame = \<lparr> env_address = ADDRESS, env_account_id = [8], env_caller = Some [1], env_read_only = False, env_value = 0,
     env_now = 100, env_chain_id = 320262 \<rparr>"

definition sample_erc20 :: "((account \<Rightarrow> nat) \<times> nat, nat) erc20_state" where
  "sample_erc20 = \<lparr> ledger = ((\<lambda>_. 0)([2] := 50), 50), Allowances = (\<lambda>_ _. 0)([2] := (\<lambda>_. 0)([1] := 30)), Nonces = (\<lambda>_. 0),
     meter = 100, logs = [] \<rparr>"

lemma sample_ledger_laws: "ledger_laws sample_ledger_ops (\<lambda>a l. fst l a)"
  by (auto simp: ledger_laws_def sample_ledger_ops_def split: if_splits)

lemmas sample_defs = sample_ledger_ops_def sample_platform_def sample_frame_def sample_erc20_def

lemma sample_transfer_from: "erc20_call sample_ledger_ops sample_platform sample_frame (TransferFrom_call [2] [3] 20) sample_erc20 =
  Inr (Ret_bool True, sample_erc20 \<lparr> ledger := ((\<lambda>_. 0)([2] := 30, [3] := 21), 51), Allowances := (\<lambda>_ _. 0)([2] := (\<lambda>_. 0)([1] := 10)),
    meter := 95, logs := [Transfer_event [2] [3] 20] \<rparr>)"
  by (simp add: erc20_call_def writes_def transfer_from_def spend_allowance_def move_funds_def insert_allowance_def with_ledger_def
      caller_def account_of_def emit_def charge_def comp_eval sample_defs checked_sub_def from_evm_def be_val_be_bytes MAX_defs fun_eq_iff)

theorem erc20_refines_token_witness:
  "\<exists>t. token_step sample_platform sample_frame 1 (\<lambda>x. x = [2]) (TransferFrom_call [2] [3] 20)
     (token_of sample_ledger_ops (\<lambda>a l. fst l a) sample_erc20) = Some t \<and> t_balance t [3] = 21 \<and> t_allowance t [2] [1] = 10 \<and> t_supply t = 51"
proof -
  let ?st' = "sample_erc20 \<lparr> ledger := ((\<lambda>_. 0)([2] := 30, [3] := 21), 51), Allowances := (\<lambda>_ _. 0)([2] := (\<lambda>_. 0)([1] := 10)),
    meter := 95, logs := [Transfer_event [2] [3] 20] \<rparr>"
  have "atomic (erc20_call sample_ledger_ops sample_platform sample_frame (TransferFrom_call [2] [3] 20)) sample_erc20 = (Inr (Ret_bool True), ?st')"
    using sample_transfer_from by (simp add: atomic_def)
  from erc20_refines_token [OF sample_ledger_laws _ this]
  have "token_step sample_platform sample_frame (l_minimum_balance sample_ledger_ops)
      (\<lambda>x. l_account_exists sample_ledger_ops x (ledger sample_erc20)) (TransferFrom_call [2] [3] 20)
      (token_of sample_ledger_ops (\<lambda>a l. fst l a) sample_erc20) = Some (token_of sample_ledger_ops (\<lambda>a l. fst l a) ?st')"
    by (simp add: call_wf_def U256_MAX_def)
  moreover have "(\<lambda>x. l_account_exists sample_ledger_ops x (ledger sample_erc20)) = (\<lambda>x. x = [2])"
    by (auto simp: sample_defs)
  moreover have "l_minimum_balance sample_ledger_ops = 1"
    by (simp add: sample_defs)
  ultimately show ?thesis
    by (simp add: sample_ledger_ops_def)
qed

text \<open>
  C14: Nobody loses funds without having authorised it. If a call, whoever makes it, leaves some
  account with less than before, then that account is the caller's own, or it is the token
  contract refunding the value it was sent in a deposit, or it gave the caller an allowance
  that covered the loss and went down by it.
\<close>

theorem erc20_no_unauthorised_loss:
  assumes "ledger_laws bal B" "call_wf c" "atomic (erc20_call bal pf env c) st = (res, st')"
    and "B x (ledger st') < B x (ledger st)"
  shows "\<exists>who. env_caller env = Some who \<and>
    (x = who \<or> x = to_account_id pf (to_address pf who)
     \<or> c = Deposit_call \<and> x = env_account_id env \<and> B x (ledger st) = B x (ledger st') + env_value env
     \<or> (\<exists>f. x = to_account_id pf f \<and> Allowances st f (to_address pf who)
          = Allowances st' f (to_address pf who) + (B x (ledger st) - B x (ledger st'))))"
proof -
  have "res \<noteq> Inl e" for e
    using assms(3,4) by (auto simp: atomic_def split: sum.splits)
  then obtain r where "erc20_call bal pf env c st = Inr (r, st')"
    using assms(3) by (auto simp: atomic_def split: sum.splits)
  note step = erc20_call_token [OF assms(1,2) this]
  have less: "t_balance (token_of bal B st') x < t_balance (token_of bal B st) x"
    using assms(4) by simp
  from token_step_loss [OF step less] show ?thesis
    by (simp add: authorised_loss_def)
qed

theorem erc20_no_unauthorised_loss_witness:
  "\<exists>f. [2] = to_account_id sample_platform f \<and> Allowances sample_erc20 f [1] = 10 + (50 - (30::nat))"
proof -
  let ?st' = "sample_erc20 \<lparr> ledger := ((\<lambda>_. 0)([2] := 30, [3] := 21), 51), Allowances := (\<lambda>_ _. 0)([2] := (\<lambda>_. 0)([1] := 10)),
    meter := 95, logs := [Transfer_event [2] [3] 20] \<rparr>"
  have "atomic (erc20_call sample_ledger_ops sample_platform sample_frame (TransferFrom_call [2] [3] 20)) sample_erc20 = (Inr (Ret_bool True), ?st')"
    using sample_transfer_from by (simp add: atomic_def)
  from erc20_no_unauthorised_loss [OF sample_ledger_laws _ this, of "[2]"] show ?thesis
    by (auto simp: call_wf_def U256_MAX_def sample_defs split: if_splits)
qed

text \<open>
  C27: A permit cannot be replayed. After a permit of an owner went through, and after any
  further calls by anyone, the same call with the same signature goes through again only if
  the signature also verifies for another message, one that carries a larger nonce: the two
  signed structures are different byte strings.
\<close>

theorem permit_not_replayable:
  assumes "ledger_laws bal B" "nonces_wf st" "Nonces st ow < U256_MAX" "call_wf (Permit_call ow s v d sv r sg)"
    and "erc20_call bal pf env (Permit_call ow s v d sv r sg) st = Inr (x, st1)"
    and "\<forall>(env, c) \<in> set cs. call_wf c"
    and "erc20_call bal pf env2 (Permit_call ow s v d sv r sg) (erc20_run bal pf cs st1) = Inr (y, st3)"
  shows "\<exists>n > Nonces st ow. recovers pf (permit_digest pf (env_chain_id env2) ow s v n d) sv r sg ow
    \<and> (\<forall>th. permit_struct th ow s v n d \<noteq> permit_struct th ow s v (Nonces st ow) d)"
proof (intro exI conjI)
  let ?n = "Nonces (erc20_run bal pf cs st1) ow"
  have st1: "Nonces st1 = (Nonces st)(ow := Nonces st ow + 1)"
    using arg_cong [OF erc20_call_token [OF assms(1,4,5)], of "\<lambda>t. map_option t_nonce t"] assms(3)
    by (auto simp: token_step_def split: if_splits)
  then have wf1: "nonces_wf st1"
    using assms(2,3) by (auto simp: nonces_wf_def Suc_le_eq)
  have wfn: "?n \<le> U256_MAX"
    using erc20_run_nonce [OF assms(1,6) wf1, of pf] by (simp add: nonces_wf_def)
  show less: "Nonces st ow < ?n"
    using erc20_run_nonce [OF assms(1,6) wf1, of pf ow] st1 by simp
  show "recovers pf (permit_digest pf (env_chain_id env2) ow s v ?n d) sv r sg ow"
    using erc20_call_token [OF assms(1,4,7)] by (auto simp: token_step_def split: if_splits)
  show "\<forall>th. permit_struct th ow s v ?n d \<noteq> permit_struct th ow s v (Nonces st ow) d"
    using less wfn by (simp add: permit_struct_nonce)
qed

definition sample_permit :: Call where
  "sample_permit = Permit_call [5] [1] 7 100 27 [] []"

lemma sample_permit_ok:
  assumes "11 \<le> meter st"
  shows "\<exists>x st'. erc20_call sample_ledger_ops sample_platform sample_frame sample_permit st = Inr (x, st') \<and> meter st' = meter st - 11"
  using assms unfolding sample_permit_def
  by (simp add: erc20_call_def writes_def permit_def domain_separator_def keccak_def signer_def insert_allowance_def
      emit_def charge_def comp_eval sample_platform_def sample_frame_def from_evm_def be_val_be_bytes Let_def)

theorem permit_not_replayable_witness:
  "\<exists>n > 0. recovers sample_platform (permit_digest sample_platform 320262 [5] [1] 7 n 100) 27 [] [] [5]"
proof -
  obtain x st1 where 1: "erc20_call sample_ledger_ops sample_platform sample_frame sample_permit sample_erc20 = Inr (x, st1)"
    "meter st1 = 89"
    using sample_permit_ok [of sample_erc20] by (auto simp: sample_erc20_def)
  obtain y st3 where 2: "erc20_call sample_ledger_ops sample_platform sample_frame sample_permit
      (erc20_run sample_ledger_ops sample_platform [] st1) = Inr (y, st3)"
    using sample_permit_ok [of st1] 1(2) by (auto simp: erc20_run_def)
  have "nonces_wf sample_erc20" "Nonces sample_erc20 [5] = 0" "env_chain_id sample_frame = 320262"
    "call_wf (Permit_call [5] [1] 7 100 27 [] [])"
    by (simp_all add: nonces_wf_def sample_defs call_wf_def U256_MAX_def)
  with permit_not_replayable [OF sample_ledger_laws _ _ _ 1(1) [unfolded sample_permit_def] _ 2 [unfolded sample_permit_def]]
  show ?thesis
    by auto
qed

end
