(* ===== verification/ProxyCode.thy ===== *)
theory ProxyCode
  imports Erc20
begin

text \<open>
  The proxy contract at the token address (\<open>proxy_code\<close>, \<open>jump\<close>, \<open>land\<close> and the module \<open>opcode\<close> of
  \<open>runtime/src/balances_erc20.rs\<close>). The code is assembled byte by byte as in the source, with jump
  targets patched in later. To say what it does, the theory has the semantics of the EVM
  instructions it is made of: a machine state is the code left to run (the program counter as a
  suffix of the code), the stack, the memory and the return data. Gas is not counted. The call to
  the precompile is the parameter \<open>deleg\<close>, the selectors of the interface are the parameters
  \<open>sels\<close> and \<open>dep\<close>.
\<close>

section \<open>Opcodes\<close>

definition LT :: byte where "LT = 0x10"
definition EQ :: byte where "EQ = 0x14"
definition SHL :: byte where "SHL = 0x1b"
definition SHR :: byte where "SHR = 0x1c"
definition CALLDATALOAD :: byte where "CALLDATALOAD = 0x35"
definition CALLDATASIZE :: byte where "CALLDATASIZE = 0x36"
definition CALLDATACOPY :: byte where "CALLDATACOPY = 0x37"
definition RETURNDATASIZE :: byte where "RETURNDATASIZE = 0x3d"
definition RETURNDATACOPY :: byte where "RETURNDATACOPY = 0x3e"
definition MSTORE :: byte where "MSTORE = 0x52"
definition JUMP :: byte where "JUMP = 0x56"
definition JUMPI :: byte where "JUMPI = 0x57"
definition GAS :: byte where "GAS = 0x5a"
definition JUMPDEST :: byte where "JUMPDEST = 0x5b"
definition PUSH1 :: byte where "PUSH1 = 0x60"
definition PUSH2 :: byte where "PUSH2 = 0x61"
definition PUSH4 :: byte where "PUSH4 = 0x63"
definition DUP1 :: byte where "DUP1 = 0x80"
definition DUP3 :: byte where "DUP3 = 0x82"
definition RETURN :: byte where "RETURN = 0xf3"
definition DELEGATECALL :: byte where "DELEGATECALL = 0xf4"
definition REVERT :: byte where "REVERT = 0xfd"

lemmas opcode_defs = LT_def EQ_def SHL_def SHR_def CALLDATALOAD_def CALLDATASIZE_def CALLDATACOPY_def RETURNDATASIZE_def
  RETURNDATACOPY_def MSTORE_def JUMP_def JUMPI_def GAS_def JUMPDEST_def PUSH1_def PUSH2_def PUSH4_def DUP1_def DUP3_def
  RETURN_def DELEGATECALL_def REVERT_def

section \<open>Assembling the code\<close>

definition jump :: "bytes \<Rightarrow> byte \<Rightarrow> bytes \<times> nat" where
  "jump code kind = (let code = code @ [PUSH2, 0, 0, kind] in (code, length code - 3))"

definition land :: "bytes \<Rightarrow> nat list \<Rightarrow> bytes" where
  "land code jumps =
     (let target = be_bytes 2 (length code mod 2 ^ 16)
      in fold (\<lambda>i code. code[i := target ! 0, i + 1 := target ! 1]) jumps code @ [JUMPDEST])"

fun selector_jumps :: "bytes list \<Rightarrow> bytes \<Rightarrow> bytes \<times> nat list" where
  "selector_jumps [] code = (code, [])"
| "selector_jumps (selector # sels) code =
     (let code = code @ [DUP1, PUSH4];
          code = code @ selector;
          code = code @ [EQ];
          (code, at1) = jump code JUMPI;
          (code, ats) = selector_jumps sels code
      in (code, at1 # ats))"

definition proxy_code :: "bytes list \<Rightarrow> bytes \<Rightarrow> bytes" where
  "proxy_code sels dep =
     (let code = [PUSH1, 4, CALLDATASIZE, LT];
          (code, to_deposit) = jump code JUMPI;
          code = code @ [PUSH1, 0, CALLDATALOAD, PUSH1, 0xe0, SHR];
          (code, to_forward) = selector_jumps sels code;
          code = land code [to_deposit];
          code = code @ [PUSH4];
          code = code @ dep;
          code = code @ [PUSH1, 0xe0, SHL, PUSH1, 0, MSTORE, PUSH1, 4];
          (code, to_call) = jump code JUMP;
          code = land code to_forward;
          code = code @ [CALLDATASIZE, PUSH1, 0, PUSH1, 0, CALLDATACOPY, CALLDATASIZE];
          code = land code [to_call];
          code = code @ [PUSH1, 0, PUSH1, 0, DUP3, PUSH1, 0, PUSH4];
          code = code @ drop 16 PRECOMPILE;
          code = code @ [GAS, DELEGATECALL, RETURNDATASIZE, PUSH1, 0, PUSH1, 0, RETURNDATACOPY];
          (code, to_return) = jump code JUMPI;
          code = code @ [RETURNDATASIZE, PUSH1, 0, REVERT];
          code = land code [to_return]
      in code @ [RETURNDATASIZE, PUSH1, 0, RETURN])"

section \<open>The machine\<close>

datatype outcome = Returned bytes | Reverted bytes | Exceptional

record evm =
  rest :: bytes
  stack :: "nat list"
  mem :: "nat \<Rightarrow> byte"
  rdata :: bytes

text \<open>The frame of a run: its code, its calldata, the gas it reports and what a delegate call gives.\<close>

record evm_env =
  code :: bytes
  calldata :: bytes
  gas_left :: nat
  deleg :: "nat \<Rightarrow> bytes \<Rightarrow> bool \<times> bytes"

definition push_len :: "byte \<Rightarrow> nat" where
  "push_len b = (if 0x60 \<le> b \<and> b \<le> 0x7f then unat b - 0x5f else 0)"

function instr_starts :: "nat \<Rightarrow> bytes \<Rightarrow> nat list" where
  "instr_starts p [] = []"
| "instr_starts p (b # bs) = p # instr_starts (p + 1 + push_len b) (drop (push_len b) bs)"
  by pat_completeness auto
termination by (relation "measure (\<lambda>(p, bs). length bs)") auto

definition valid_jumpdest :: "bytes \<Rightarrow> nat \<Rightarrow> bool" where
  "valid_jumpdest c t \<longleftrightarrow> t < length c \<and> c ! t = JUMPDEST \<and> t \<in> set (instr_starts 0 c)"

definition write_mem :: "(nat \<Rightarrow> byte) \<Rightarrow> nat \<Rightarrow> bytes \<Rightarrow> nat \<Rightarrow> byte" where
  "write_mem m off bs i = (if off \<le> i \<and> i < off + length bs then bs ! (i - off) else m i)"

definition read_mem :: "(nat \<Rightarrow> byte) \<Rightarrow> nat \<Rightarrow> nat \<Rightarrow> bytes" where
  "read_mem m off n = map m [off..<off + n]"

definition padded :: "nat \<Rightarrow> nat \<Rightarrow> bytes \<Rightarrow> bytes" where
  "padded off n bs = take n (drop off bs @ replicate n 0)"

definition evm_step :: "evm_env \<Rightarrow> evm \<Rightarrow> outcome + evm" where
  "evm_step env s =
     (case rest s of
        [] \<Rightarrow> Inl (Returned [])
      | b # r \<Rightarrow>
          if 0 < push_len b then Inr (s \<lparr> rest := drop (push_len b) r, stack := be_val (padded 0 (push_len b) r) # stack s \<rparr>)
          else if b = JUMPDEST then Inr (s \<lparr> rest := r \<rparr>)
          else if b = CALLDATASIZE then Inr (s \<lparr> rest := r, stack := length (calldata env) # stack s \<rparr>)
          else if b = RETURNDATASIZE then Inr (s \<lparr> rest := r, stack := length (rdata s) # stack s \<rparr>)
          else if b = GAS then Inr (s \<lparr> rest := r, stack := gas_left env # stack s \<rparr>)
          else
            (case stack s of
               x # st \<Rightarrow>
                 if b = DUP1 then Inr (s \<lparr> rest := r, stack := x # x # st \<rparr>)
                 else if b = CALLDATALOAD then
                   Inr (s \<lparr> rest := r, stack := be_val (padded x 32 (calldata env)) # st \<rparr>)
                 else if b = JUMP then
                   (if valid_jumpdest (code env) x then Inr (s \<lparr> rest := drop x (code env), stack := st \<rparr>) else Inl Exceptional)
                 else
                   (case st of
                      y # st \<Rightarrow>
                        if b = LT then Inr (s \<lparr> rest := r, stack := (if x < y then 1 else 0) # st \<rparr>)
                        else if b = EQ then Inr (s \<lparr> rest := r, stack := (if x = y then 1 else 0) # st \<rparr>)
                        else if b = SHL then Inr (s \<lparr> rest := r, stack := (y * 2 ^ x) mod 2 ^ 256 # st \<rparr>)
                        else if b = SHR then Inr (s \<lparr> rest := r, stack := y div 2 ^ x # st \<rparr>)
                        else if b = MSTORE then Inr (s \<lparr> rest := r, stack := st, mem := write_mem (mem s) x (be_bytes 32 y) \<rparr>)
                        else if b = JUMPI then
                          (if y = 0 then Inr (s \<lparr> rest := r, stack := st \<rparr>)
                           else if valid_jumpdest (code env) x then Inr (s \<lparr> rest := drop x (code env), stack := st \<rparr>)
                           else Inl Exceptional)
                        else if b = RETURN then Inl (Returned (read_mem (mem s) x y))
                        else if b = REVERT then Inl (Reverted (read_mem (mem s) x y))
                        else
                          (case st of
                             z # st \<Rightarrow>
                               if b = DUP3 then Inr (s \<lparr> rest := r, stack := z # x # y # z # st \<rparr>)
                               else if b = CALLDATACOPY then
                                 Inr (s \<lparr> rest := r, stack := st, mem := write_mem (mem s) x (padded y z (calldata env)) \<rparr>)
                               else if b = RETURNDATACOPY then
                                 (if y + z \<le> length (rdata s)
                                  then Inr (s \<lparr> rest := r, stack := st, mem := write_mem (mem s) x (take z (drop y (rdata s))) \<rparr>)
                                  else Inl Exceptional)
                               else if b = DELEGATECALL then
                                 (case st of
                                    arg_len # ret_off # ret_len # st \<Rightarrow>
                                      (let (ok, out) = deleg env (y mod 2 ^ 160) (read_mem (mem s) z arg_len)
                                       in Inr (s \<lparr> rest := r, stack := (if ok then 1 else 0) # st, rdata := out,
                                            mem := write_mem (mem s) ret_off (take ret_len out) \<rparr>))
                                  | _ \<Rightarrow> Inl Exceptional)
                               else Inl Exceptional
                           | [] \<Rightarrow> Inl Exceptional)
                    | [] \<Rightarrow> Inl Exceptional)
             | [] \<Rightarrow> Inl Exceptional))"

fun evm_run :: "nat \<Rightarrow> evm_env \<Rightarrow> evm \<Rightarrow> outcome option" where
  "evm_run 0 env s = None"
| "evm_run (Suc fuel) env s = (case evm_step env s of Inl out \<Rightarrow> Some out | Inr s' \<Rightarrow> evm_run fuel env s')"

definition evm_start :: "evm_env \<Rightarrow> evm" where
  "evm_start env = \<lparr> rest = code env, stack = [], mem = (\<lambda>_. 0), rdata = [] \<rparr>"

end
