(* ===== verification/ProxyProps.thy ===== *)
theory ProxyProps
  imports ProxyCode
begin

text \<open>
  What the proxy contract does: its assembled code has the layout of six parts with the right
  jump targets, every jump lands on an instruction, and running it forwards a call to the
  precompile or turns it into a deposit.
\<close>

section \<open>Running straight-line code\<close>

text \<open>\<open>halts env s out\<close>: with enough fuel, the run from \<open>s\<close> ends with \<open>out\<close>.\<close>

definition halts :: "evm_env \<Rightarrow> evm \<Rightarrow> outcome \<Rightarrow> bool" where
  "halts env s out \<longleftrightarrow> (\<exists>n. \<forall>m \<ge> n. evm_run m env s = Some out)"

lemma halts_iff: "halts env s out \<longleftrightarrow> (case evm_step env s of Inl o' \<Rightarrow> o' = out | Inr s' \<Rightarrow> halts env s' out)"
proof -
  have shift: "(\<exists>n. \<forall>m \<ge> n. evm_run m env s = Some out) \<longleftrightarrow> (\<exists>n. \<forall>m \<ge> n. evm_run (Suc m) env s = Some out)"
    by (metis Suc_le_D Suc_le_mono le_SucI)
  show ?thesis
    unfolding halts_def shift by (cases "evm_step env s") auto
qed

lemma halts_next: "evm_step env s = Inr s' \<Longrightarrow> halts env s out \<longleftrightarrow> halts env s' out"
  by (subst halts_iff) simp

lemma halts_stop: "evm_step env s = Inl o' \<Longrightarrow> halts env s out \<longleftrightarrow> out = o'"
  by (subst halts_iff) auto

named_theorems evm_ops "one rule per instruction, running it"

abbreviation evm_at :: "bytes \<Rightarrow> nat list \<Rightarrow> (nat \<Rightarrow> byte) \<Rightarrow> bytes \<Rightarrow> evm" where
  "evm_at r k m d \<equiv> \<lparr> rest = r, stack = k, mem = m, rdata = d \<rparr>"

lemma be_val_Cons: "be_val (b # bs) = unat b * 256 ^ length bs + be_val bs"
proof -
  have "le_val (xs @ [b]) = le_val xs + 256 ^ length xs * unat b" for xs
    by (induction xs) (simp_all add: algebra_simps)
  from this [of "rev bs"] show ?thesis
    by (simp add: be_val_def algebra_simps)
qed

lemma push_len_ops [simp]:
  "push_len PUSH1 = 1" "push_len PUSH2 = 2" "push_len PUSH4 = 4" "push_len LT = 0" "push_len EQ = 0" "push_len SHL = 0"
  "push_len SHR = 0" "push_len CALLDATALOAD = 0" "push_len CALLDATASIZE = 0" "push_len CALLDATACOPY = 0"
  "push_len RETURNDATASIZE = 0" "push_len RETURNDATACOPY = 0" "push_len MSTORE = 0" "push_len JUMP = 0" "push_len JUMPI = 0"
  "push_len GAS = 0" "push_len JUMPDEST = 0" "push_len DUP1 = 0" "push_len DUP3 = 0" "push_len RETURN = 0"
  "push_len DELEGATECALL = 0" "push_len REVERT = 0"
  by (simp_all add: push_len_def opcode_defs word_le_nat_alt)

lemma halts_push [evm_ops]:
  "halts env (evm_at (PUSH1 # a # r) k m d) out \<longleftrightarrow> halts env (evm_at r (be_val [a] # k) m d) out"
  "halts env (evm_at (PUSH2 # a # b # r) k m d) out \<longleftrightarrow> halts env (evm_at r (be_val [a, b] # k) m d) out"
  "halts env (evm_at (PUSH4 # a # b # c # e # r) k m d) out \<longleftrightarrow> halts env (evm_at r (be_val [a, b, c, e] # k) m d) out"
  by (rule halts_next, simp add: evm_step_def padded_def numeral_eq_Suc)+

lemma halts_plain [evm_ops]:
  "halts env (evm_at (JUMPDEST # r) k m d) out \<longleftrightarrow> halts env (evm_at r k m d) out"
  "halts env (evm_at (CALLDATASIZE # r) k m d) out \<longleftrightarrow> halts env (evm_at r (length (calldata env) # k) m d) out"
  "halts env (evm_at (RETURNDATASIZE # r) k m d) out \<longleftrightarrow> halts env (evm_at r (length d # k) m d) out"
  "halts env (evm_at (GAS # r) k m d) out \<longleftrightarrow> halts env (evm_at r (gas_left env # k) m d) out"
  "halts env (evm_at (DUP1 # r) (x # k) m d) out \<longleftrightarrow> halts env (evm_at r (x # x # k) m d) out"
  "halts env (evm_at (DUP3 # r) (x # y # z # k) m d) out \<longleftrightarrow> halts env (evm_at r (z # x # y # z # k) m d) out"
  "halts env (evm_at (LT # r) (x # y # k) m d) out \<longleftrightarrow> halts env (evm_at r ((if x < y then 1 else 0) # k) m d) out"
  "halts env (evm_at (EQ # r) (x # y # k) m d) out \<longleftrightarrow> halts env (evm_at r ((if x = y then 1 else 0) # k) m d) out"
  "halts env (evm_at (SHL # r) (x # y # k) m d) out \<longleftrightarrow> halts env (evm_at r ((y * 2 ^ x) mod 2 ^ 256 # k) m d) out"
  "halts env (evm_at (SHR # r) (x # y # k) m d) out \<longleftrightarrow> halts env (evm_at r (y div 2 ^ x # k) m d) out"
  "halts env (evm_at (CALLDATALOAD # r) (x # k) m d) out \<longleftrightarrow> halts env (evm_at r (be_val (padded x 32 (calldata env)) # k) m d) out"
  "halts env (evm_at (MSTORE # r) (x # y # k) m d) out \<longleftrightarrow> halts env (evm_at r k (write_mem m x (be_bytes 32 y)) d) out"
  "halts env (evm_at (CALLDATACOPY # r) (x # y # z # k) m d) out \<longleftrightarrow> halts env (evm_at r k (write_mem m x (padded y z (calldata env))) d) out"
  by (rule halts_next, simp add: evm_step_def opcode_defs push_len_def word_le_nat_alt)+

lemma halts_end [evm_ops]:
  "halts env (evm_at (RETURN # r) (x # y # k) m d) out \<longleftrightarrow> out = Returned (read_mem m x y)"
  "halts env (evm_at (REVERT # r) (x # y # k) m d) out \<longleftrightarrow> out = Reverted (read_mem m x y)"
  by (rule halts_stop, simp add: evm_step_def opcode_defs push_len_def word_le_nat_alt)+

lemma step_jumps:
  "evm_step env (evm_at (JUMP # r) (x # k) m d) =
     (if valid_jumpdest (code env) x then Inr (evm_at (drop x (code env)) k m d) else Inl Exceptional)"
  "evm_step env (evm_at (JUMPI # r) (x # y # k) m d) =
     (if y = 0 then Inr (evm_at r k m d)
      else if valid_jumpdest (code env) x then Inr (evm_at (drop x (code env)) k m d) else Inl Exceptional)"
  "evm_step env (evm_at (RETURNDATACOPY # r) (x # y # z # k) m d) =
     (if y + z \<le> length d then Inr (evm_at r k (write_mem m x (take z (drop y d))) d) else Inl Exceptional)"
  "evm_step env (evm_at (DELEGATECALL # r) (g # a # x # n # x' # n' # k) m d) =
     (let (ok, res) = deleg env (a mod 2 ^ 160) (read_mem m x n)
      in Inr (evm_at r ((if ok then 1 else 0) # k) (write_mem m x' (take n' res)) res))"
  by (simp_all add: evm_step_def opcode_defs push_len_def word_le_nat_alt split: prod.splits)

lemma halts_jump [evm_ops]:
  "halts env (evm_at (JUMP # r) (x # k) m d) out \<longleftrightarrow>
     (if valid_jumpdest (code env) x then halts env (evm_at (drop x (code env)) k m d) out else out = Exceptional)"
  "halts env (evm_at (JUMPI # r) (x # y # k) m d) out \<longleftrightarrow>
     (if y = 0 then halts env (evm_at r k m d) out
      else if valid_jumpdest (code env) x then halts env (evm_at (drop x (code env)) k m d) out else out = Exceptional)"
  "halts env (evm_at (RETURNDATACOPY # r) (x # y # z # k) m d) out \<longleftrightarrow>
     (if y + z \<le> length d then halts env (evm_at r k (write_mem m x (take z (drop y d))) d) out else out = Exceptional)"
  "halts env (evm_at (DELEGATECALL # r) (g # a # x # n # x' # n' # k) m d) out \<longleftrightarrow>
     (let (ok, res) = deleg env (a mod 2 ^ 160) (read_mem m x n)
      in halts env (evm_at r ((if ok then 1 else 0) # k) (write_mem m x' (take n' res)) res) out)"
  by (simp_all add: halts_next halts_stop step_jumps split: prod.splits)

section \<open>The layout of the proxy\<close>

definition be2 :: "nat \<Rightarrow> bytes" where
  "be2 t = be_bytes 2 (t mod 2 ^ 16)"

definition head_part :: "nat \<Rightarrow> bytes" where
  "head_part t = [PUSH1, 4, CALLDATASIZE, LT, PUSH2] @ be2 t @ [JUMPI, PUSH1, 0, CALLDATALOAD, PUSH1, 0xe0, SHR]"

definition seg :: "bytes \<Rightarrow> bytes \<Rightarrow> bytes" where
  "seg hl sel = [DUP1, PUSH4] @ sel @ [EQ, PUSH2] @ hl @ [JUMPI]"

definition deposit_part :: "bytes \<Rightarrow> nat \<Rightarrow> bytes" where
  "deposit_part dep t = [JUMPDEST, PUSH4] @ dep @ [PUSH1, 0xe0, SHL, PUSH1, 0, MSTORE, PUSH1, 4, PUSH2] @ be2 t @ [JUMP]"

definition forward_part :: bytes where
  "forward_part = [JUMPDEST, CALLDATASIZE, PUSH1, 0, PUSH1, 0, CALLDATACOPY, CALLDATASIZE]"

definition call_part :: "nat \<Rightarrow> bytes" where
  "call_part t = [JUMPDEST, PUSH1, 0, PUSH1, 0, DUP3, PUSH1, 0, PUSH4] @ drop 16 PRECOMPILE
     @ [GAS, DELEGATECALL, RETURNDATASIZE, PUSH1, 0, PUSH1, 0, RETURNDATACOPY, PUSH2] @ be2 t @ [JUMPI, RETURNDATASIZE, PUSH1, 0, REVERT]"

definition return_part :: bytes where
  "return_part = [JUMPDEST, RETURNDATASIZE, PUSH1, 0, RETURN]"

lemma be2_length [simp]: "length (be2 t) = 2"
  by (simp add: be2_def)

lemma be2_list: "be2 t = [be2 t ! 0, be2 t ! 1]"
  by (rule nth_equalityI) (auto simp: less_2_cases_iff)

lemma precompile_tail: "drop 16 PRECOMPILE = [0x08, 0x02, 0, 0]"
  by code_simp

lemma length_segs [simp]:
  "\<forall>sel \<in> set sels. length sel = 4 \<Longrightarrow> length (concat (map (seg hl) sels)) = (9 + length hl) * length sels"
  by (induction sels) (simp_all add: seg_def)

lemma patch_at: "length c = i \<Longrightarrow> (c @ x # y # d)[i := a, i + 1 := b] = c @ a # b # d"
  by (simp add: list_update_append)

lemma selector_jumps_eq:
  assumes "\<forall>sel \<in> set sels. length sel = 4"
  shows "selector_jumps sels c = (c @ concat (map (seg [0, 0]) sels), map (\<lambda>i. length c + 11 * i + 8) [0..<length sels])"
  using assms
proof (induction sels arbitrary: c)
  case (Cons sel sels)
  have "map (\<lambda>i. length c + 11 * i + 8) [0..<Suc n] = (length c + 8) # map (\<lambda>i. length c + 11 + 11 * i + 8) [0..<n]" for n
    by (simp add: upt_conv_Cons map_Suc_upt [symmetric] del: upt_Suc)
  with Cons show ?case
    by (simp add: jump_def seg_def)
qed simp

lemma patch_selectors:
  assumes "\<forall>sel \<in> set sels. length sel = 4"
  shows "fold (\<lambda>i code. code[i := a, i + 1 := b]) (map (\<lambda>i. length c + 11 * i + 8) [0..<length sels])
    (c @ concat (map (seg [0, 0]) sels) @ d) = c @ concat (map (seg [a, b]) sels) @ d"
  using assms
proof (induction sels arbitrary: c)
  case (Cons sel sels)
  have pos: "map (\<lambda>i. length c + 11 * i + 8) [0..<Suc n] = (length c + 8) # map (\<lambda>i. length (c @ seg [a, b] sel) + 11 * i + 8) [0..<n]" for n
    using Cons.prems by (simp add: upt_conv_Cons map_Suc_upt [symmetric] seg_def del: upt_Suc)
  have "(c @ seg [0, 0] sel @ concat (map (seg [0, 0]) sels) @ d)[length c + 8 := a, length c + 8 + 1 := b]
      = (c @ seg [a, b] sel) @ concat (map (seg [0, 0]) sels) @ d"
    using patch_at [of "c @ [DUP1, PUSH4] @ sel @ [EQ, PUSH2]" "length c + 8" 0 0 "JUMPI # concat (map (seg [0, 0]) sels) @ d" a b]
      Cons.prems by (simp add: seg_def)
  then show ?case
    using Cons.IH [of "c @ seg [a, b] sel"] Cons.prems by (simp add: pos del: upt_Suc)
qed simp

lemma land_be2: "land c js = fold (\<lambda>i code. code[i := be2 (length c) ! 0, i + 1 := be2 (length c) ! 1]) js c @ [JUMPDEST]"
  by (simp add: land_def be2_def Let_def)

lemma part_lengths [simp]:
  "length (head_part t) = 14" "length (deposit_part dep t) = 14 + length dep" "length forward_part = 8"
  "length (call_part t) = 29" "length return_part = 5"
  by (simp_all add: head_part_def deposit_part_def forward_part_def call_part_def return_part_def precompile_tail)

lemma land_one:
  assumes "length c = i" "t = length c + 2 + length d"
  shows "land (c @ 0 # 0 # d) [i] = c @ be2 t @ d @ [JUMPDEST]"
proof -
  have "land (c @ 0 # 0 # d) [i] = c @ [be2 t ! 0, be2 t ! 1] @ d @ [JUMPDEST]"
    using patch_at [OF assms(1), of 0 0 d "be2 t ! 0" "be2 t ! 1"] assms(2) by (simp add: land_be2)
  then show ?thesis
    by (simp only: be2_list [symmetric])
qed

lemma land_selectors:
  assumes "\<forall>sel \<in> set sels. length sel = 4" "t = length c + 11 * length sels + length d"
  shows "land (c @ concat (map (seg [0, 0]) sels) @ d) (map (\<lambda>i. length c + 11 * i + 8) [0..<length sels])
    = c @ concat (map (seg (be2 t)) sels) @ d @ [JUMPDEST]"
proof -
  have "length (c @ concat (map (seg [0, 0]) sels) @ d) = t"
    using assms by simp
  moreover have "[be2 t ! 0, be2 t ! 1] = be2 t"
    using be2_list by simp
  ultimately show ?thesis
    using patch_selectors [OF assms(1), of "be2 t ! 0" "be2 t ! 1" c d] by (simp add: land_be2)
qed

lemma proxy_code_layout:
  assumes "\<forall>sel \<in> set sels. length sel = 4" "length dep = 4"
    and "td = 14 + 11 * length sels" "tf = td + 18" "tc = tf + 8" "tr = tc + 29"
  shows "proxy_code sels dep = head_part td @ concat (map (seg (be2 tf)) sels) @ deposit_part dep tc
    @ forward_part @ call_part tr @ return_part"
proof -
  let ?Z = "concat (map (seg [0, 0]) sels)" and ?F = "concat (map (seg (be2 tf)) sels)"
  note len = length_segs [OF assms(1)]
  have 1: "land ([PUSH1, 4, CALLDATASIZE, LT, PUSH2, 0, 0, JUMPI, PUSH1, 0, CALLDATALOAD, PUSH1, 0xe0, SHR] @ ?Z) [5]
      = head_part td @ ?Z @ [JUMPDEST]"
    using land_one [of "[PUSH1, 4, CALLDATASIZE, LT, PUSH2]" 5 td "[JUMPI, PUSH1, 0, CALLDATALOAD, PUSH1, 0xe0, SHR] @ ?Z"] assms(3)
    by (simp add: len head_part_def)
  have 5: "(5::nat) = Suc (Suc (Suc (Suc (Suc 0))))"
    by simp
  have 2: "land (head_part td @ ?Z @ [JUMPDEST, PUSH4] @ dep @ [PUSH1, 0xe0, SHL, PUSH1, 0, MSTORE, PUSH1, 4, PUSH2, 0, 0, JUMP])
        (map (\<lambda>i. 14 + 11 * i + 8) [0..<length sels])
      = (head_part td @ ?F @ [JUMPDEST, PUSH4] @ dep @ [PUSH1, 0xe0, SHL, PUSH1, 0, MSTORE, PUSH1, 4, PUSH2]) @ 0 # 0 # [JUMP, JUMPDEST]"
    using land_selectors [OF assms(1), of tf "head_part td" "[JUMPDEST, PUSH4] @ dep @ [PUSH1, 0xe0, SHL, PUSH1, 0, MSTORE, PUSH1, 4, PUSH2, 0, 0, JUMP]"]
      assms(2-4) by simp
  have 3: "land ((head_part td @ ?F @ [JUMPDEST, PUSH4] @ dep @ [PUSH1, 0xe0, SHL, PUSH1, 0, MSTORE, PUSH1, 4, PUSH2]) @ 0 # 0 #
        [JUMP, JUMPDEST, CALLDATASIZE, PUSH1, 0, PUSH1, 0, CALLDATACOPY, CALLDATASIZE]) [td + 15]
      = head_part td @ ?F @ deposit_part dep tc @ forward_part @ [JUMPDEST]"
    using assms(2-5) by (subst land_one [where t = tc]) (simp_all add: len deposit_part_def forward_part_def)
  have 4: "land ((head_part td @ ?F @ deposit_part dep tc @ forward_part @ [JUMPDEST, PUSH1, 0, PUSH1, 0, DUP3, PUSH1, 0, PUSH4]
        @ drop 16 PRECOMPILE @ [GAS, DELEGATECALL, RETURNDATASIZE, PUSH1, 0, PUSH1, 0, RETURNDATACOPY, PUSH2]) @ 0 # 0 #
        [JUMPI, RETURNDATASIZE, PUSH1, 0, REVERT]) [tc + 22]
      = head_part td @ ?F @ deposit_part dep tc @ forward_part @ call_part tr @ [JUMPDEST]"
    using assms(2-6) by (subst land_one [where t = tr])
      (simp_all add: len deposit_part_def forward_part_def call_part_def precompile_tail)
  show ?thesis
    using 1 [unfolded 5] 2 3 4 selector_jumps_eq [OF assms(1)] assms(2-6)
    unfolding proxy_code_def
    by (simp add: jump_def Let_def len precompile_tail return_part_def deposit_part_def forward_part_def)
qed

section \<open>Jump targets\<close>

text \<open>A fragment is aligned if reading it instruction by instruction ends exactly at its end.\<close>

function aligned :: "bytes \<Rightarrow> bool" where
  "aligned [] = True"
| "aligned (b # bs) \<longleftrightarrow> push_len b \<le> length bs \<and> aligned (drop (push_len b) bs)"
  by pat_completeness auto
termination by (relation "measure length") auto

lemma aligned_append: "aligned a \<Longrightarrow> aligned (a @ b) \<longleftrightarrow> aligned b"
  by (induction a rule: aligned.induct) auto

lemma instr_starts_append: "aligned a \<Longrightarrow> set (instr_starts (p + length a) b) \<subseteq> set (instr_starts p (a @ b))"
proof (induction a arbitrary: p rule: aligned.induct)
  case (2 x xs)
  have "p + length (x # xs) = (p + 1 + push_len x) + length (drop (push_len x) xs)"
    using 2(2) by simp
  then show ?case
    using 2(1) [of "p + 1 + push_len x"] 2(2) by auto
qed simp

lemma valid_jumpdest_at:
  assumes "aligned a" "t = length a"
  shows "valid_jumpdest (a @ JUMPDEST # b) t"
  using instr_starts_append [OF assms(1), of 0 "JUMPDEST # b"] assms(2)
  by (auto simp: valid_jumpdest_def)

lemma drop_at: "n = length a \<Longrightarrow> drop n (a @ b) = b"
  by simp

lemma length_4_cases:
  assumes "length (sel :: bytes) = 4"
  obtains a b c d where "sel = [a, b, c, d]"
  using assms by (auto simp: numeral_eq_Suc length_Suc_conv)

lemma be2_cases: obtains a b where "be2 t = [a, b]"
  using be2_list by blast

lemma aligned_parts:
  "aligned (head_part t)" "length dep = 4 \<Longrightarrow> aligned (deposit_part dep t)" "aligned forward_part" "aligned (call_part t)"
  "length sel = 4 \<Longrightarrow> aligned (seg (be2 t) sel)"
proof -
  obtain a b where ab: "be2 t = [a, b]" by (rule be2_cases)
  show "aligned (head_part t)" "aligned forward_part"
    by (simp_all add: head_part_def forward_part_def ab numeral_eq_Suc)
  show "aligned (call_part t)"
    unfolding call_part_def precompile_tail ab by (simp add: numeral_eq_Suc)
  show "length dep = 4 \<Longrightarrow> aligned (deposit_part dep t)"
    by (elim length_4_cases) (simp add: deposit_part_def ab numeral_eq_Suc)
  show "length sel = 4 \<Longrightarrow> aligned (seg (be2 t) sel)"
    by (elim length_4_cases) (simp add: seg_def ab numeral_eq_Suc)
qed

lemma aligned_segs: "\<forall>sel \<in> set sels. length sel = 4 \<Longrightarrow> aligned (concat (map (seg (be2 t)) sels))"
  by (induction sels) (simp_all add: aligned_append aligned_parts)

section \<open>Words and memory\<close>

lemma be_val_append: "be_val (a @ b) = be_val a * 256 ^ length b + be_val b"
  by (induction a) (simp_all add: be_val_Cons power_add algebra_simps, simp add: be_val_def)

lemma be_val_zeros: "be_val (replicate n 0) = 0"
  by (induction n) (simp_all add: be_val_Cons, simp add: be_val_def)

lemma precompile_val: "be_val PRECOMPILE = be_val [8, 2, 0, 0]"
proof -
  have "PRECOMPILE = replicate 16 0 @ [8, 2, 0, 0]"
    by code_simp
  from arg_cong [OF this, of be_val] show ?thesis
    unfolding be_val_append be_val_zeros by simp
qed

lemma be2_val: "t < 65536 \<Longrightarrow> be_val (be2 t) = t"
  by (simp add: be2_def be_val_be_bytes)

lemma selector_of_word:
  assumes "4 \<le> length cd"
  shows "be_val (padded 0 32 cd) div 2 ^ 224 = be_val (take 4 cd)"
proof -
  obtain x y where cd: "cd = x @ y" "length x = 4"
    using assms by (metis append_take_drop_id length_take min.absorb2)
  then have "padded 0 32 cd = x @ padded 0 28 y"
    by (simp add: padded_def)
  moreover have "length (padded 0 28 y) = 28"
    by (simp add: padded_def)
  moreover have "be_val (padded 0 28 y) < 256 ^ 28"
    using be_val_less [of "padded 0 28 y"] calculation(2) by simp
  ultimately show ?thesis
    using cd by (simp add: be_val_append)
qed

lemma le_bytes_shift: "le_bytes (j + k) (v * 256 ^ j) = replicate j 0 @ le_bytes k v"
  by (induction j) (simp_all add: mult.assoc [symmetric] mult.commute)

lemma be_bytes_be_val: "be_bytes (length bs) (be_val bs) = bs"
  using le_bytes_le_val [of "rev bs"] by (simp add: be_bytes_def be_val_def)

lemma selector_word:
  assumes "length dep = 4"
  shows "take 4 (be_bytes 32 ((be_val dep * 2 ^ 224) mod 2 ^ 256)) = dep"
proof -
  have "be_val dep < 256 ^ 4"
    using be_val_less [of dep] assms by simp
  then have "(be_val dep * 2 ^ 224) mod 2 ^ 256 = be_val dep * 256 ^ 28"
    by simp
  moreover have "be_bytes (28 + 4) (be_val dep * 256 ^ 28) = be_bytes 4 (be_val dep) @ replicate 28 0"
    by (simp only: be_bytes_def le_bytes_shift) simp
  ultimately show ?thesis
    using be_bytes_be_val [of dep] assms by simp
qed

lemma read_write_mem: "n \<le> length bs \<Longrightarrow> read_mem (write_mem m 0 bs) 0 n = take n bs"
  by (rule nth_equalityI) (auto simp: read_mem_def write_mem_def)

section \<open>What the parts do\<close>

lemma halts_call:
  assumes "valid_jumpdest (code env) tr" "drop tr (code env) = return_part" "tr < 65536"
  shows "halts env (evm_at (call_part tr @ return_part) (n # k) m d)
    (case deleg env (be_val PRECOMPILE) (read_mem m 0 n) of (ok, res) \<Rightarrow> if ok then Returned res else Reverted res)"
proof -
  obtain a b where ab: "be2 tr = [a, b]" by (rule be2_cases)
  then have t: "be_val [a, b] = tr"
    using be2_val [OF assms(3)] by simp
  have "be_val [8, 2, 0, 0] mod 2 ^ 160 = be_val [8, 2, 0, 0]" "be_val [0] = 0"
    by (simp_all add: be_val_def)
  then show ?thesis
    unfolding call_part_def precompile_tail ab return_part_def precompile_val
    using assms t by (simp add: evm_ops return_part_def read_write_mem split: prod.splits)
qed

lemma halts_selectors:
  assumes "valid_jumpdest (code env) tf" "tf < 65536" "\<forall>sel \<in> set sels. length sel = 4"
  shows "halts env (evm_at (concat (map (seg (be2 tf)) sels) @ r) (x # k) m d) out \<longleftrightarrow>
    (if x \<in> be_val ` set sels then halts env (evm_at (drop tf (code env)) (x # k) m d) out
     else halts env (evm_at r (x # k) m d) out)"
  using assms(3)
proof (induction sels)
  case (Cons sel sels)
  obtain a b where ab: "be2 tf = [a, b]" by (rule be2_cases)
  then have t: "be_val [a, b] = tf"
    using be2_val [OF assms(2)] by simp
  obtain s1 s2 s3 s4 where sel: "sel = [s1, s2, s3, s4]"
    using Cons.prems by (auto elim: length_4_cases)
  show ?case
    using Cons assms(1) t by (auto simp: seg_def ab sel evm_ops)
qed simp

lemma unat_be_val [simp]: "be_val [a] = unat a"
  by (simp add: be_val_def)

lemma halts_deposit:
  assumes "valid_jumpdest (code env) tc" "tc < 65536" "length dep = 4"
  shows "halts env (evm_at (deposit_part dep tc @ r) k m d) out \<longleftrightarrow>
    halts env (evm_at (drop tc (code env)) (4 # k) (write_mem m 0 (be_bytes 32 ((be_val dep * 2 ^ 224) mod 2 ^ 256))) d) out"
proof -
  obtain a b where ab: "be2 tc = [a, b]" by (rule be2_cases)
  then have t: "be_val [a, b] = tc"
    using be2_val [OF assms(2)] by simp
  obtain s1 s2 s3 s4 where dep: "dep = [s1, s2, s3, s4]"
    using assms(3) by (rule length_4_cases)
  show ?thesis
    using assms(1) t by (simp add: deposit_part_def ab dep evm_ops)
qed

lemma halts_head:
  assumes "valid_jumpdest (code env) td" "td < 65536"
  shows "halts env (evm_at (head_part td @ r) [] m d) out \<longleftrightarrow>
    (if length (calldata env) < 4 then halts env (evm_at (drop td (code env)) [] m d) out
     else halts env (evm_at r [be_val (padded 0 32 (calldata env)) div 2 ^ 224] m d) out)"
proof -
  obtain a b where ab: "be2 td = [a, b]" by (rule be2_cases)
  then have t: "be_val [a, b] = td"
    using be2_val [OF assms(2)] by simp
  show ?thesis
    using assms(1) t by (simp add: head_part_def ab evm_ops)
qed

lemma halts_forward:
  "halts env (evm_at (forward_part @ r) k m d) out \<longleftrightarrow>
    halts env (evm_at r (length (calldata env) # k) (write_mem m 0 (calldata env)) d) out"
  by (simp add: forward_part_def evm_ops padded_def)

section \<open>Properties\<close>

text \<open>
  C15: The proxy is transparent for the interface and a deposit for everything else. With any
  calldata, the code at the token address ends after finitely many instructions, having made
  one delegate call to the precompile: with the calldata itself if it starts with a selector
  of the interface, and with the bare deposit selector otherwise (shorter than four bytes, or
  an unknown selector). It returns what the precompile returned and reverts with what it
  reverted with.
\<close>

theorem proxy_forwards:
  assumes "\<forall>sel \<in> set sels. length sel = 4" "length dep = 4" "length sels \<le> 5000"
    and "code env = proxy_code sels dep"
  shows "halts env (evm_start env)
    (let input = (if 4 \<le> length (calldata env) \<and> take 4 (calldata env) \<in> set sels then calldata env else dep)
     in case deleg env (be_val PRECOMPILE) input of (ok, res) \<Rightarrow> if ok then Returned res else Reverted res)"
proof -
  define td where "td = 14 + 11 * length sels"
  define tf where "tf = td + 18"
  define tc where "tc = tf + 8"
  define tr where "tr = tc + 29"
  note ts = tr_def tc_def tf_def td_def
  let ?F = "concat (map (seg (be2 tf)) sels)" and ?D = "deposit_part dep tc" and ?cd = "calldata env"
  have c: "code env = head_part td @ ?F @ ?D @ forward_part @ call_part tr @ return_part"
    unfolding assms(4) by (rule proxy_code_layout [OF assms(1,2) td_def tf_def tc_def tr_def])
  have small: "td < 65536" "tf < 65536" "tc < 65536" "tr < 65536"
    using assms(3) by (simp_all add: ts)
  obtain D where D: "?D = JUMPDEST # D" by (simp add: deposit_part_def)
  obtain Fw where Fw: "forward_part = JUMPDEST # Fw" by (simp add: forward_part_def)
  obtain C where C: "call_part tr = JUMPDEST # C" by (simp add: call_part_def)
  obtain R where R: "return_part = JUMPDEST # R" by (simp add: return_part_def)
  have al: "aligned (head_part td @ ?F)" "aligned (head_part td @ ?F @ ?D)" "aligned (head_part td @ ?F @ ?D @ forward_part)"
    "aligned (head_part td @ ?F @ ?D @ forward_part @ call_part tr)"
    using assms(1,2) by (simp_all add: aligned_append aligned_parts aligned_segs)
  have at: "td = length (head_part td @ ?F)" "tf = length (head_part td @ ?F @ ?D)"
    "tc = length (head_part td @ ?F @ ?D @ forward_part)" "tr = length (head_part td @ ?F @ ?D @ forward_part @ call_part tr)"
    using assms(1,2) by (simp_all add: ts)
  have valid: "valid_jumpdest (code env) td" "valid_jumpdest (code env) tf" "valid_jumpdest (code env) tc" "valid_jumpdest (code env) tr"
    using valid_jumpdest_at [OF al(1) at(1), of "D @ forward_part @ call_part tr @ return_part"]
      valid_jumpdest_at [OF al(2) at(2), of "Fw @ call_part tr @ return_part"]
      valid_jumpdest_at [OF al(3) at(3), of "C @ return_part"] valid_jumpdest_at [OF al(4) at(4), of R]
    by (simp_all only: c D Fw C R append_assoc append_Cons)
  have drops: "drop td (code env) = ?D @ forward_part @ call_part tr @ return_part"
    "drop tf (code env) = forward_part @ call_part tr @ return_part"
    "drop tc (code env) = call_part tr @ return_part" "drop tr (code env) = return_part"
    using drop_at [OF at(1), of "?D @ forward_part @ call_part tr @ return_part"]
      drop_at [OF at(2), of "forward_part @ call_part tr @ return_part"] drop_at [OF at(3), of "call_part tr @ return_part"]
      drop_at [OF at(4), of return_part] by (simp_all only: c append_assoc)
  have call: "halts env (evm_at (call_part tr @ return_part) (n # k) m d)
      (case deleg env (be_val PRECOMPILE) (read_mem m 0 n) of (ok, res) \<Rightarrow> if ok then Returned res else Reverted res)" for n k m d
    by (rule halts_call [OF valid(4) drops(4) small(4)])
  have dep: "halts env (evm_at (?D @ r) k m d)
      (case deleg env (be_val PRECOMPILE) dep of (ok, res) \<Rightarrow> if ok then Returned res else Reverted res)" for r k m d
    using call [of 4 k "write_mem m 0 (be_bytes 32 ((be_val dep * 2 ^ 224) mod 2 ^ 256))" d] selector_word [OF assms(2)]
    by (simp only: halts_deposit [OF valid(3) small(3) assms(2)] drops read_write_mem length_be_bytes numeral_le_iff semiring_norm)
  have fwd: "halts env (evm_at (drop tf (code env)) k m d)
      (case deleg env (be_val PRECOMPILE) ?cd of (ok, res) \<Rightarrow> if ok then Returned res else Reverted res)" for k m d
    using call [of "length ?cd" k "write_mem m 0 ?cd" d] by (simp add: drops halts_forward read_write_mem)
  have sel: "be_val (take 4 ?cd) \<in> be_val ` set sels \<longleftrightarrow> take 4 ?cd \<in> set sels" if "4 \<le> length ?cd"
    using assms(1) that by (auto simp: be_val_inject)
  have start: "evm_start env = evm_at (head_part td @ ?F @ ?D @ forward_part @ call_part tr @ return_part) [] (\<lambda>_. 0) []"
    by (simp add: evm_start_def c)
  show ?thesis
  proof (cases "length ?cd < 4")
    case True
    then show ?thesis
      using dep by (simp add: start halts_head [OF valid(1) small(1)] drops)
  next
    case False
    then have "be_val (padded 0 32 ?cd) div 2 ^ 224 = be_val (take 4 ?cd)"
      by (intro selector_of_word) simp
    with False show ?thesis
      using dep fwd sel
      by (simp only: start halts_head [OF valid(1) small(1)] halts_selectors [OF valid(2) small(2) assms(1)] Let_def if_False not_less) auto
  qed
qed

definition sample_proxy_env :: evm_env where
  "sample_proxy_env = \<lparr> code = proxy_code [[1, 2, 3, 4], [5, 6, 7, 8]] [5, 6, 7, 8], calldata = [1, 2, 3, 4, 9], gas_left = 7,
     deleg = (\<lambda>a i. (True, i)) \<rparr>"

theorem proxy_forwards_witness:
  "halts sample_proxy_env (evm_start sample_proxy_env) (Returned [1, 2, 3, 4, 9])"
  using proxy_forwards [of "[[1, 2, 3, 4], [5, 6, 7, 8]]" "[5, 6, 7, 8]" sample_proxy_env]
  by (simp add: sample_proxy_env_def)

end
