(* ===== verification/EvmClaims.thy ===== *)
theory EvmClaims
  imports Computations Bytes
begin

text \<open>
  The EVM claims pallet (\<open>pallets/evm-claims/src/lib.rs\<close>) and the nonce check built on it
  (\<open>runtime/src/check_nonce.rs\<close>). The state is the account map of \<open>frame_system\<close>, which the code
  reads and writes itself, beside an abstract \<open>bank\<close> with the storage of the balances and vesting
  pallets; the operations of those pallets, of \<open>frame_system\<close> and the hash are the parameter
  \<open>claims_ops\<close>. The loop that removes vesting schedules is a partial function: a run that never
  ends is \<open>None\<close>, carried as the error \<open>Diverged\<close> that the code does not have.
\<close>

type_synonym h160 = bytes
type_synonym account = bytes

section \<open>State\<close>

record account_info =
  nonce :: nat
  consumers :: nat
  providers :: nat

text \<open>A vesting schedule as its three getters show it; its fields are private to the library.\<close>

record VestingInfo =
  locked :: nat
  per_block :: nat
  starting_block :: nat

datatype claims_event = Claimed h160 account nat nat

record 'b world =
  Account :: "account \<Rightarrow> account_info option"
  bank :: 'b
  claims_events :: "claims_event list"

datatype 'e claims_error = Dispatch_error 'e | Bad_origin | Diverged

record ('b, 'e) claims_ops =
  inc_providers :: "account \<Rightarrow> 'b world \<Rightarrow> 'b world"
  blake2_256 :: "bytes \<Rightarrow> bytes"
  ClaimFee :: "'b world \<Rightarrow> nat"
  OnClaimFee :: "nat \<Rightarrow> 'b world \<Rightarrow> 'b world"
  MAX_VESTING_SCHEDULES :: nat
  reserved_balance :: "account \<Rightarrow> 'b world \<Rightarrow> nat"
  Freezes :: "account \<Rightarrow> 'b world \<Rightarrow> bytes list"
  Locks :: "account \<Rightarrow> 'b world \<Rightarrow> bytes list"
  reducible_balance :: "account \<Rightarrow> 'b world \<Rightarrow> nat"
  balance :: "account \<Rightarrow> 'b world \<Rightarrow> nat"
  total_balance :: "account \<Rightarrow> 'b world \<Rightarrow> nat"
  minimum_balance :: nat
  mint_into :: "account \<Rightarrow> nat \<Rightarrow> 'b world \<Rightarrow> 'e + 'b world"
  deactivate :: "nat \<Rightarrow> 'b world \<Rightarrow> 'b world"
  transfer_expendable :: "account \<Rightarrow> account \<Rightarrow> nat \<Rightarrow> 'b world \<Rightarrow> 'e + 'b world"
  withdraw_best_effort :: "account \<Rightarrow> nat \<Rightarrow> 'b world \<Rightarrow> 'e + nat \<times> 'b world"
  Vesting :: "account \<Rightarrow> 'b world \<Rightarrow> VestingInfo list option"
  remove_vesting_schedule :: "account \<Rightarrow> nat \<Rightarrow> 'b world \<Rightarrow> 'e + 'b world"
  add_vesting_schedule :: "account \<Rightarrow> nat \<Rightarrow> nat \<Rightarrow> nat \<Rightarrow> 'b world \<Rightarrow> 'e + 'b world"
  locked_at :: "nat \<Rightarrow> VestingInfo \<Rightarrow> nat"
  current_block_number :: "'b world \<Rightarrow> nat"

type_synonym ('b, 'e, 'a) claims_comp = "('b world, 'e claims_error, 'a) comp"

definition VESTING_ID :: bytes where
  "VESTING_ID = map of_char ''vesting ''"

definition NOTHING_TO_CLAIM :: nat where
  "NOTHING_TO_CLAIM = 0"

definition NO_ROOM_FOR_VESTING :: nat where
  "NO_ROOM_FOR_VESTING = 1"

text \<open>Reading the account map: an absent account has the default record.\<close>

definition account_get :: "'b world \<Rightarrow> account \<Rightarrow> account_info" where
  "account_get w who = (case Account w who of Some i \<Rightarrow> i | None \<Rightarrow> \<lparr> nonce = 0, consumers = 0, providers = 0 \<rparr>)"

definition account_nonce :: "'b world \<Rightarrow> account \<Rightarrow> nat" where
  "account_nonce w who = nonce (account_get w who)"

section \<open>The two accounts of an address\<close>

definition legacy_account :: "('b, 'e) claims_ops \<Rightarrow> h160 \<Rightarrow> account" where
  "legacy_account ops address = blake2_256 ops (map of_char ''evm:'' @ address)"

definition revive_account :: "h160 \<Rightarrow> account" where
  "revive_account address = address @ replicate 12 0xEE"

section \<open>Queries\<close>

definition movable :: "('b, 'e) claims_ops \<Rightarrow> account \<Rightarrow> 'b world \<Rightarrow> bool" where
  "movable ops legacy w \<longleftrightarrow> reserved_balance ops legacy w = 0 \<and> Freezes ops legacy w = [] \<and>
     list_all (\<lambda>lock_id. lock_id = VESTING_ID) (Locks ops legacy w)"

definition spendable :: "('b, 'e) claims_ops \<Rightarrow> account \<Rightarrow> 'b world \<Rightarrow> nat" where
  "spendable ops who w = reducible_balance ops who w"

definition schedules :: "('b, 'e) claims_ops \<Rightarrow> account \<Rightarrow> 'b world \<Rightarrow> nat" where
  "schedules ops who w = (case Vesting ops who w of Some xs \<Rightarrow> length xs | None \<Rightarrow> 0)"

definition vested :: "('b, 'e) claims_ops \<Rightarrow> account \<Rightarrow> 'b world \<Rightarrow> VestingInfo list" where
  "vested ops a w = (case Vesting ops a w of Some ss \<Rightarrow> ss | None \<Rightarrow> [])"

definition fee_due :: "('b, 'e) claims_ops \<Rightarrow> account \<Rightarrow> 'b world \<Rightarrow> nat" where
  "fee_due ops legacy w = (if movable ops legacy w then min (ClaimFee ops w) (spendable ops legacy w) else 0)"

definition claimable :: "('b, 'e) claims_ops \<Rightarrow> h160 \<Rightarrow> 'b world \<Rightarrow> bool" where
  "claimable ops address w =
     (let legacy = legacy_account ops address; n = account_nonce w legacy
      in (movable ops legacy w \<and> balance ops legacy w \<noteq> 0) \<or> account_nonce w (revive_account address) < n)"

text \<open>The validity of a claim; a valid one provides the tag of its address.\<close>

definition authorize_claim :: "('b, 'e) claims_ops \<Rightarrow> h160 \<Rightarrow> 'b world \<Rightarrow> nat + h160" where
  "authorize_claim ops address w =
     (let legacy = legacy_account ops address;
          account = revive_account address;
          nonce_due = account_nonce w account < account_nonce w legacy;
          funds_due = movable ops legacy w \<and> ClaimFee ops w < spendable ops legacy w
      in if \<not> (nonce_due \<or> funds_due) then Inl NOTHING_TO_CLAIM
         else if MAX_VESTING_SCHEDULES ops < schedules ops legacy w + schedules ops account w then Inl NO_ROOM_FOR_VESTING
         else Inr address)"

section \<open>Moving an account\<close>

definition carry_nonce :: "('b, 'e) claims_ops \<Rightarrow> account \<Rightarrow> account \<Rightarrow> 'b world \<Rightarrow> nat \<times> 'b world" where
  "carry_nonce ops legacy account w =
     (let n = account_nonce w legacy; current = account_nonce w account in
      if n \<le> current then (current, w)
      else
        (let w = (if current = 0 then inc_providers ops account w else w);
             w = w \<lparr> Account := (Account w)(account \<mapsto> (account_get w account) \<lparr> nonce := n \<rparr>) \<rparr>
         in (n, w)))"

partial_function (option) remove_schedules ::
  "('b, 'e) claims_ops \<Rightarrow> account \<Rightarrow> 'b world \<Rightarrow> ('e claims_error + 'b world) option" where
  "remove_schedules ops legacy w =
     (if Vesting ops legacy w \<noteq> None then
        (case remove_vesting_schedule ops legacy 0 w of
           Inl e \<Rightarrow> Some (Inl (Dispatch_error e))
         | Inr w \<Rightarrow> remove_schedules ops legacy w)
      else Some (Inr w))"

fun add_schedules :: "('b, 'e) claims_ops \<Rightarrow> account \<Rightarrow> nat \<Rightarrow> VestingInfo list \<Rightarrow> 'b world \<Rightarrow> 'e claims_error + 'b world" where
  "add_schedules ops account now [] w = Inr w"
| "add_schedules ops account now (s # ss) w =
     (if locked_at ops now s = 0 then add_schedules ops account now ss w
      else
        (case add_vesting_schedule ops account (locked s) (per_block s) (starting_block s) w of
           Inl e \<Rightarrow> Inl (Dispatch_error e)
         | Inr w \<Rightarrow> add_schedules ops account now ss w))"

definition step_w :: "('b world \<Rightarrow> 'e claims_error + 'b world) \<Rightarrow> ('b, 'e, unit) claims_comp" where
  "step_w f w = (case f w of Inl e \<Rightarrow> Inl e | Inr w \<Rightarrow> Inr ((), w))"

text \<open>An empty account gets an inactive existential deposit.\<close>

definition endow :: "('b, 'e) claims_ops \<Rightarrow> account \<Rightarrow> ('b, 'e, unit) claims_comp" where
  "endow ops account =
     bind_c (read_c (total_balance ops account)) (\<lambda>total.
       if total = 0 then
         then_c (step_w (\<lambda>w. map_sum Dispatch_error id (mint_into ops account (minimum_balance ops) w)))
                (modify_c (deactivate ops (minimum_balance ops)))
       else return_c ())"

definition move_balance :: "('b, 'e) claims_ops \<Rightarrow> account \<Rightarrow> account \<Rightarrow> ('b, 'e, nat) claims_comp" where
  "move_balance ops legacy account =
     bind_c (read_c (balance ops legacy)) (\<lambda>amount.
     if amount = 0 then return_c amount
     else
       bind_c (read_c (current_block_number ops)) (\<lambda>now.
       bind_c (read_c (vested ops legacy)) (\<lambda>ss.
       then_c (step_w (\<lambda>w. case remove_schedules ops legacy w of None \<Rightarrow> Inl Diverged | Some r \<Rightarrow> r))
      (then_c (endow ops account)
      (then_c (step_w (\<lambda>w. map_sum Dispatch_error id (transfer_expendable ops legacy account amount w)))
      (then_c (step_w (add_schedules ops account now ss))
       (return_c amount)))))))"

definition move_legacy :: "('b, 'e) claims_ops \<Rightarrow> h160 \<Rightarrow> ('b, 'e, unit) claims_comp" where
  "move_legacy ops address =
     (let legacy = legacy_account ops address; account = revive_account address in
      bind_c (\<lambda>w. Inr (carry_nonce ops legacy account w)) (\<lambda>n.
      bind_c (bind_c (read_c (movable ops legacy)) (\<lambda>ok. if ok then move_balance ops legacy account else return_c 0)) (\<lambda>amount.
      then_c (modify_c (\<lambda>w.
        if consumers (account_get w legacy) = 0 \<and> total_balance ops legacy w = 0
        then w \<lparr> Account := (Account w)(legacy := None) \<rparr> else w))
      (modify_c (\<lambda>w. w \<lparr> claims_events := claims_events w @ [Claimed address account amount n] \<rparr>)))))"

definition pay_fee :: "('b, 'e) claims_ops \<Rightarrow> account \<Rightarrow> nat \<Rightarrow> ('b, 'e, unit) claims_comp" where
  "pay_fee ops account fee =
     (if fee = 0 then return_c ()
      else
        bind_c (\<lambda>w. case withdraw_best_effort ops account fee w of Inl e \<Rightarrow> Inl (Dispatch_error e) | Inr r \<Rightarrow> Inr r) (\<lambda>paid.
        modify_c (OnClaimFee ops paid)))"

text \<open>The dispatchable. It gives the number of schedules the weight is corrected to.\<close>

definition claim :: "('b, 'e) claims_ops \<Rightarrow> bool \<Rightarrow> h160 \<Rightarrow> ('b, 'e, nat) claims_comp" where
  "claim ops authorized address =
     then_c (check_c authorized Bad_origin)
     (let legacy = legacy_account ops address in
      bind_c (read_c (fee_due ops legacy)) (\<lambda>fee.
      bind_c (read_c (schedules ops legacy)) (\<lambda>ss.
      then_c (move_legacy ops address)
     (then_c (pay_fee ops (revive_account address) fee)
      (return_c ss)))))"

definition lift_nonce :: "('b, 'e) claims_ops \<Rightarrow> account \<Rightarrow> 'b world \<Rightarrow> 'b world" where
  "lift_nonce ops who w =
     (if drop 20 who \<noteq> replicate 12 0xEE \<or> account_nonce w who \<noteq> 0 then w
      else snd (carry_nonce ops (legacy_account ops (take 20 who)) who w))"

section \<open>The nonce check of a transaction\<close>

text \<open>
  \<open>CheckNonceKeepSigned\<close> around the check of \<open>frame_system\<close>, whose two phases are the parameters
  \<open>inner_validate\<close> and \<open>inner_prepare\<close>. A transaction is reduced to its nonce.
\<close>

record ('b, 'v, 'x) inner_check =
  inner_validate :: "account option \<Rightarrow> nat \<Rightarrow> 'b world \<Rightarrow> 'x + 'v"
  inner_prepare :: "'v \<Rightarrow> 'b world \<Rightarrow> 'x + 'b world"

definition keep_validate ::
  "('b, 'e) claims_ops \<Rightarrow> ('b, 'v, 'x) inner_check \<Rightarrow> account option \<Rightarrow> nat \<Rightarrow> 'b world \<Rightarrow> 'x + (account option \<times> 'v) \<times> 'b world" where
  "keep_validate ops chk signer n w =
     (let w = (case signer of Some who \<Rightarrow> lift_nonce ops who w | None \<Rightarrow> w) in
      case inner_validate chk signer n w of
        Inl e \<Rightarrow> Inl e
      | Inr val \<Rightarrow> Inr ((signer, val), w))"

definition keep_prepare ::
  "('b, 'e) claims_ops \<Rightarrow> ('b, 'v, 'x) inner_check \<Rightarrow> account option \<times> 'v \<Rightarrow> 'b world \<Rightarrow> 'x + 'b world" where
  "keep_prepare ops chk = (\<lambda>(signer, val) w.
     (let first = (case signer of Some who \<Rightarrow> if account_nonce w who = 0 then Some who else None | None \<Rightarrow> None) in
      case inner_prepare chk val w of
        Inl e \<Rightarrow> Inl e
      | Inr w \<Rightarrow> Inr (case first of Some who \<Rightarrow> inc_providers ops who w | None \<Rightarrow> w)))"

end
