(* ===== verification/EvmClaimsProps.thy ===== *)
theory EvmClaimsProps
  imports EvmClaims
begin

text \<open>
  Correctness of EVM claims: a move takes the whole balance, the vesting schedules and the nonce of
  a Frontier account to the account of the same address under pallet-revive, its loop ends, and
  together with the nonce check it keeps every transaction Frontier executed from running again.
\<close>

section \<open>What the pallets below promise\<close>

text \<open>
  \<open>money_eq\<close>: two worlds agree on balances, schedules and everything else that decides what can be
  moved. \<open>claims_laws\<close> is the documented behaviour of the operations the pallet calls.
\<close>

definition money_eq :: "('b, 'e) claims_ops \<Rightarrow> 'b world \<Rightarrow> 'b world \<Rightarrow> bool" where
  "money_eq ops w w' \<longleftrightarrow>
     (\<forall>a. balance ops a w' = balance ops a w \<and> total_balance ops a w' = total_balance ops a w \<and> Vesting ops a w' = Vesting ops a w
        \<and> movable ops a w' = movable ops a w) \<and>
     current_block_number ops w' = current_block_number ops w"

definition nonces_eq :: "'b world \<Rightarrow> 'b world \<Rightarrow> bool" where
  "nonces_eq w w' \<longleftrightarrow> (\<forall>a. account_nonce w' a = account_nonce w a)"

text \<open>The schedules of a list that still lock something at the current block.\<close>

definition still_locking :: "('b, 'e) claims_ops \<Rightarrow> 'b world \<Rightarrow> VestingInfo list \<Rightarrow> VestingInfo list" where
  "still_locking ops w ss = filter (\<lambda>s. locked_at ops (current_block_number ops w) s \<noteq> 0) ss"

text \<open>
  Removing a schedule takes the first one off the list; removing and adding also prune the finished
  ones, an empty list is no entry, and adding a schedule of amount zero does nothing. The transfer is
  used for a whole balance only.
\<close>

definition claims_laws :: "('b, 'e) claims_ops \<Rightarrow> bool" where
  "claims_laws ops \<longleftrightarrow>
     (\<forall>a w. money_eq ops w (inc_providers ops a w) \<and> nonces_eq w (inc_providers ops a w)) \<and>
     (\<forall>a i w. i = account_get w a \<longrightarrow> (\<forall>n. money_eq ops w (w \<lparr> Account := (Account w)(a \<mapsto> i \<lparr> nonce := n \<rparr>) \<rparr>))) \<and>
     (\<forall>a w. total_balance ops a w = 0 \<longrightarrow> money_eq ops w (w \<lparr> Account := (Account w)(a := None) \<rparr>)) \<and>
     (\<forall>w E. money_eq ops w (w \<lparr> claims_events := E \<rparr>)) \<and>
     (\<forall>v w. money_eq ops w (deactivate ops v w) \<and> nonces_eq w (deactivate ops v w)) \<and>
     (\<forall>a v w w'. mint_into ops a v w = Inr w' \<longrightarrow> nonces_eq w w' \<and> current_block_number ops w' = current_block_number ops w \<and>
        (\<forall>x. balance ops x w' = balance ops x w + (if x = a then v else 0) \<and> Vesting ops x w' = Vesting ops x w)) \<and>
     (\<forall>a b w w'. a \<noteq> b \<longrightarrow> transfer_expendable ops a b (balance ops a w) w = Inr w' \<longrightarrow>
        (\<forall>x. x \<noteq> a \<longrightarrow> account_nonce w' x = account_nonce w x) \<and> current_block_number ops w' = current_block_number ops w \<and>
        (\<forall>x. balance ops x w' = (if x = a then 0 else if x = b then balance ops b w + balance ops a w else balance ops x w)
           \<and> Vesting ops x w' = Vesting ops x w)) \<and>
     (\<forall>n s. locked_at ops n s \<le> locked s) \<and>
     (\<forall>a w w'. remove_vesting_schedule ops a 0 w = Inr w' \<longrightarrow> nonces_eq w w' \<and> current_block_number ops w' = current_block_number ops w \<and>
        (\<forall>x. balance ops x w' = balance ops x w \<and> total_balance ops x w' = total_balance ops x w \<and> (x \<noteq> a \<longrightarrow> Vesting ops x w' = Vesting ops x w)) \<and>
        (\<exists>ss. Vesting ops a w = Some ss
          \<and> Vesting ops a w' = (if still_locking ops w (tl ss) = [] then None else Some (still_locking ops w (tl ss))))) \<and>
     (\<forall>a l p b w w'. add_vesting_schedule ops a l p b w = Inr w' \<longrightarrow> nonces_eq w w' \<and> current_block_number ops w' = current_block_number ops w \<and>
        (\<forall>x. balance ops x w' = balance ops x w \<and> (x \<noteq> a \<longrightarrow> Vesting ops x w' = Vesting ops x w)) \<and>
        vested ops a w' = (if l = 0 then vested ops a w
          else still_locking ops w (vested ops a w @ [\<lparr> locked = l, per_block = p, starting_block = b \<rparr>])))"

text \<open>All that the loop of removals needs to end: a removal that succeeds leaves fewer schedules.\<close>

definition removal_shrinks :: "('b, 'e) claims_ops \<Rightarrow> bool" where
  "removal_shrinks ops \<longleftrightarrow> (\<forall>a w w'. remove_vesting_schedule ops a 0 w = Inr w' \<longrightarrow>
     Vesting ops a w' = None \<or> length (vested ops a w') < length (vested ops a w))"

section \<open>The loops\<close>

lemma still_locking_simps [simp]:
  "still_locking ops w (ss @ ts) = still_locking ops w ss @ still_locking ops w ts"
  "still_locking ops w (still_locking ops w ss) = still_locking ops w ss"
  by (simp_all add: still_locking_def)

lemma still_locking_sum:
  "sum_list (map (locked_at ops (current_block_number ops w)) (still_locking ops w ss))
    = sum_list (map (locked_at ops (current_block_number ops w)) ss)"
  by (induction ss) (simp_all add: still_locking_def)

lemma claims_laws_remove:
  assumes "claims_laws ops" "remove_vesting_schedule ops a 0 w = Inr w'"
  shows "nonces_eq w w'" "current_block_number ops w' = current_block_number ops w"
    "balance ops x w' = balance ops x w" "total_balance ops x w' = total_balance ops x w"
    "x \<noteq> a \<Longrightarrow> Vesting ops x w' = Vesting ops x w"
    "\<exists>ss. Vesting ops a w = Some ss
      \<and> Vesting ops a w' = (if still_locking ops w (tl ss) = [] then None else Some (still_locking ops w (tl ss)))"
  using assms unfolding claims_laws_def by metis+

lemma claims_laws_shrink:
  assumes "claims_laws ops"
  shows "removal_shrinks ops"
  unfolding removal_shrinks_def
proof (intro allI impI)
  fix a w w' assume "remove_vesting_schedule ops a 0 w = Inr w'"
  from claims_laws_remove(6) [OF assms this] obtain ss where
    ss: "Vesting ops a w = Some ss" "Vesting ops a w' = (if still_locking ops w (tl ss) = [] then None else Some (still_locking ops w (tl ss)))"
    by blast
  have "length (still_locking ops w (tl ss)) \<le> length ss - 1"
    unfolding still_locking_def by (metis length_filter_le length_tl)
  then show "Vesting ops a w' = None \<or> length (vested ops a w') < length (vested ops a w)"
    using ss by (cases ss) (auto simp: vested_def)
qed

lemma remove_schedules_ends:
  assumes "removal_shrinks ops"
  shows "\<exists>r. remove_schedules ops a w = Some r"
proof (induction "length (vested ops a w)" arbitrary: w rule: less_induct)
  case less
  have absent: "\<exists>r. remove_schedules ops a w = Some r" if "Vesting ops a w = None" for w
    using that by (subst remove_schedules.simps) simp
  show ?case
  proof (cases "remove_vesting_schedule ops a 0 w")
    case (Inl e)
    then show ?thesis by (subst remove_schedules.simps) simp
  next
    case (Inr w1)
    then have "Vesting ops a w1 = None \<or> length (vested ops a w1) < length (vested ops a w)"
      using assms by (simp add: removal_shrinks_def)
    then have "\<exists>r. remove_schedules ops a w1 = Some r"
      using absent less by blast
    with Inr show ?thesis by (subst remove_schedules.simps) simp
  qed
qed

lemma remove_schedules_result:
  assumes "claims_laws ops" "remove_schedules ops a w = Some (Inr w')"
  shows "nonces_eq w w' \<and> current_block_number ops w' = current_block_number ops w \<and> Vesting ops a w' = None
    \<and> (\<forall>x. balance ops x w' = balance ops x w \<and> total_balance ops x w' = total_balance ops x w
      \<and> (x \<noteq> a \<longrightarrow> Vesting ops x w' = Vesting ops x w))"
  using assms(2)
proof (induction "length (vested ops a w) + (if Vesting ops a w = None then 0 else 1)" arbitrary: w rule: less_induct)
  case less
  show ?case
  proof (cases "Vesting ops a w")
    case None
    with less.prems show ?thesis
      by (subst (asm) remove_schedules.simps) (simp add: nonces_eq_def)
  next
    case (Some ss)
    then obtain w1 where w1: "remove_vesting_schedule ops a 0 w = Inr w1" "remove_schedules ops a w1 = Some (Inr w')"
      using less.prems by (subst (asm) remove_schedules.simps) (auto split: sum.splits)
    note law = claims_laws_remove [OF assms(1) w1(1)]
    have "Vesting ops a w1 = None \<or> length (vested ops a w1) < length (vested ops a w)"
      using claims_laws_shrink [OF assms(1)] w1(1) by (simp add: removal_shrinks_def)
    then have "length (vested ops a w1) + (if Vesting ops a w1 = None then 0 else 1) < length (vested ops a w) + (if Vesting ops a w = None then 0 else 1)"
      by (auto simp: Some vested_def)
    from less.hyps [OF this w1(2)] law show ?thesis
      by (simp add: nonces_eq_def)
  qed
qed

lemma add_schedules_result:
  assumes laws: "claims_laws ops" and "add_schedules ops a (current_block_number ops w) ss w = Inr w'"
  shows "nonces_eq w w' \<and> (\<forall>x. balance ops x w' = balance ops x w \<and> (x \<noteq> a \<longrightarrow> Vesting ops x w' = Vesting ops x w))
    \<and> vested ops a w' = (if still_locking ops w ss = [] then vested ops a w
        else still_locking ops w (vested ops a w) @ still_locking ops w ss)"
  using assms(2)
proof (induction ss arbitrary: w)
  case Nil
  then show ?case by (simp add: nonces_eq_def still_locking_def)
next
  case (Cons s ss)
  let ?now = "current_block_number ops w"
  show ?case
  proof (cases "locked_at ops ?now s = 0")
    case True
    then have "still_locking ops w (s # ss) = still_locking ops w ss"
      by (simp add: still_locking_def)
    with Cons True show ?thesis by simp
  next
    case False
    then obtain w1 where w1: "add_vesting_schedule ops a (locked s) (per_block s) (starting_block s) w = Inr w1"
      "add_schedules ops a ?now ss w1 = Inr w'"
      using Cons.prems by (auto split: sum.splits)
    have eta: "\<lparr> locked = locked s, per_block = per_block s, starting_block = starting_block s \<rparr> = s"
      by simp
    have law: "nonces_eq w w1" "current_block_number ops w1 = ?now" "\<And>x. balance ops x w1 = balance ops x w"
      "\<And>x. x \<noteq> a \<Longrightarrow> Vesting ops x w1 = Vesting ops x w"
      "vested ops a w1 = (if locked s = 0 then vested ops a w else still_locking ops w (vested ops a w @ [s]))"
      using laws w1(1) unfolding claims_laws_def by (metis, metis, metis, metis, metis eta)
    have "locked_at ops ?now s \<le> locked s"
      using laws unfolding claims_laws_def by blast
    with False have "locked s \<noteq> 0" by simp
    moreover have one: "still_locking ops w [s] = [s]" "still_locking ops w (s # ss) = s # still_locking ops w ss"
      using False by (simp_all add: still_locking_def)
    ultimately have v1: "vested ops a w1 = still_locking ops w (vested ops a w) @ [s]"
      using law(5) by simp
    have same: "still_locking ops w1 ts = still_locking ops w ts" for ts
      by (simp add: still_locking_def law(2))
    from Cons.IH [of w1] w1(2) law(2) have IH: "nonces_eq w1 w'" "\<And>x. balance ops x w' = balance ops x w1" "\<And>x. x \<noteq> a \<Longrightarrow> Vesting ops x w' = Vesting ops x w1"
      "vested ops a w' = (if still_locking ops w ss = [] then vested ops a w1 else still_locking ops w (vested ops a w1) @ still_locking ops w ss)"
      by (simp_all add: same)
    then show ?thesis
      using law(1,3,4) v1 one by (simp add: nonces_eq_def)
  qed
qed

lemma remove_schedules_not_diverged: "remove_schedules ops a w = Some r \<Longrightarrow> r \<noteq> Inl Diverged"
  by (rule remove_schedules.raw_induct [where P = "\<lambda>_ _ _ r. r \<noteq> Inl Diverged"])
    (auto split: if_splits sum.splits)

section \<open>Moving the balance\<close>

lemma step_w_Inr_iff [simp]: "step_w f w = Inr (u, w') \<longleftrightarrow> f w = Inr w'"
  by (auto simp: step_w_def split: sum.splits)

lemma claims_lawsD:
  assumes "claims_laws ops"
  shows "money_eq ops w (inc_providers ops a w)" "nonces_eq w (inc_providers ops a w)"
    and "money_eq ops w (w \<lparr> Account := (Account w)(a \<mapsto> (account_get w a) \<lparr> nonce := n \<rparr>) \<rparr>)"
    and "total_balance ops a w = 0 \<Longrightarrow> money_eq ops w (w \<lparr> Account := (Account w)(a := None) \<rparr>)"
    and "money_eq ops w (w \<lparr> claims_events := E \<rparr>)"
    and "money_eq ops w (deactivate ops v w)" "nonces_eq w (deactivate ops v w)"
  using assms by (simp_all add: claims_laws_def)

lemma account_nonce_upd [simp]:
  "account_nonce (w \<lparr> Account := (Account w)(a \<mapsto> i) \<rparr>) x = (if x = a then nonce i else account_nonce w x)"
  "account_nonce (w \<lparr> Account := (Account w)(a := None) \<rparr>) x = (if x = a then 0 else account_nonce w x)"
  "account_nonce (w \<lparr> claims_events := E \<rparr>) x = account_nonce w x"
  by (simp_all add: account_nonce_def account_get_def)

lemma nonces_eq_trans: "nonces_eq u v \<Longrightarrow> nonces_eq v w \<Longrightarrow> nonces_eq u w"
  by (simp add: nonces_eq_def)

lemma money_eq_refl [simp]: "money_eq ops w w"
  by (simp add: money_eq_def)

lemma money_eq_trans: "money_eq ops u v \<Longrightarrow> money_eq ops v w \<Longrightarrow> money_eq ops u w"
  by (simp add: money_eq_def)

lemma endow_result:
  assumes laws: "claims_laws ops" and "endow ops account w = Inr (u, w')"
  shows "nonces_eq w w' \<and> current_block_number ops w' = current_block_number ops w \<and> Vesting ops x w' = Vesting ops x w \<and>
    balance ops x w' = balance ops x w + (if x = account \<and> total_balance ops account w = 0 then minimum_balance ops else 0)"
proof (cases "total_balance ops account w = 0")
  case True
  then obtain w1 where w1: "mint_into ops account (minimum_balance ops) w = Inr w1" "w' = deactivate ops (minimum_balance ops) w1"
    using assms(2) by (auto simp: endow_def)
  have "nonces_eq w w1" "current_block_number ops w1 = current_block_number ops w"
    "\<forall>x. balance ops x w1 = balance ops x w + (if x = account then minimum_balance ops else 0) \<and> Vesting ops x w1 = Vesting ops x w"
    using laws w1(1) unfolding claims_laws_def by (metis, metis, metis)
  with claims_lawsD(6,7) [OF laws, of w1 "minimum_balance ops"] True show ?thesis
    by (simp add: w1(2) nonces_eq_def money_eq_def)
qed (use assms(2) in \<open>auto simp: endow_def nonces_eq_def\<close>)

lemma move_balance_result:
  assumes laws: "claims_laws ops" and ne: "legacy \<noteq> account"
    and "move_balance ops legacy account w = Inr (amount, w')" "0 < balance ops legacy w"
  shows "amount = balance ops legacy w" "x \<noteq> legacy \<Longrightarrow> account_nonce w' x = account_nonce w x"
    "balance ops x w' = (if x = legacy then 0
       else if x = account then balance ops account w + amount + (if total_balance ops account w = 0 then minimum_balance ops else 0)
       else balance ops x w)"
    "Vesting ops legacy w' = None"
    "vested ops account w' = (if still_locking ops w (vested ops legacy w) = [] then vested ops account w
       else still_locking ops w (vested ops account w) @ still_locking ops w (vested ops legacy w))"
proof -
  let ?ss = "vested ops legacy w" and ?now = "current_block_number ops w"
  obtain w1 w2 w3 where 1: "remove_schedules ops legacy w = Some (Inr w1)"
    and 2: "endow ops account w1 = Inr ((), w2)"
    and 3: "transfer_expendable ops legacy account (balance ops legacy w) w2 = Inr w3"
    and 4: "add_schedules ops account ?now ?ss w3 = Inr w'" and amount: "amount = balance ops legacy w"
    using assms(3,4) unfolding move_balance_def
    by (auto split: option.splits)
  note r1 = remove_schedules_result [OF laws 1] and r2 = endow_result [OF laws 2]
  have "balance ops legacy w2 = balance ops legacy w"
    using r1 r2 [of legacy] ne by simp
  with 3 have 3: "transfer_expendable ops legacy account (balance ops legacy w2) w2 = Inr w3"
    by simp
  have r3: "\<And>x. x \<noteq> legacy \<Longrightarrow> account_nonce w3 x = account_nonce w2 x" "current_block_number ops w3 = current_block_number ops w2"
    "\<And>x. balance ops x w3 = (if x = legacy then 0 else if x = account then balance ops account w2 + balance ops legacy w2 else balance ops x w2)"
    "\<And>x. Vesting ops x w3 = Vesting ops x w2"
    using laws 3 ne unfolding claims_laws_def by metis+
  have now: "current_block_number ops w3 = ?now"
    using r1 r2 r3(2) by simp
  have same: "still_locking ops w3 ts = still_locking ops w ts" for ts
    by (simp add: still_locking_def now)
  note r4 = add_schedules_result [OF laws 4 [folded now], unfolded same]
  show "amount = balance ops legacy w" by (rule amount)
  show "x \<noteq> legacy \<Longrightarrow> account_nonce w' x = account_nonce w x"
    using r1 r2 r3(1) r4 by (simp add: nonces_eq_def)
  show "balance ops x w' = (if x = legacy then 0
       else if x = account then balance ops account w + amount + (if total_balance ops account w = 0 then minimum_balance ops else 0)
       else balance ops x w)"
    using r4 r1 r2 ne by (simp add: r3(3) amount)
  show "Vesting ops legacy w' = None"
    using r4 r1 r2 ne by (simp add: r3(4))
  have "vested ops account w3 = vested ops account w"
    using r1 r2 ne by (simp add: vested_def r3(4))
  with r4 show "vested ops account w' = (if still_locking ops w ?ss = [] then vested ops account w
       else still_locking ops w (vested ops account w) @ still_locking ops w ?ss)"
    by simp
qed

lemma carry_nonce_result:
  assumes "claims_laws ops" "carry_nonce ops legacy account w = (n, w')"
  shows "n = max (account_nonce w legacy) (account_nonce w account)" "money_eq ops w w'"
    "account_nonce w' x = (if x = account then n else account_nonce w x)"
proof -
  let ?w1 = "if account_nonce w account = 0 then inc_providers ops account w else w"
  have w1: "money_eq ops w ?w1" "nonces_eq w ?w1"
    using claims_lawsD [OF assms(1)] by (auto simp: money_eq_def nonces_eq_def)
  have w2: "money_eq ops ?w1 (?w1 \<lparr> Account := (Account ?w1)(account \<mapsto> (account_get ?w1 account) \<lparr> nonce := m \<rparr>) \<rparr>)" for m
    by (rule claims_lawsD(3) [OF assms(1)])
  show "n = max (account_nonce w legacy) (account_nonce w account)"
    using assms(2) by (auto simp: carry_nonce_def Let_def split: if_splits)
  show "money_eq ops w w'"
    using assms(2) w1(1) w2 unfolding carry_nonce_def Let_def
    by (auto intro: money_eq_trans split: if_splits)
  show "account_nonce w' x = (if x = account then n else account_nonce w x)"
    using assms(2) w1(2) unfolding carry_nonce_def Let_def
    by (auto simp: nonces_eq_def split: if_splits)
qed

lemma move_legacy_cases:
  assumes "move_legacy ops address w = Inr (u, w')"
  obtains n w1 amount w2 w3 where "carry_nonce ops (legacy_account ops address) (revive_account address) w = (n, w1)"
    "if movable ops (legacy_account ops address) w1
     then move_balance ops (legacy_account ops address) (revive_account address) w1 = Inr (amount, w2) else amount = 0 \<and> w2 = w1"
    "w3 = (if consumers (account_get w2 (legacy_account ops address)) = 0 \<and> total_balance ops (legacy_account ops address) w2 = 0
       then w2 \<lparr> Account := (Account w2)(legacy_account ops address := None) \<rparr> else w2)"
    "w' = w3 \<lparr> claims_events := claims_events w3 @ [Claimed address (revive_account address) amount n] \<rparr>"
proof -
  let ?l = "legacy_account ops address" and ?a = "revive_account address"
  obtain n w1 where c: "carry_nonce ops ?l ?a w = (n, w1)" by fastforce
  with assms obtain amount w2 where
    a: "(if movable ops ?l w1 then move_balance ops ?l ?a else return_c 0) w1 = Inr (amount, w2)" and
    w': "w' = (let w3 = if consumers (account_get w2 ?l) = 0 \<and> total_balance ops ?l w2 = 0
       then w2 \<lparr> Account := (Account w2)(?l := None) \<rparr> else w2 in w3 \<lparr> claims_events := claims_events w3 @ [Claimed address ?a amount n] \<rparr>)"
    by (simp add: move_legacy_def Let_def) blast
  show thesis
    by (rule that [OF c _ refl w' [unfolded Let_def]]) (use a in \<open>simp split: if_splits\<close>)
qed

section \<open>Properties\<close>

text \<open>
  C19: A move takes everything across. If the funds of the Frontier account of an address are not
  held back, then after a successful move that account has no balance and no schedules left, and
  the account pallet-revive resolves the address to has gained exactly that balance (and its
  existential deposit, if it was empty). The schedules of the old account that still lock something
  stand behind those of the new one; where there are such, the finished ones of the new account
  are pruned, and in any case what is locked on the new account is what was locked on both. Its nonce is the
  larger of the two, and no other balance changed.
\<close>

theorem move_legacy_takes_everything:
  assumes "claims_laws ops" "legacy_account ops address \<noteq> revive_account address"
    and "move_legacy ops address w = Inr (u, w')"
    and "movable ops (legacy_account ops address) w" "0 < balance ops (legacy_account ops address) w"
  shows "let legacy = legacy_account ops address; account = revive_account address;
      now_locked = (\<lambda>ss. sum_list (map (locked_at ops (current_block_number ops w)) ss)) in
    balance ops legacy w' = 0 \<and> Vesting ops legacy w' = None
    \<and> balance ops account w' = balance ops account w + balance ops legacy w + (if total_balance ops account w = 0 then minimum_balance ops else 0)
    \<and> vested ops account w' = (if still_locking ops w (vested ops legacy w) = [] then vested ops account w
        else still_locking ops w (vested ops account w) @ still_locking ops w (vested ops legacy w))
    \<and> now_locked (vested ops account w') = now_locked (vested ops account w) + now_locked (vested ops legacy w)
    \<and> account_nonce w' account = max (account_nonce w legacy) (account_nonce w account)
    \<and> (\<forall>x. x \<noteq> legacy \<longrightarrow> x \<noteq> account \<longrightarrow> balance ops x w' = balance ops x w \<and> account_nonce w' x = account_nonce w x)"
proof -
  let ?l = "legacy_account ops address" and ?a = "revive_account address"
  obtain n w1 amount w2 w3 where 1: "carry_nonce ops ?l ?a w = (n, w1)"
    and 2: "if movable ops ?l w1 then move_balance ops ?l ?a w1 = Inr (amount, w2) else amount = 0 \<and> w2 = w1"
    and 3: "w3 = (if consumers (account_get w2 ?l) = 0 \<and> total_balance ops ?l w2 = 0 then w2 \<lparr> Account := (Account w2)(?l := None) \<rparr> else w2)"
    and 4: "w' = w3 \<lparr> claims_events := claims_events w3 @ [Claimed address ?a amount n] \<rparr>"
    using assms(3) by (rule move_legacy_cases)
  note r1 = carry_nonce_result [OF assms(1) 1]
  have same: "movable ops ?l w1" "0 < balance ops ?l w1"
    using r1(2) assms(4,5) by (simp_all add: money_eq_def)
  with 2 have mb: "move_balance ops ?l ?a w1 = Inr (amount, w2)"
    by simp
  note r2 = move_balance_result [OF assms(1,2) mb same(2)]
  have m3: "money_eq ops w2 w'" "\<And>x. x \<noteq> ?l \<Longrightarrow> account_nonce w' x = account_nonce w2 x"
  proof -
    have "money_eq ops w2 w3"
      using claims_lawsD(4) [OF assms(1), of ?l w2] by (auto simp: 3)
    then show "money_eq ops w2 w'"
      unfolding 4 by (rule money_eq_trans) (rule claims_lawsD(5) [OF assms(1)])
    show "\<And>x. x \<noteq> ?l \<Longrightarrow> account_nonce w' x = account_nonce w2 x"
      by (auto simp: 3 4)
  qed
  have b: "balance ops x w' = balance ops x w2" "Vesting ops x w' = Vesting ops x w2" "vested ops x w' = vested ops x w2"
    "balance ops x w1 = balance ops x w" "total_balance ops x w1 = total_balance ops x w" "vested ops x w1 = vested ops x w"
    "current_block_number ops w1 = current_block_number ops w" for x
    using m3(1) r1(2) by (simp_all add: money_eq_def vested_def)
  have lock: "still_locking ops w1 ts = still_locking ops w ts" for ts
    by (simp add: still_locking_def b)
  have v: "vested ops ?a w' = (if still_locking ops w (vested ops ?l w) = [] then vested ops ?a w
      else still_locking ops w (vested ops ?a w) @ still_locking ops w (vested ops ?l w))"
    using r2(5) by (simp add: b lock)
  have sums: "sum_list (map (locked_at ops (current_block_number ops w)) (vested ops ?a w'))
      = sum_list (map (locked_at ops (current_block_number ops w)) (vested ops ?a w))
      + sum_list (map (locked_at ops (current_block_number ops w)) (vested ops ?l w))"
    using still_locking_sum [of ops w "vested ops ?l w"] still_locking_sum [of ops w "vested ops ?a w"]
    by (auto simp: v)
  show ?thesis
    unfolding Let_def
  proof (intro conjI allI impI)
    fix x assume x: "x \<noteq> ?l" "x \<noteq> ?a"
    show "balance ops x w' = balance ops x w" "account_nonce w' x = account_nonce w x"
      using x by (simp_all add: b r2(3) m3(2) r2(2) r1(3))
  qed (use assms(2) v sums in \<open>simp_all add: b r2(1,3,4) m3(2) r2(2) r1(1,3)\<close>)
qed

text \<open>
  C37: A move always ends: as long as a removal that succeeds leaves fewer schedules, the loop that
  takes the vesting schedules off the old account terminates for every account and every state, so
  moving never diverges.
\<close>

theorem move_legacy_terminates:
  assumes "removal_shrinks ops"
  shows "move_legacy ops address w \<noteq> Inl Diverged"
proof -
  have add: "add_schedules ops a now ss w \<noteq> Inl Diverged" for a now ss w
    by (induction ss arbitrary: w) (auto split: sum.splits)
  have rem: "\<exists>r. remove_schedules ops a w = Some r" for a w
    using remove_schedules_ends [OF assms] by blast
  have "map_sum Dispatch_error id r \<noteq> Inl Diverged" for r
    by (cases r) auto
  then have dispatch: "step_w (\<lambda>w. map_sum Dispatch_error id (f w)) w \<noteq> Inl Diverged" for f :: "'a world \<Rightarrow> 'b + 'a world" and w
    by (auto simp: step_w_def split: sum.splits)
  then have endow: "endow ops a w \<noteq> Inl Diverged" for a w
    by (auto simp: endow_def comp_Inl_iff split: if_splits)
  have "step_w (\<lambda>w. case remove_schedules ops l w of None \<Rightarrow> Inl Diverged | Some r \<Rightarrow> r) w \<noteq> Inl Diverged" for l w
    using rem [of l w] by (auto simp: step_w_def split: sum.splits dest: remove_schedules_not_diverged)
  moreover have "step_w (add_schedules ops a now ss) w \<noteq> Inl Diverged" for a now ss w
    using add by (auto simp: step_w_def split: sum.splits)
  ultimately have "move_balance ops l a w \<noteq> Inl Diverged" for l a w
    using endow dispatch by (auto simp: move_balance_def comp_Inl_iff split: if_splits)
  then show ?thesis
    by (auto simp: move_legacy_def comp_Inl_iff Let_def split: if_splits)
qed

text \<open>A world of plain balances and schedules for the witnesses.\<close>

type_synonym plain_bank = "(account \<Rightarrow> nat) \<times> (account \<Rightarrow> VestingInfo list option)"

definition plain_put :: "VestingInfo list \<Rightarrow> VestingInfo list option" where
  "plain_put ss = (let kept = filter (\<lambda>s. locked s - per_block s * (3 - starting_block s) \<noteq> 0) ss in if kept = [] then None else Some kept)"

definition sample_claims :: "(plain_bank, unit) claims_ops" where
  "sample_claims = \<lparr>
     inc_providers = (\<lambda>a w. w \<lparr> Account := (Account w)(a \<mapsto> (account_get w a) \<lparr> providers := providers (account_get w a) + 1 \<rparr>) \<rparr>),
     blake2_256 = (\<lambda>b. 0 # b), ClaimFee = (\<lambda>w. 2), OnClaimFee = (\<lambda>v w. w), MAX_VESTING_SCHEDULES = 28,
     reserved_balance = (\<lambda>a w. 0), Freezes = (\<lambda>a w. []), Locks = (\<lambda>a w. []),
     reducible_balance = (\<lambda>a w. fst (bank w) a), balance = (\<lambda>a w. fst (bank w) a), total_balance = (\<lambda>a w. fst (bank w) a),
     minimum_balance = 1,
     mint_into = (\<lambda>a v w. Inr (w \<lparr> bank := ((fst (bank w))(a := fst (bank w) a + v), snd (bank w)) \<rparr>)),
     deactivate = (\<lambda>v w. w),
     transfer_expendable = (\<lambda>a b v w. if v \<le> fst (bank w) a
       then Inr (w \<lparr> bank := ((fst (bank w))(a := fst (bank w) a - v, b := fst (bank w) b + v), snd (bank w)) \<rparr>) else Inl ()),
     withdraw_best_effort = (\<lambda>a v w. Inr (min v (fst (bank w) a), w \<lparr> bank := ((fst (bank w))(a := fst (bank w) a - v), snd (bank w)) \<rparr>)),
     Vesting = (\<lambda>a w. snd (bank w) a),
     remove_vesting_schedule = (\<lambda>a i w. case snd (bank w) a of
         Some ss \<Rightarrow> Inr (w \<lparr> bank := (fst (bank w), (snd (bank w))(a := plain_put (tl ss))) \<rparr>) | None \<Rightarrow> Inl ()),
     add_vesting_schedule = (\<lambda>a l p b w. Inr (if l = 0 then w else w \<lparr> bank := (fst (bank w), (snd (bank w))(a :=
       plain_put ((case snd (bank w) a of Some ss \<Rightarrow> ss | None \<Rightarrow> []) @ [\<lparr> locked = l, per_block = p, starting_block = b \<rparr>]))) \<rparr>)),
     locked_at = (\<lambda>now s. locked s - per_block s * (now - starting_block s)), current_block_number = (\<lambda>w. 3) \<rparr>"

lemma sample_claims_laws: "claims_laws sample_claims"
  unfolding claims_laws_def money_eq_def nonces_eq_def movable_def still_locking_def vested_def
  by (auto simp: sample_claims_def account_nonce_def account_get_def plain_put_def Let_def split: option.splits if_splits)

definition sample_address :: h160 where
  "sample_address = replicate 20 7"

definition sample_world :: "plain_bank world" where
  "sample_world = \<lparr> Account = (\<lambda>_. None)(legacy_account sample_claims sample_address \<mapsto> \<lparr> nonce = 4, consumers = 0, providers = 2 \<rparr>),
     bank = ((\<lambda>_. 0)(legacy_account sample_claims sample_address := 50),
       (\<lambda>_. None)(revive_account sample_address \<mapsto> [\<lparr> locked = 2, per_block = 1, starting_block = 0 \<rparr>],
         legacy_account sample_claims sample_address \<mapsto>
         [\<lparr> locked = 3, per_block = 1, starting_block = 0 \<rparr>, \<lparr> locked = 9, per_block = 1, starting_block = 0 \<rparr>])),
     claims_events = [] \<rparr>"

lemma sample_accounts: "legacy_account sample_claims sample_address \<noteq> revive_account sample_address"
  by (simp add: legacy_account_def revive_account_def sample_claims_def sample_address_def numeral_eq_Suc)

lemma sample_sel:
  "balance sample_claims a w = fst (bank w) a" "total_balance sample_claims a w = fst (bank w) a" "Vesting sample_claims a w = snd (bank w) a"
  "movable sample_claims a w" "minimum_balance sample_claims = 1" "current_block_number sample_claims w = 3" "deactivate sample_claims v w = w"
  "inc_providers sample_claims a w = w \<lparr> Account := (Account w)(a \<mapsto> (account_get w a) \<lparr> providers := providers (account_get w a) + 1 \<rparr>) \<rparr>"
  "mint_into sample_claims a v w = Inr (w \<lparr> bank := ((fst (bank w))(a := fst (bank w) a + v), snd (bank w)) \<rparr>)"
  "transfer_expendable sample_claims a b v w = (if v \<le> fst (bank w) a
     then Inr (w \<lparr> bank := ((fst (bank w))(a := fst (bank w) a - v, b := fst (bank w) b + v), snd (bank w)) \<rparr>) else Inl ())"
  "add_vesting_schedule sample_claims a l p st w = Inr (if l = 0 then w else w \<lparr> bank := (fst (bank w), (snd (bank w))(a :=
     plain_put ((case snd (bank w) a of Some ss \<Rightarrow> ss | None \<Rightarrow> []) @ [\<lparr> locked = l, per_block = p, starting_block = st \<rparr>]))) \<rparr>)"
  "remove_vesting_schedule sample_claims a i w = (case snd (bank w) a of
     Some ss \<Rightarrow> Inr (w \<lparr> bank := (fst (bank w), (snd (bank w))(a := plain_put (tl ss))) \<rparr>) | None \<Rightarrow> Inl ())"
  "locked_at sample_claims now t = locked t - per_block t * (now - starting_block t)"
  by (simp_all add: movable_def) (simp_all add: sample_claims_def)

lemma sample_move: "\<exists>w'. move_legacy sample_claims sample_address sample_world = Inr ((), w')"
proof -
  let ?l = "legacy_account sample_claims sample_address" and ?a = "revive_account sample_address"
  have rem: "remove_schedules sample_claims ?l w = Some (Inr (w \<lparr> bank := (fst (bank w), (snd (bank w))(?l := None)) \<rparr>))"
    if "snd (bank w) ?l = Some [a, \<lparr> locked = 9, per_block = 1, starting_block = 0 \<rparr>]" for a w
    using that by (subst remove_schedules.simps, simp add: sample_sel plain_put_def, subst remove_schedules.simps,
      simp add: sample_sel plain_put_def, subst remove_schedules.simps, simp add: sample_sel)
  have move: "\<exists>m w'. move_balance sample_claims ?l ?a w = Inr (m, w')" if "bank w = bank sample_world" for w
  proof -
    have b: "bank w = ((\<lambda>_. 0)(?l := 50), [?a \<mapsto> [\<lparr> locked = 2, per_block = 1, starting_block = 0 \<rparr>],
        ?l \<mapsto> [\<lparr> locked = 3, per_block = 1, starting_block = 0 \<rparr>, \<lparr> locked = 9, per_block = 1, starting_block = 0 \<rparr>]])"
      using that by (simp add: sample_world_def)
    then have "remove_schedules sample_claims ?l w = Some (Inr (w \<lparr> bank := (fst (bank w), (snd (bank w))(?l := None)) \<rparr>))"
      by (intro rem) simp
    then show ?thesis
      using sample_accounts by (simp add: move_balance_def comp_eval step_w_def endow_def sample_sel vested_def b)
  qed
  have "bank (snd (carry_nonce sample_claims ?l ?a sample_world)) = bank sample_world"
    by (simp add: carry_nonce_def Let_def sample_sel)
  then obtain n w1 where w1: "carry_nonce sample_claims ?l ?a sample_world = (n, w1)" "bank w1 = bank sample_world"
    by (metis prod.collapse)
  from move [OF w1(2)] show ?thesis
    using w1(1) by (auto simp: move_legacy_def comp_eval sample_sel Let_def)
qed

theorem move_legacy_takes_everything_witness:
  "\<exists>w'. move_legacy sample_claims sample_address sample_world = Inr ((), w')
    \<and> balance sample_claims (revive_account sample_address) w' = 51 \<and> account_nonce w' (revive_account sample_address) = 4
    \<and> vested sample_claims (revive_account sample_address) w' = [\<lparr> locked = 9, per_block = 1, starting_block = 0 \<rparr>]"
proof -
  let ?l = "legacy_account sample_claims sample_address" and ?a = "revive_account sample_address"
  obtain w' where w': "move_legacy sample_claims sample_address sample_world = Inr ((), w')"
    using sample_move by blast
  have "movable sample_claims ?l sample_world" "balance sample_claims ?l sample_world = 50" "balance sample_claims ?a sample_world = 0"
    "total_balance sample_claims ?a sample_world = 0" "minimum_balance sample_claims = 1" "account_nonce sample_world ?l = 4"
    "account_nonce sample_world ?a = 0" "still_locking sample_claims sample_world (vested sample_claims ?a sample_world) = []"
    "still_locking sample_claims sample_world (vested sample_claims ?l sample_world) = [\<lparr> locked = 9, per_block = 1, starting_block = 0 \<rparr>]"
    using sample_accounts
    by (auto simp: movable_def sample_claims_def sample_world_def account_nonce_def account_get_def vested_def still_locking_def)
  with move_legacy_takes_everything [OF sample_claims_laws sample_accounts w'] w' show ?thesis
    by (auto simp: Let_def)
qed

theorem move_legacy_terminates_witness: "move_legacy sample_claims sample_address sample_world \<noteq> Inl Diverged"
  by (rule move_legacy_terminates [OF claims_laws_shrink [OF sample_claims_laws]])

end
