(* ===== verification/NonceReplay.thy ===== *)
theory NonceReplay
  imports EvmClaimsProps
begin

text \<open>
  Why a transaction that Frontier executed cannot run again under pallet-revive. The runtime is a
  state machine whose steps are a signed transaction passing the nonce check, a claim of any
  address, and anything else the balances and vesting pallets do. Reaping an account resets its
  nonce, so the argument rests on the providers of an account that these pallets do not hold:
  \<open>own a w\<close> counts them, and while there is one, the account and its nonce stay.
\<close>

section \<open>What the pallets below promise\<close>

text \<open>
  The nonce check of \<open>frame_system\<close> rejects a stale nonce when it validates and a future one when it
  prepares, so a transaction that passes both on the same state has the nonce of its signer. Nonces
  are 32 bits wide; a signer who has used up all of them is left out.
\<close>

definition bank_step :: "(account \<Rightarrow> 'b world \<Rightarrow> nat) \<Rightarrow> 'b world \<Rightarrow> 'b world \<Rightarrow> bool" where
  "bank_step own w w' \<longleftrightarrow> (\<forall>x. own x w' = own x w \<and>
     (account_nonce w' x = account_nonce w x \<or> own x w = 0 \<and> account_nonce w' x = 0))"

definition ref_laws :: "('b, 'e) claims_ops \<Rightarrow> ('b, 'v, 'x) inner_check \<Rightarrow> (account \<Rightarrow> 'b world \<Rightarrow> nat) \<Rightarrow> bool" where
  "ref_laws ops chk own \<longleftrightarrow>
     (\<forall>a x w. own x (inc_providers ops a w) = own x w + (if x = a then 1 else 0) \<and> account_nonce (inc_providers ops a w) x = account_nonce w x) \<and>
     (\<forall>a x n w. own x (w \<lparr> Account := (Account w)(a \<mapsto> (account_get w a) \<lparr> nonce := n \<rparr>) \<rparr>) = own x w) \<and>
     (\<forall>a x w. x \<noteq> a \<longrightarrow> own x (w \<lparr> Account := (Account w)(a := None) \<rparr>) = own x w) \<and>
     (\<forall>x w E. own x (w \<lparr> claims_events := E \<rparr>) = own x w) \<and>
     (\<forall>a v w w'. mint_into ops a v w = Inr w' \<longrightarrow> bank_step own w w') \<and>
     (\<forall>v w. bank_step own w (deactivate ops v w)) \<and>
     (\<forall>a b v w w'. transfer_expendable ops a b v w = Inr w' \<longrightarrow> bank_step own w w') \<and>
     (\<forall>a v w p w'. withdraw_best_effort ops a v w = Inr (p, w') \<longrightarrow> bank_step own w w') \<and>
     (\<forall>v w. bank_step own w (OnClaimFee ops v w)) \<and>
     (\<forall>a w w'. remove_vesting_schedule ops a 0 w = Inr w' \<longrightarrow> bank_step own w w') \<and>
     (\<forall>a l p b w w'. add_vesting_schedule ops a l p b w = Inr w' \<longrightarrow> bank_step own w w') \<and>
     (\<forall>who n v w w'. inner_validate chk (Some who) n w = Inr v \<longrightarrow> inner_prepare chk v w = Inr w' \<longrightarrow> n + 1 < 2 ^ 32 \<longrightarrow>
        n = account_nonce w who \<and> (\<forall>x. own x w' = own x w \<and> account_nonce w' x = (if x = who then n + 1 else account_nonce w x)))"

text \<open>
  The address the argument is about and the addresses \<open>A\<close> that are claimed do not collide: none of
  them shares its Frontier account with \<open>ad\<close>, and no Frontier account in play is one of
  pallet-revive.
\<close>

definition accounts_apart :: "('b, 'e) claims_ops \<Rightarrow> h160 \<Rightarrow> h160 set \<Rightarrow> bool" where
  "accounts_apart ops ad A \<longleftrightarrow> length ad = 20 \<and> (\<forall>x \<in> insert ad A. length x = 20
     \<and> legacy_account ops x \<noteq> revive_account ad \<and> revive_account x \<noteq> legacy_account ops ad
     \<and> (legacy_account ops x = legacy_account ops ad \<longrightarrow> x = ad))"

section \<open>The machine\<close>

text \<open>
  The state is the world and the transactions executed so far, as signer and nonce. Nobody holds
  the key of the Frontier account of \<open>ad\<close>, the address the argument is about. Claims are for
  addresses in \<open>A\<close>. The extensions before the nonce check prepare without touching the state, so
  it prepares where it validated.
\<close>

inductive nstep :: "('b, 'e) claims_ops \<Rightarrow> ('b, 'v, 'x) inner_check \<Rightarrow> (account \<Rightarrow> 'b world \<Rightarrow> nat) \<Rightarrow> h160 \<Rightarrow> h160 set \<Rightarrow>
  'b world \<times> (account \<times> nat) list \<Rightarrow> 'b world \<times> (account \<times> nat) list \<Rightarrow> bool"
  for ops :: "('b, 'e) claims_ops" and chk :: "('b, 'v, 'x) inner_check" and own :: "account \<Rightarrow> 'b world \<Rightarrow> nat" and ad :: h160 and A :: "h160 set" where
  signed: "keep_validate ops chk (Some who) n w = Inr (val, w1) \<Longrightarrow> keep_prepare ops chk val w1 = Inr w2 \<Longrightarrow>
    who \<noteq> legacy_account ops ad \<Longrightarrow> n + 1 < 2 ^ 32 \<Longrightarrow> nstep ops chk own ad A (w, ex) (w2, (who, n) # ex)"
| claimed: "claim ops authorized ad' w = Inr (ss, w') \<Longrightarrow> ad' \<in> A \<Longrightarrow> nstep ops chk own ad A (w, ex) (w', ex)"
| others: "bank_step own w w' \<Longrightarrow> nstep ops chk own ad A (w, ex) (w', ex)"

definition ninit :: "('b, 'e) claims_ops \<Rightarrow> (account \<Rightarrow> 'b world \<Rightarrow> nat) \<Rightarrow> h160 \<Rightarrow> nat \<Rightarrow> 'b world \<times> (account \<times> nat) list \<Rightarrow> bool" where
  "ninit ops own ad N = (\<lambda>(w, ex). ex = [] \<and> account_nonce w (legacy_account ops ad) = N \<and> 0 < own (legacy_account ops ad) w \<and>
     account_nonce w (revive_account ad) = 0)"

text \<open>Either the nonce has been carried over, or it still waits on the Frontier account.\<close>

definition spent :: "('b, 'e) claims_ops \<Rightarrow> (account \<Rightarrow> 'b world \<Rightarrow> nat) \<Rightarrow> h160 \<Rightarrow> nat \<Rightarrow> 'b world \<Rightarrow> bool" where
  "spent ops own ad N w \<longleftrightarrow>
     (account_nonce w (revive_account ad) \<noteq> 0 \<longrightarrow> 0 < own (revive_account ad) w) \<and>
     (N \<le> account_nonce w (revive_account ad) \<or>
      account_nonce w (revive_account ad) = 0 \<and> account_nonce w (legacy_account ops ad) = N \<and> 0 < own (legacy_account ops ad) w)"

definition ninv :: "('b, 'e) claims_ops \<Rightarrow> ('b, 'v, 'x) inner_check \<Rightarrow> (account \<Rightarrow> 'b world \<Rightarrow> nat) \<Rightarrow> h160 \<Rightarrow> h160 set \<Rightarrow> nat \<Rightarrow>
  'b world \<times> (account \<times> nat) list \<Rightarrow> bool" where
  "ninv ops chk own ad A N = (\<lambda>(w, ex). ref_laws ops chk own \<and> accounts_apart ops ad A \<longrightarrow>
     spent ops own ad N w \<and> (\<forall>n. (revive_account ad, n) \<in> set ex \<longrightarrow> N \<le> n))"

section \<open>Steps of the banks\<close>

lemma bank_step_refl [simp]: "bank_step own w w"
  by (simp add: bank_step_def)

lemma bank_step_trans: "bank_step own u v \<Longrightarrow> bank_step own v w \<Longrightarrow> bank_step own u w"
  unfolding bank_step_def by metis

lemma bank_step_spent: "bank_step own w w' \<Longrightarrow> spent ops own ad N w \<Longrightarrow> spent ops own ad N w'"
  unfolding bank_step_def spent_def by (metis gr_implies_not_zero le_zero_eq)

lemma bank_step_carried:
  "bank_step own w w' \<Longrightarrow> spent ops own ad N w \<Longrightarrow> N \<le> account_nonce w (revive_account ad) \<Longrightarrow> N \<le> account_nonce w' (revive_account ad)"
  unfolding bank_step_def spent_def by (metis gr_implies_not_zero)

lemma remove_schedules_bank:
  "remove_schedules ops a w = Some r \<Longrightarrow> ref_laws ops chk own \<longrightarrow> (\<forall>w'. r = Inr w' \<longrightarrow> bank_step own w w')"
proof (erule remove_schedules.raw_induct [where P = "\<lambda>ops a w r. ref_laws ops chk own \<longrightarrow> (\<forall>w'. r = Inr w' \<longrightarrow> bank_step own w w')", rotated])
  fix rec :: "('b, 'e) claims_ops \<Rightarrow> account \<Rightarrow> 'b world \<Rightarrow> ('e claims_error + 'b world) option" and ops a w y
  assume IH: "\<And>ops a w y. rec ops a w = Some y \<Longrightarrow> ref_laws ops chk own \<longrightarrow> (\<forall>w'. y = Inr w' \<longrightarrow> bank_step own w w')"
    and body: "(if Vesting ops a w \<noteq> None then case remove_vesting_schedule ops a 0 w of
        Inl e \<Rightarrow> Some (Inl (Dispatch_error e)) | Inr w \<Rightarrow> rec ops a w else Some (Inr w)) = Some y"
  have "bank_step own w w1" if "remove_vesting_schedule ops a 0 w = Inr w1" "ref_laws ops chk own" for w1
    using that unfolding ref_laws_def by blast
  then show "ref_laws ops chk own \<longrightarrow> (\<forall>w'. y = Inr w' \<longrightarrow> bank_step own w w')"
    using body IH by (auto split: if_splits sum.splits intro: bank_step_trans)
qed

lemma add_schedules_bank:
  assumes "ref_laws ops chk own"
  shows "add_schedules ops a now ss w = Inr w' \<Longrightarrow> bank_step own w w'"
proof (induction ss arbitrary: w)
  case (Cons s ss)
  have "bank_step own w w1" if "add_vesting_schedule ops a (locked s) (per_block s) (starting_block s) w = Inr w1" for w1
    using that assms unfolding ref_laws_def by blast
  with Cons show ?case
    by (auto split: if_splits sum.splits intro: bank_step_trans)
qed simp

lemma ref_lawsD:
  assumes "ref_laws ops chk own"
  shows "own x (inc_providers ops a w) = own x w + (if x = a then 1 else 0)" "account_nonce (inc_providers ops a w) x = account_nonce w x"
    "own x (w \<lparr> Account := (Account w)(a \<mapsto> (account_get w a) \<lparr> nonce := n \<rparr>) \<rparr>) = own x w"
    "x \<noteq> a \<Longrightarrow> own x (w \<lparr> Account := (Account w)(a := None) \<rparr>) = own x w"
    "own x (w \<lparr> claims_events := E \<rparr>) = own x w"
  using assms by (simp_all add: ref_laws_def)

lemma ref_laws_bank:
  assumes "ref_laws ops chk own"
  shows "mint_into ops a v w = Inr w' \<Longrightarrow> bank_step own w w'" "bank_step own w (deactivate ops v w)"
    "transfer_expendable ops a b v w = Inr w' \<Longrightarrow> bank_step own w w'"
    "withdraw_best_effort ops a v w = Inr (q, w') \<Longrightarrow> bank_step own w w'" "bank_step own w (OnClaimFee ops v w)"
  using assms unfolding ref_laws_def by metis+

lemma move_balance_bank:
  assumes laws: "ref_laws ops chk own" and "move_balance ops l a w = Inr (m, w')"
  shows "bank_step own w w'"
proof (cases "balance ops l w = 0")
  case False
  obtain w1 w2 w3 where 1: "remove_schedules ops l w = Some (Inr w1)" and 2: "endow ops a w1 = Inr ((), w2)"
    and 3: "transfer_expendable ops l a (balance ops l w) w2 = Inr w3"
    and 4: "add_schedules ops a (current_block_number ops w) (vested ops l w) w3 = Inr w'"
    using assms(2) False unfolding move_balance_def by (auto split: option.splits)
  have "bank_step own w1 w2"
    using 2 by (auto simp: endow_def split: if_splits intro: bank_step_trans [OF ref_laws_bank(1) [OF laws] ref_laws_bank(2) [OF laws]])
  then show ?thesis
    using remove_schedules_bank [OF 1, of chk own] laws ref_laws_bank(3) [OF laws 3] add_schedules_bank [OF laws 4]
    by (auto intro: bank_step_trans)
qed (use assms(2) in \<open>auto simp: move_balance_def\<close>)

section \<open>The other steps\<close>

lemma carry_nonce_own:
  assumes "ref_laws ops chk own" "carry_nonce ops l a w = (n, w')"
  shows "account_nonce w' x = (if x = a then max (account_nonce w l) (account_nonce w a) else account_nonce w x)"
    "own x w \<le> own x w'" "x \<noteq> a \<Longrightarrow> own x w' = own x w"
    "account_nonce w a = 0 \<Longrightarrow> account_nonce w' a \<noteq> 0 \<Longrightarrow> 0 < own a w'"
  using assms(2) ref_lawsD [OF assms(1)] by (auto simp: carry_nonce_def Let_def split: if_splits)

text \<open>Carrying a nonce to the account of \<open>ad\<close> itself, or to another account.\<close>

lemma carry_nonce_spent:
  assumes "ref_laws ops chk own" "carry_nonce ops (legacy_account ops ad) (revive_account ad) w = (n, w')" "spent ops own ad N w"
  shows "spent ops own ad N w'" "N \<le> account_nonce w' (revive_account ad)"
proof -
  note c = carry_nonce_own [OF assms(1,2)]
  show "N \<le> account_nonce w' (revive_account ad)"
    using assms(3) by (auto simp: c(1) spent_def)
  moreover have "account_nonce w' (revive_account ad) \<noteq> 0 \<longrightarrow> 0 < own (revive_account ad) w'"
    using assms(3) c(2) [of "revive_account ad"] c(4) unfolding spent_def by force
  ultimately show "spent ops own ad N w'"
    by (simp add: spent_def)
qed

lemma carry_nonce_other:
  assumes "ref_laws ops chk own" "carry_nonce ops l a w = (n, w')" "spent ops own ad N w" "a \<noteq> revive_account ad" "a \<noteq> legacy_account ops ad"
  shows "spent ops own ad N w'"
  using assms(3-5) carry_nonce_own(1,3) [OF assms(1,2)] by (auto simp: spent_def)

lemma move_legacy_spent:
  assumes laws: "ref_laws ops chk own" and apart: "accounts_apart ops ad A" "ad' \<in> A"
    and "move_legacy ops ad' w = Inr (u, w')" "spent ops own ad N w"
  shows "spent ops own ad N w'"
proof -
  let ?l = "legacy_account ops ad'" and ?a = "revive_account ad'"
  obtain n w1 amount w2 w3 where 1: "carry_nonce ops ?l ?a w = (n, w1)"
    and 2: "if movable ops ?l w1 then move_balance ops ?l ?a w1 = Inr (amount, w2) else amount = 0 \<and> w2 = w1"
    and 3: "w3 = (if consumers (account_get w2 ?l) = 0 \<and> total_balance ops ?l w2 = 0 then w2 \<lparr> Account := (Account w2)(?l := None) \<rparr> else w2)"
    and 4: "w' = w3 \<lparr> claims_events := claims_events w3 @ [Claimed ad' ?a amount n] \<rparr>"
    using assms(4) by (rule move_legacy_cases)
  have bank: "bank_step own w1 w2"
    using 2 move_balance_bank [OF laws] by (auto split: if_splits)
  have ne: "?l \<noteq> revive_account ad" "?a \<noteq> legacy_account ops ad" "ad' \<noteq> ad \<Longrightarrow> ?l \<noteq> legacy_account ops ad"
    "ad' \<noteq> ad \<Longrightarrow> ?a \<noteq> revive_account ad"
    using apart unfolding accounts_apart_def by (auto simp: revive_account_def)
  have "spent ops own ad N w2 \<and> (ad' = ad \<longrightarrow> N \<le> account_nonce w2 (revive_account ad))"
  proof (cases "ad' = ad")
    case True
    with carry_nonce_spent [OF laws 1 [unfolded True] assms(5)] bank show ?thesis
      using bank_step_spent bank_step_carried by metis
  next
    case False
    with carry_nonce_other [OF laws 1 assms(5)] ne bank show ?thesis
      using bank_step_spent by metis
  qed
  then have "spent ops own ad N w3"
    using ne ref_lawsD(4) [OF laws] by (cases "ad' = ad") (auto simp: 3 spent_def)
  then show ?thesis
    by (simp add: 4 spent_def ref_lawsD(5) [OF laws])
qed

lemma claim_spent:
  assumes "ref_laws ops chk own" "accounts_apart ops ad A" "ad' \<in> A" "claim ops authorized ad' w = Inr (ss, w')" "spent ops own ad N w"
  shows "spent ops own ad N w'"
proof -
  obtain u w1 where 1: "move_legacy ops ad' w = Inr (u, w1)"
    and 2: "pay_fee ops (revive_account ad') (fee_due ops (legacy_account ops ad') w) w1 = Inr ((), w')"
    using assms(4) by (auto simp: claim_def Let_def)
  have "bank_step own w1 w'"
    using 2 by (auto simp: pay_fee_def split: if_splits sum.splits
        intro: bank_step_trans [OF ref_laws_bank(4) [OF assms(1)] ref_laws_bank(5) [OF assms(1)]])
  then show ?thesis
    using move_legacy_spent [OF assms(1-3) 1 assms(5)] by (rule bank_step_spent)
qed

lemma signed_spent:
  assumes laws: "ref_laws ops chk own" and ad: "length ad = 20" and n: "n + 1 < 2 ^ 32"
    and val: "keep_validate ops chk (Some who) n w = Inr (val, w1)" and prep: "keep_prepare ops chk val w1 = Inr w2"
    and key: "who \<noteq> legacy_account ops ad" and inv: "spent ops own ad N w"
  shows "spent ops own ad N w2 \<and> (who = revive_account ad \<longrightarrow> N \<le> n)"
proof -
  obtain v where v: "w1 = lift_nonce ops who w" "inner_validate chk (Some who) n w1 = Inr v" "val = (Some who, v)"
    using val by (auto simp: keep_validate_def Let_def split: sum.splits)
  obtain w3 where w3: "inner_prepare chk v w1 = Inr w3" "w2 = (if account_nonce w1 who = 0 then inc_providers ops who w3 else w3)"
    using prep by (auto simp: keep_prepare_def v(3) Let_def split: sum.splits)
  have step: "n = account_nonce w1 who" "\<And>x. own x w3 = own x w1" "\<And>x. account_nonce w3 x = (if x = who then n + 1 else account_nonce w1 x)"
    using laws v(2) w3(1) n unfolding ref_laws_def by metis+
  have lifted: "spent ops own ad N w1 \<and> (who = revive_account ad \<longrightarrow> N \<le> account_nonce w1 (revive_account ad))"
  proof (cases "who = revive_account ad")
    case True
    then have "drop 20 who = replicate 12 0xEE" "take 20 who = ad"
      using ad by (simp_all add: revive_account_def)
    then show ?thesis
      using inv True carry_nonce_spent [OF laws _ inv] unfolding v(1) lift_nonce_def
      by (cases "account_nonce w who = 0") (auto simp: spent_def prod_eq_iff)
  next
    case False
    then show ?thesis
      using inv carry_nonce_other [OF laws _ inv, of _ who] key unfolding v(1) lift_nonce_def by (auto simp: prod_eq_iff)
  qed
  then show ?thesis
    using key step ref_lawsD(1,2) [OF laws] unfolding w3(2) spent_def by (cases "who = revive_account ad") auto
qed

interpretation nonce_machine: invariant_system "ninit ops own ad N" "nstep ops chk own ad A" "ninv ops chk own ad A N"
  for ops :: "('b, 'e) claims_ops" and chk :: "('b, 'v, 'x) inner_check" and own ad A N
proof
  fix s t :: "'b world \<times> (account \<times> nat) list"
  show "ninit ops own ad N s \<Longrightarrow> ninv ops chk own ad A N s"
    by (auto simp: ninit_def ninv_def spent_def)
  assume inv: "ninv ops chk own ad A N s" and "nstep ops chk own ad A s t"
  from this(2) show "ninv ops chk own ad A N t"
  proof cases
    case (signed who n w val w1 w2 ex)
    then show ?thesis
      using inv signed_spent [OF _ _ signed(6,3,4,5)] by (auto simp: ninv_def accounts_apart_def)
  next
    case (claimed authorized ad' w ss w' ex)
    then show ?thesis
      using inv claim_spent [OF _ _ claimed(4,3)] by (auto simp: ninv_def)
  next
    case (others w w' ex)
    then show ?thesis
      using inv bank_step_spent [OF others(3)] by (auto simp: ninv_def)
  qed
qed

section \<open>Properties\<close>

text \<open>
  C6: What Frontier executed stays executed. Take an address whose Frontier account reached nonce
  \<open>N\<close> and is pinned, as the migration leaves every signer. However its signed transactions,
  claims of this and other addresses, and drains and reapings of accounts interleave, no
  transaction of the address with a nonce below \<open>N\<close> ever passes the nonce check, claimed or not,
  unless the Frontier account of another claimed address collides with its own.
\<close>

theorem frontier_transactions_stay_spent:
  assumes "reachable (ninit ops own ad N) (nstep ops chk own ad A) (w, executed)"
    and "ref_laws ops chk own" "accounts_apart ops ad A"
    and "(revive_account ad, n) \<in> set executed"
  shows "N \<le> n"
  using nonce_machine.reachable_inv [OF assms(1)] assms(2-4) by (simp add: ninv_def)

definition sample_check :: "(plain_bank, account \<times> nat, unit) inner_check" where
  "sample_check = \<lparr> inner_validate = (\<lambda>signer n w. case signer of
       Some who \<Rightarrow> if n < account_nonce w who then Inl () else Inr (who, n) | None \<Rightarrow> Inl ()),
     inner_prepare = (\<lambda>(who, n) w. if n \<le> account_nonce w who
       then Inr (w \<lparr> Account := (Account w)(who \<mapsto> (account_get w who) \<lparr> nonce := n + 1 \<rparr>) \<rparr>) else Inl ()) \<rparr>"

definition sample_own :: "account \<Rightarrow> plain_bank world \<Rightarrow> nat" where
  "sample_own a w = providers (account_get w a)"

lemma sample_ref_laws: "ref_laws sample_claims sample_check sample_own"
  unfolding ref_laws_def bank_step_def
  by (auto simp: sample_claims_def sample_check_def sample_own_def account_nonce_def account_get_def
      split: option.splits list.splits if_splits)

definition sample_claimed :: "h160 set" where
  "sample_claimed = {sample_address, replicate 20 8}"

lemma sample_apart: "accounts_apart sample_claims sample_address sample_claimed"
  by (simp add: accounts_apart_def sample_claimed_def legacy_account_def revive_account_def sample_claims_def sample_address_def numeral_eq_Suc)

text \<open>The first transaction of the sample address under pallet-revive has the nonce its Frontier account reached.\<close>

lemma sample_signed: "\<exists>val w1 w2. keep_validate sample_claims sample_check (Some (revive_account sample_address)) 4 sample_world = Inr (val, w1)
  \<and> keep_prepare sample_claims sample_check val w1 = Inr w2"
proof -
  have a: "drop 20 (revive_account sample_address) = replicate 12 0xEE" "take 20 (revive_account sample_address) = sample_address"
    by (simp_all add: revive_account_def sample_address_def)
  have "account_nonce sample_world (revive_account sample_address) = 0" "account_nonce sample_world (legacy_account sample_claims sample_address) = 4"
    using sample_accounts by (auto simp: account_nonce_def account_get_def sample_world_def)
  then have "account_nonce (lift_nonce sample_claims (revive_account sample_address) sample_world) (revive_account sample_address) = 4"
    using a carry_nonce_own(1) [OF sample_ref_laws, of "legacy_account sample_claims sample_address" "revive_account sample_address" sample_world]
    by (simp add: lift_nonce_def prod_eq_iff)
  then show ?thesis
    by (simp add: keep_validate_def keep_prepare_def sample_check_def)
qed

theorem frontier_transactions_stay_spent_witness:
  "\<exists>w. reachable (ninit sample_claims sample_own sample_address 4) (nstep sample_claims sample_check sample_own sample_address sample_claimed)
     (w, [(revive_account sample_address, 4)]) \<and> (4::nat) \<le> 4"
proof -
  obtain val w1 w2 where s: "keep_validate sample_claims sample_check (Some (revive_account sample_address)) 4 sample_world = Inr (val, w1)"
    "keep_prepare sample_claims sample_check val w1 = Inr w2"
    using sample_signed by blast
  have "ninit sample_claims sample_own sample_address 4 (sample_world, [])"
    using sample_accounts by (auto simp: ninit_def account_nonce_def account_get_def sample_world_def sample_own_def)
  then have "reachable (ninit sample_claims sample_own sample_address 4) (nstep sample_claims sample_check sample_own sample_address sample_claimed) (sample_world, [])"
    by (rule reach_init)
  moreover have "nstep sample_claims sample_check sample_own sample_address sample_claimed (sample_world, []) (w2, [(revive_account sample_address, 4)])"
    using signed [OF s sample_accounts [THEN not_sym], where own = sample_own and A = sample_claimed and ex = "[]"] by simp
  ultimately have r: "reachable (ninit sample_claims sample_own sample_address 4)
      (nstep sample_claims sample_check sample_own sample_address sample_claimed) (w2, [(revive_account sample_address, 4)])"
    by (rule reach_step)
  from frontier_transactions_stay_spent [OF r sample_ref_laws sample_apart] r show ?thesis
    by auto
qed

end
