(* ===== verification/EthForward.thy ===== *)
theory EthForward
  imports Digest "HOL-Library.AList"
begin

text \<open>
  The Ethereum JSON-RPC forwarder of the node (\<open>node/src/eth_forward.rs\<close>). JSON values are the
  datatype \<open>json\<close>, whose objects are association lists read with \<open>map_of\<close> and changed with
  \<open>AList.update\<close>; strings are lists of characters, one per byte of the UTF-8 text. The HTTP and
  WebSocket clients and the servers behind them belong to libraries and to other processes: they are
  the functions of the record \<open>network\<close>, with the error code jsonrpsee gives internal errors. \<open>OnceLock\<close> and the mutex around the shared connection are
  optional fields of the state that the operations return updated.
\<close>

section \<open>JSON values and quantities\<close>

datatype json =
    JNull
  | JBool bool
  | JNumber string
  | JString string
  | JArray "json list"
  | JObject "(string \<times> json) list"

definition hex_digit :: "char \<Rightarrow> nat option" where
  "hex_digit c =
     (let n = of_char c :: nat in
      if 48 \<le> n \<and> n \<le> 57 then Some (n - 48)
      else if 97 \<le> n \<and> n \<le> 102 then Some (n - 87)
      else if 65 \<le> n \<and> n \<le> 70 then Some (n - 55)
      else None)"

fun parse_digits :: "nat \<Rightarrow> string \<Rightarrow> nat option" where
  "parse_digits acc [] = Some acc"
| "parse_digits acc (c # cs) =
     (case hex_digit c of None \<Rightarrow> None
      | Some d \<Rightarrow> (case checked_mul 64 acc 16 of None \<Rightarrow> None
          | Some m \<Rightarrow> (case checked_add 64 m d of None \<Rightarrow> None
              | Some a \<Rightarrow> parse_digits a cs)))"

definition from_str_radix_16 :: "string \<Rightarrow> nat option" where
  "from_str_radix_16 s =
     (if s = [] \<or> s = ''+'' then None
      else parse_digits 0 (if hd s = CHR ''+'' then tl s else s))"

fun strip_prefix_0x :: "string \<Rightarrow> string option" where
  "strip_prefix_0x (CHR ''0'' # CHR ''x'' # s) = Some s"
| "strip_prefix_0x _ = None"

definition parse_quantity :: "string \<Rightarrow> nat option" where
  "parse_quantity value = (case strip_prefix_0x value of None \<Rightarrow> None | Some s \<Rightarrow> from_str_radix_16 s)"

definition hex_char :: "nat \<Rightarrow> char" where
  "hex_char d = char_of (if d < 10 then 48 + d else 87 + d)"

fun hex_string :: "nat \<Rightarrow> string" where
  "hex_string n = (if n < 16 then [hex_char n] else hex_string (n div 16) @ [hex_char (n mod 16)])"

declare hex_string.simps [simp del]

definition quantity :: "nat \<Rightarrow> json" where
  "quantity n = JString (''0x'' @ hex_string n)"

section \<open>Routes\<close>

datatype Route = Head | Block nat | Hash | Logs

definition METHODS :: "(string \<times> Route) list" where
  "METHODS =
    [(''eth_accounts'', Head),
     (''eth_blockNumber'', Head),
     (''eth_call'', Block 1),
     (''eth_chainId'', Head),
     (''eth_estimateGas'', Block 1),
     (''eth_feeHistory'', Head),
     (''eth_gasPrice'', Head),
     (''eth_getBalance'', Block 1),
     (''eth_getBlockByHash'', Hash),
     (''eth_getBlockByNumber'', Block 0),
     (''eth_getBlockReceipts'', Block 0),
     (''eth_getBlockTransactionCountByHash'', Hash),
     (''eth_getBlockTransactionCountByNumber'', Block 0),
     (''eth_getCode'', Block 1),
     (''eth_getLogs'', Logs),
     (''eth_getStorageAt'', Block 2),
     (''eth_getTransactionByBlockHashAndIndex'', Hash),
     (''eth_getTransactionByBlockNumberAndIndex'', Block 0),
     (''eth_getTransactionByHash'', Hash),
     (''eth_getTransactionCount'', Block 1),
     (''eth_getTransactionReceipt'', Hash),
     (''eth_maxPriorityFeePerGas'', Head),
     (''eth_sendRawTransaction'', Head),
     (''eth_sendTransaction'', Head),
     (''eth_syncing'', Head),
     (''net_listening'', Head),
     (''net_peerCount'', Head),
     (''net_version'', Head),
     (''web3_clientVersion'', Head)]"

datatype Side = Revive_side | Frontier_side | Hash_side

lemma map_of_size: "map_of b k = Some v \<Longrightarrow> size v < Suc (size_list (size_prod (\<lambda>_. 0) size) b)"
  by (induction b) (auto split: if_splits)

function side :: "json option \<Rightarrow> nat \<Rightarrow> Side" where
  "side (Some (JString tag)) switch =
     (if tag = ''earliest'' then Frontier_side
      else if length tag = 66 then Hash_side
      else (case parse_quantity tag of
              Some n \<Rightarrow> if n < switch then Frontier_side else Revive_side
            | None \<Rightarrow> Revive_side))"
| "side (Some (JObject block)) switch =
     (if map_of block ''blockHash'' \<noteq> None then Hash_side
      else side (map_of block ''blockNumber'') switch)"
| "side (Some JNull) switch = Revive_side"
| "side (Some (JBool b)) switch = Revive_side"
| "side (Some (JNumber n)) switch = Revive_side"
| "side (Some (JArray vs)) switch = Revive_side"
| "side None switch = Revive_side"
  by pat_completeness auto
termination
proof (relation "measure (\<lambda>(v, _). case v of None \<Rightarrow> 0 | Some v \<Rightarrow> Suc (size v))", goal_cases)
  case (2 block switch)
  then show ?case
    using map_of_size [of block "''blockNumber''"] by (auto split: option.splits)
qed simp

definition number_of_bound :: "json option \<Rightarrow> nat" where
  "number_of_bound bound =
     (case bound of
        Some (JString tag) \<Rightarrow>
          if tag = ''earliest'' then 0
          else (case parse_quantity tag of Some n \<Rightarrow> n | None \<Rightarrow> U64_MAX)
      | _ \<Rightarrow> U64_MAX)"

section \<open>The switch\<close>

record chain =
  best_number :: nat
  built_by_frontier :: "nat \<Rightarrow> bool"

definition FRONTIER_ENGINE_ID :: engine_id where
  "FRONTIER_ENGINE_ID = [0x66, 0x72, 0x6f, 0x6e]"

definition client_built_by_frontier ::
  "(nat \<Rightarrow> 'e + 'h option) \<Rightarrow> ('h \<Rightarrow> 'e + digest_item list option) \<Rightarrow> nat \<Rightarrow> bool" where
  "client_built_by_frontier client_hash client_header n =
     (if 2 ^ 32 \<le> n then False
      else (case client_hash n of
              Inr (Some hash) \<Rightarrow>
                (case client_header hash of
                   Inr (Some logs) \<Rightarrow>
                     list_ex (\<lambda>item. case item of Consensus engine _ \<Rightarrow> engine = FRONTIER_ENGINE_ID | _ \<Rightarrow> False) logs
                 | _ \<Rightarrow> False)
            | _ \<Rightarrow> False))"

definition ClientChain ::
  "nat \<Rightarrow> (nat \<Rightarrow> 'e + 'h option) \<Rightarrow> ('h \<Rightarrow> 'e + digest_item list option) \<Rightarrow> chain" where
  "ClientChain best client_hash client_header =
     \<lparr> best_number = best, built_by_frontier = client_built_by_frontier client_hash client_header \<rparr>"

function bisect :: "(nat \<Rightarrow> bool) \<Rightarrow> nat \<Rightarrow> nat \<Rightarrow> nat" where
  "bisect built frontier revive =
     (if revive - frontier > 1 then
        (let middle = frontier + (revive - frontier) div 2 in
         if built middle then bisect built middle revive else bisect built frontier middle)
      else revive)"
  by auto
termination
  by (relation "measure (\<lambda>(_, frontier, revive). revive - frontier)") auto

declare bisect.simps [simp del]

definition switch_block :: "chain \<Rightarrow> nat option \<Rightarrow> nat option \<times> nat option" where
  "switch_block c cached =
     (case cached of
        Some block \<Rightarrow> (Some block, cached)
      | None \<Rightarrow>
          (let best = best_number c in
           if best = 0 \<or> built_by_frontier c best then (None, None)
           else (let revive = bisect (built_by_frontier c) 0 best in (Some revive, Some revive))))"

section \<open>Upstreams\<close>

datatype error_object = ErrorObject int string "json option"

datatype client_error = Call_error error_object | Transport_error string

record ('h, 'w, 'n) network =
  internal_error_code :: int
  build_http :: "nat \<Rightarrow> string \<Rightarrow> string + 'h"
  http_request :: "'h \<Rightarrow> string \<Rightarrow> json list \<Rightarrow> client_error + json"
  is_connected :: "'w \<Rightarrow> bool"
  build_ws :: "nat \<Rightarrow> string \<Rightarrow> client_error + 'w"
  ws_subscribe :: "'w \<Rightarrow> string \<Rightarrow> json list \<Rightarrow> string \<Rightarrow> client_error + 'n"

record ('h, 'w) Upstream =
  http :: 'h
  ws_url :: string
  max_response_size :: nat
  ws :: "'w option"

fun split_scheme :: "string \<Rightarrow> (string \<times> string) option" where
  "split_scheme [] = None"
| "split_scheme (c # cs) =
     (if take 3 (c # cs) = ''://'' then Some ([], drop 3 (c # cs))
      else (case split_scheme cs of None \<Rightarrow> None | Some (a, b) \<Rightarrow> Some (c # a, b)))"

definition Upstream_urls :: "string \<Rightarrow> string + string \<times> string" where
  "Upstream_urls url =
     (case split_scheme url of
        Some (scheme, rest) \<Rightarrow>
          if scheme = ''ws'' \<or> scheme = ''http'' then Inr (''http://'' @ rest, ''ws://'' @ rest)
          else if scheme = ''wss'' \<or> scheme = ''https'' then Inr (''https://'' @ rest, ''wss://'' @ rest)
          else Inl (''`'' @ url @ ''` is not an http or ws URL'')
      | None \<Rightarrow> Inl (''`'' @ url @ ''` is not an http or ws URL''))"

definition Upstream_new :: "('h, 'w, 'n) network \<Rightarrow> string \<Rightarrow> nat \<Rightarrow> string + ('h, 'w) Upstream" where
  "Upstream_new net url limit =
     bind_res (Upstream_urls url) (\<lambda>(http_url, ws_url).
     bind_res (build_http net limit http_url) (\<lambda>client.
     Inr \<lparr> http = client, ws_url = ws_url, max_response_size = limit, ws = None \<rparr>))"

definition upstream_call ::
  "('h, 'w, 'n) network \<Rightarrow> ('h, 'w) Upstream \<Rightarrow> string \<Rightarrow> json list \<Rightarrow> client_error + json" where
  "upstream_call net u meth params = http_request net (http u) meth params"

definition upstream_ws ::
  "('h, 'w, 'n) network \<Rightarrow> ('h, 'w) Upstream \<Rightarrow> (client_error + 'w) \<times> ('h, 'w) Upstream" where
  "upstream_ws net u =
     (let fresh = (case build_ws net (max_response_size u) (ws_url u) of
                     Inl e \<Rightarrow> (Inl e, u)
                   | Inr client \<Rightarrow> (Inr client, u \<lparr> ws := Some client \<rparr>)) in
      case ws u of
        Some client \<Rightarrow> if is_connected net client then (Inr client, u) else fresh
      | None \<Rightarrow> fresh)"

fun upstream_error :: "int \<Rightarrow> client_error \<Rightarrow> error_object" where
  "upstream_error code (Call_error e) = e"
| "upstream_error code (Transport_error other) =
     ErrorObject code (''Ethereum RPC upstream failed: '' @ other) None"

section \<open>The forwarder\<close>

record ('h, 'w) EthForward =
  revive :: "('h, 'w) Upstream"
  frontier :: "('h, 'w) Upstream option"
  switch_cache :: "nat option"

definition EthForward_new ::
  "('h, 'w, 'n) network \<Rightarrow> string \<Rightarrow> string option \<Rightarrow> nat \<Rightarrow> string + ('h, 'w) EthForward" where
  "EthForward_new net eth_rpc frozen limit =
     bind_res (Upstream_new net eth_rpc limit) (\<lambda>r.
     bind_res (case frozen of
                 None \<Rightarrow> Inr None
               | Some url \<Rightarrow> bind_res (Upstream_new net url limit) (\<lambda>u. Inr (Some u))) (\<lambda>f.
     Inr \<lparr> revive = r, frontier = f, switch_cache = None \<rparr>))"

definition before_switch :: "('h, 'w) EthForward \<Rightarrow> ('h, 'w) Upstream" where
  "before_switch this = (case frontier this of Some f \<Rightarrow> f | None \<Rightarrow> revive this)"

definition merge_logs :: "client_error + json \<Rightarrow> client_error + json \<Rightarrow> client_error + json" where
  "merge_logs early late =
     bind_res early (\<lambda>early.
     bind_res late (\<lambda>late.
       case (early, late) of
         (JArray early, JArray late) \<Rightarrow> Inr (JArray (early @ late))
       | (_, late) \<Rightarrow> Inr late))"

definition logs ::
  "('h, 'w, 'n) network \<Rightarrow> ('h, 'w) EthForward \<Rightarrow> json list \<Rightarrow> nat \<Rightarrow> client_error + json" where
  "logs net this params switch =
     (let ask_revive = upstream_call net (revive this) ''eth_getLogs'' in
      case (frontier this, params) of
        (Some f, JObject filt # _) \<Rightarrow>
          (let ask_frontier = upstream_call net f ''eth_getLogs'' in
           if map_of filt ''blockHash'' \<noteq> None then
             (case ask_revive params of
                Inr (JArray []) \<Rightarrow> ask_frontier params
              | Inl (Call_error _) \<Rightarrow> ask_frontier params
              | answer \<Rightarrow> answer)
           else
             (let from = number_of_bound (map_of filt ''fromBlock'');
                  to = number_of_bound (map_of filt ''toBlock'') in
              if to < switch then ask_frontier params
              else if from \<ge> switch then ask_revive params
              else
                merge_logs
                  (ask_frontier [JObject (AList.update ''toBlock'' (quantity (switch - 1)) filt)])
                  (ask_revive [JObject (AList.update ''fromBlock'' (quantity switch) filt)])))
      | _ \<Rightarrow> ask_revive params)"

definition route_side :: "Route \<Rightarrow> json list \<Rightarrow> nat \<Rightarrow> Side" where
  "route_side route params switch =
     (case route of
        Head \<Rightarrow> Revive_side
      | Hash \<Rightarrow> Hash_side
      | Block pos \<Rightarrow> side (if pos < length params then Some (params ! pos) else None) switch
      | Logs \<Rightarrow> Revive_side)"

definition forward ::
  "('h, 'w, 'n) network \<Rightarrow> chain \<Rightarrow> ('h, 'w) EthForward \<Rightarrow> string \<Rightarrow> Route \<Rightarrow> json list \<Rightarrow>
    (error_object + json) \<times> ('h, 'w) EthForward" where
  "forward net c this meth route params =
     (let (found, cache) = switch_block c (switch_cache this);
          this = this \<lparr> switch_cache := cache \<rparr> in
      (map_sum (upstream_error (internal_error_code net)) id
        (case found of
           None \<Rightarrow> upstream_call net (before_switch this) meth params
         | Some switch \<Rightarrow>
             if route = Logs then logs net this params switch
             else
               (case (route_side route params switch, frontier this) of
                  (Frontier_side, Some f) \<Rightarrow> upstream_call net f meth params
                | (Hash_side, Some f) \<Rightarrow>
                    (case upstream_call net (revive this) meth params of
                       Inr JNull \<Rightarrow> upstream_call net f meth params
                     | Inl (Call_error _) \<Rightarrow> upstream_call net f meth params
                     | answer \<Rightarrow> answer)
                | _ \<Rightarrow> upstream_call net (revive this) meth params)),
       this))"

definition rpc_call ::
  "('h, 'w, 'n) network \<Rightarrow> chain \<Rightarrow> ('h, 'w) EthForward \<Rightarrow> string \<Rightarrow> json list \<Rightarrow>
    ((error_object + json) \<times> ('h, 'w) EthForward) option" where
  "rpc_call net c this meth params =
     (case map_of METHODS meth of
        None \<Rightarrow> None
      | Some route \<Rightarrow> Some (forward net c this meth route params))"

section \<open>Subscriptions\<close>

datatype wakeup = Notification json | Notification_error | Notifications_ended | Sink_closed

fun relay :: "(json \<Rightarrow> bool) \<Rightarrow> wakeup list \<Rightarrow> json list" where
  "relay delivered [] = []"
| "relay delivered (Notification item # rest) =
     (if delivered item then item # relay delivered rest else [])"
| "relay delivered (_ # rest) = []"

datatype subscription = Rejected error_object | Not_accepted | Relayed "json list"

definition set_upstream ::
  "bool \<Rightarrow> ('h, 'w) Upstream \<Rightarrow> ('h, 'w) EthForward \<Rightarrow> ('h, 'w) EthForward" where
  "set_upstream to_revive u this =
     (if to_revive then this \<lparr> revive := u \<rparr> else this \<lparr> frontier := Some u \<rparr>)"

definition subscribe ::
  "('h, 'w, 'n) network \<Rightarrow> chain \<Rightarrow> ('h, 'w) EthForward \<Rightarrow> json list \<Rightarrow>
    bool \<Rightarrow> ('n \<Rightarrow> wakeup list) \<Rightarrow> (json \<Rightarrow> bool) \<Rightarrow> subscription \<times> ('h, 'w) EthForward" where
  "subscribe net c this params accepted wakeups delivered =
     (let (found, cache) = switch_block c (switch_cache this);
          this = this \<lparr> switch_cache := cache \<rparr>;
          to_revive = (found \<noteq> None \<or> frontier this = None);
          upstream = (if found \<noteq> None then revive this else before_switch this);
          (client, upstream) = upstream_ws net upstream;
          this = set_upstream to_revive upstream this in
      case bind_res client (\<lambda>client. ws_subscribe net client ''eth_subscribe'' params ''eth_unsubscribe'') of
        Inl e \<Rightarrow> (Rejected (upstream_error (internal_error_code net) e), this)
      | Inr notifications \<Rightarrow>
          if \<not> accepted then (Not_accepted, this)
          else (Relayed (relay delivered (wakeups notifications)), this))"

end
