(* ===== verification/EthForwardProps.thy ===== *)
theory EthForwardProps
  imports EthForward
begin

text \<open>
  The forwarder answers as one node that holds the whole chain would: the binary search finds the
  first block pallet-revive built, a quantity survives printing and parsing, a read of a numbered
  block reaches the server that built it, and a log filter that spans the switch comes back complete
  and in block order.
\<close>

section \<open>Quantities\<close>

lemma hex_digit_hex_char: "d < 16 \<Longrightarrow> hex_digit (hex_char d) = Some d"
  by (auto simp: hex_digit_def hex_char_def Let_def)

lemma parse_digits_append:
  "parse_digits acc (xs @ ys) = (case parse_digits acc xs of None \<Rightarrow> None | Some a \<Rightarrow> parse_digits a ys)"
  by (induction acc xs rule: parse_digits.induct) (auto split: option.splits)

lemma parse_digits_bound: "parse_digits acc cs = Some n \<Longrightarrow> acc \<le> U64_MAX \<Longrightarrow> n \<le> U64_MAX"
  by (induction acc cs rule: parse_digits.induct)
    (auto simp: checked_add_def U64_MAX_def split: option.splits if_splits)

lemma parse_digits_hex_string: "n \<le> U64_MAX \<Longrightarrow> parse_digits 0 (hex_string n) = Some n"
proof (induction n rule: hex_string.induct)
  case (1 n)
  have split: "n div 16 * 16 + n mod 16 = n" by simp
  show ?case
  proof (cases "n < 16")
    case True
    then show ?thesis
      by (simp add: hex_string.simps [of n] hex_digit_hex_char checked_mul_def checked_add_def)
  next
    case False
    have le: "n div 16 \<le> U64_MAX" using 1(2) by (meson div_le_dividend le_trans)
    have "n div 16 * 16 \<le> U64_MAX" using 1(2) split by linarith
    with 1 False le show ?thesis
      by (simp add: hex_string.simps [of n] parse_digits_append hex_digit_hex_char checked_mul_def
          checked_add_def U64_MAX_def)
  qed
qed

lemma hex_string_neq_Nil [simp]: "hex_string n \<noteq> []"
  by (subst hex_string.simps) simp

lemma hex_char_neq_plus: "d < 16 \<Longrightarrow> hex_char d \<noteq> CHR ''+''"
  using hex_digit_hex_char [of d] by (auto simp: hex_digit_def)

lemma hd_hex_string: "hd (hex_string n) \<noteq> CHR ''+''"
proof (induction n rule: hex_string.induct)
  case (1 n)
  then show ?case
    by (cases "n < 16") (simp_all add: hex_string.simps [of n] hex_char_neq_plus)
qed

lemma length_hex_string: "n < 16 ^ Suc k \<Longrightarrow> length (hex_string n) \<le> Suc k"
proof (induction k arbitrary: n)
  case 0
  then show ?case by (simp add: hex_string.simps [of n])
next
  case (Suc k)
  then have "n div 16 < 16 ^ Suc k" by (simp add: less_mult_imp_div_less mult.commute)
  with Suc show ?case by (simp add: hex_string.simps [of n])
qed

lemma parse_quantity_hex_string:
  assumes "n \<le> U64_MAX"
  shows "parse_quantity (''0x'' @ hex_string n) = Some n"
proof -
  have "hex_string n \<noteq> ''+''" using hd_hex_string [of n] by auto
  with assms show ?thesis
    by (simp add: parse_quantity_def from_str_radix_16_def parse_digits_hex_string hd_hex_string)
qed

lemma quantity_lengths: "n \<le> U64_MAX \<Longrightarrow> length (hex_string n) \<le> 16"
  using length_hex_string [of n 15] by (simp add: U64_MAX_def)

lemma number_of_quantity [simp]: "n \<le> U64_MAX \<Longrightarrow> number_of_bound (Some (quantity n)) = n"
  using parse_quantity_hex_string [of n] by (simp add: number_of_bound_def quantity_def)

lemma side_of_quantity: "n \<le> U64_MAX \<Longrightarrow> side (Some (quantity n)) s = (if n < s then Frontier_side else Revive_side)"
  using parse_quantity_hex_string [of n] quantity_lengths [of n] by (simp add: quantity_def)

lemma parse_quantity_bound: "parse_quantity t = Some n \<Longrightarrow> n \<le> U64_MAX"
  by (auto simp: parse_quantity_def from_str_radix_16_def dest: parse_digits_bound split: option.splits if_splits)

section \<open>The switch\<close>

lemma bisect_boundary:
  assumes "lo < hi" "\<not> built hi" "lo = 0 \<or> built lo"
  shows "lo < bisect built lo hi \<and> bisect built lo hi \<le> hi
    \<and> \<not> built (bisect built lo hi)
    \<and> (bisect built lo hi = 1 \<or> built (bisect built lo hi - 1))"
  using assms
proof (induction built lo hi rule: bisect.induct)
  case (1 built lo hi)
  let ?m = "lo + (hi - lo) div 2"
  show ?case
  proof (cases "hi - lo > 1")
    case True
    then have m: "lo < ?m" "?m < hi" by auto
    show ?thesis
    proof (cases "built ?m")
      case True
      with 1(1) [OF \<open>hi - lo > 1\<close> refl True] 1(3-) m \<open>hi - lo > 1\<close> show ?thesis
        by (subst (1 2 3 4 5) bisect.simps) (auto simp: Let_def)
    next
      case False
      with 1(2) [OF \<open>hi - lo > 1\<close> refl False] 1(3-) m \<open>hi - lo > 1\<close> show ?thesis
        by (subst (1 2 3 4 5) bisect.simps) (auto simp: Let_def)
    qed
  next
    case False
    with 1(3) have "hi = Suc lo" by simp
    with 1(4,5) False show ?thesis by (auto simp: bisect.simps [of built lo "Suc lo"])
  qed
qed

definition switched_at :: "nat \<Rightarrow> chain \<Rightarrow> bool" where
  "switched_at s c \<longleftrightarrow> 1 \<le> s
     \<and> (\<forall>n. 1 \<le> n \<and> n < s \<longrightarrow> built_by_frontier c n)
     \<and> (\<forall>n. s \<le> n \<and> n \<le> best_number c \<longrightarrow> \<not> built_by_frontier c n)"

lemma switch_block_exact:
  assumes "switched_at s c" "cached = None \<or> (cached = Some s \<and> s \<le> best_number c)"
  shows "switch_block c cached = (if s \<le> best_number c then (Some s, Some s) else (None, None))"
proof (cases "cached = None \<and> s \<le> best_number c")
  case True
  with assms(1) have "0 < best_number c" "\<not> built_by_frontier c (best_number c)"
    by (auto simp: switched_at_def)
  note b = bisect_boundary [where built = "built_by_frontier c" and lo = 0, OF this]
  have "bisect (built_by_frontier c) 0 (best_number c) = s" (is "?r = s")
  proof (rule antisym)
    show "?r \<le> s"
    proof (rule ccontr)
      assume "\<not> ?r \<le> s"
      with b assms(1) have "built_by_frontier c (?r - 1)" "s \<le> ?r - 1" "?r - 1 \<le> best_number c"
        by (auto simp: switched_at_def)
      with assms(1) show False by (auto simp: switched_at_def)
    qed
    show "s \<le> ?r"
    proof (rule ccontr)
      assume "\<not> s \<le> ?r"
      moreover have "1 \<le> ?r" using b by auto
      ultimately have "built_by_frontier c ?r" using assms(1) by (auto simp: switched_at_def)
      with b show False by blast
    qed
  qed
  with True \<open>0 < best_number c\<close> \<open>\<not> built_by_frontier c (best_number c)\<close> show ?thesis
    by (simp add: switch_block_def Let_def)
next
  case False
  with assms show ?thesis
    by (cases "best_number c = 0") (auto simp: switch_block_def switched_at_def Let_def)
qed

section \<open>Reads of numbered blocks\<close>

lemma METHODS_distinct: "distinct (map fst METHODS)"
  by (simp add: METHODS_def)

lemma forward_numbered:
  assumes "switch_block c (switch_cache this) = (Some s, Some s)" "frontier this = Some f"
    and "pos < length params" "params ! pos = quantity n" "n \<le> U64_MAX"
  shows "forward net c this meth (Block pos) params =
    (map_sum (upstream_error (internal_error_code net)) id
      (upstream_call net (if n < s then f else revive this) meth params), this \<lparr> switch_cache := Some s \<rparr>)"
  using assms by (simp add: forward_def route_side_def side_of_quantity)

section \<open>Logs\<close>

definition plain_bound :: "json option \<Rightarrow> bool" where
  "plain_bound b \<longleftrightarrow>
     (case b of
        None \<Rightarrow> True
      | Some (JString t) \<Rightarrow> t = ''earliest'' \<or> t = ''latest'' \<or> parse_quantity t \<noteq> None
      | _ \<Rightarrow> False)"

definition resolve_bound :: "nat \<Rightarrow> json option \<Rightarrow> nat" where
  "resolve_bound head b =
     (case b of
        Some (JString t) \<Rightarrow>
          if t = ''earliest'' then 0 else (case parse_quantity t of Some n \<Rightarrow> n | None \<Rightarrow> head)
      | _ \<Rightarrow> head)"

text \<open>
  What \<open>eth_getLogs\<close> of a server with the blocks up to \<open>head\<close> and the logs of \<open>first\<close> and later
  ones answers to a filter over a range: the logs block by block, a missing bound and \<open>latest\<close>
  standing for the server's own head.
\<close>

definition serves_logs ::
  "((string \<times> json) list \<Rightarrow> nat \<Rightarrow> json list) \<Rightarrow> nat \<Rightarrow> nat \<Rightarrow> (json list \<Rightarrow> client_error + json) \<Rightarrow> bool" where
  "serves_logs logs_of first head ask \<longleftrightarrow>
     (\<forall>filt. map_of filt ''blockHash'' = None \<longrightarrow>
        plain_bound (map_of filt ''fromBlock'') \<longrightarrow> plain_bound (map_of filt ''toBlock'') \<longrightarrow>
        first \<le> resolve_bound head (map_of filt ''fromBlock'') \<longrightarrow>
        ask [JObject filt] = Inr (JArray (concat (map (logs_of filt)
          [resolve_bound head (map_of filt ''fromBlock'') ..<
           Suc (min head (resolve_bound head (map_of filt ''toBlock'')))]))))"

definition range_free :: "((string \<times> json) list \<Rightarrow> nat \<Rightarrow> json list) \<Rightarrow> bool" where
  "range_free logs_of \<longleftrightarrow>
     (\<forall>filt v. logs_of (AList.update ''fromBlock'' v filt) = logs_of filt
             \<and> logs_of (AList.update ''toBlock'' v filt) = logs_of filt)"

lemma number_below:
  assumes "number_of_bound b < s" "s \<le> U64_MAX"
  shows "resolve_bound h b = number_of_bound b"
  using assms by (auto simp: number_of_bound_def resolve_bound_def split: option.splits json.splits if_splits)

lemma number_above:
  assumes "s \<le> number_of_bound b" "s \<le> h"
  shows "s \<le> resolve_bound h b"
  using assms by (auto simp: number_of_bound_def resolve_bound_def split: option.splits json.splits if_splits)

lemma quantity_bound [simp]:
  assumes "n \<le> U64_MAX"
  shows "plain_bound (Some (quantity n))" "resolve_bound h (Some (quantity n)) = n"
  using parse_quantity_hex_string [OF assms] by (simp_all add: plain_bound_def resolve_bound_def quantity_def)

lemma split_range:
  assumes "a < s" "s \<le> Suc b"
  shows "concat (map g [a..<Suc (s - 1)]) @ concat (map g [s..<Suc b]) = concat (map g [a..<Suc b])"
proof -
  have "[a..<Suc b] = [a..<s] @ [s..<Suc b]"
    using assms upt_add_eq_append [of a s "Suc b - s"] by simp
  with assms(1) show ?thesis by (simp del: upt_Suc)
qed

lemma logs_complete:
  assumes s: "1 \<le> s" "s \<le> head" "s \<le> U64_MAX"
    and fr: "frontier this = Some f"
    and early: "serves_logs logs_of 0 (s - 1) (upstream_call net f ''eth_getLogs'')"
    and late: "serves_logs logs_of s head (upstream_call net (revive this) ''eth_getLogs'')"
    and free: "range_free logs_of"
    and filt: "map_of filt ''blockHash'' = None" "plain_bound (map_of filt ''fromBlock'')" "plain_bound (map_of filt ''toBlock'')"
    and range: "resolve_bound head (map_of filt ''fromBlock'') \<le> resolve_bound head (map_of filt ''toBlock'')"
  shows "logs net this [JObject filt] s =
    Inr (JArray (concat (map (logs_of filt)
      [resolve_bound head (map_of filt ''fromBlock'') ..<
       Suc (min head (resolve_bound head (map_of filt ''toBlock'')))])))"
proof -
  let ?from = "map_of filt ''fromBlock''" and ?to = "map_of filt ''toBlock''"
  consider (old) "number_of_bound ?to < s"
    | (new) "s \<le> number_of_bound ?to" "s \<le> number_of_bound ?from"
    | (both) "s \<le> number_of_bound ?to" "number_of_bound ?from < s" by linarith
  then show ?thesis
  proof cases
    case old
    then have to: "resolve_bound h ?to = number_of_bound ?to" for h using number_below s by blast
    have "number_of_bound ?from < s"
      using number_above [of s ?from head] range old to [of head] s by linarith
    then have "resolve_bound h ?from = number_of_bound ?from" for h using number_below s by blast
    moreover have "min (s - 1) (number_of_bound ?to) = number_of_bound ?to" "min head (number_of_bound ?to) = number_of_bound ?to"
      using old s by auto
    ultimately show ?thesis
      using old to filt early fr by (simp add: logs_def serves_logs_def del: upt_Suc)
  next
    case new
    with number_above [of s ?from head] s filt late fr show ?thesis
      by (auto simp: logs_def serves_logs_def)
  next
    case both
    then have fromb: "resolve_bound h ?from = number_of_bound ?from" for h using number_below s by blast
    have to: "s \<le> resolve_bound head ?to" using number_above both s by blast
    have e: "upstream_call net f ''eth_getLogs'' [JObject (AList.update ''toBlock'' (quantity (s - 1)) filt)] =
        Inr (JArray (concat (map (logs_of filt) [number_of_bound ?from ..< Suc (s - 1)])))"
      using early free s filt fromb by (simp add: serves_logs_def range_free_def update_conv' del: upt_Suc)
    have l: "upstream_call net (revive this) ''eth_getLogs'' [JObject (AList.update ''fromBlock'' (quantity s) filt)] =
        Inr (JArray (concat (map (logs_of filt) [s ..< Suc (min head (resolve_bound head ?to))])))"
      using late free s filt by (simp add: serves_logs_def range_free_def update_conv' del: upt_Suc)
    show ?thesis
      using both fr filt e l split_range [of "number_of_bound ?from" s "min head (resolve_bound head ?to)" "logs_of filt"] to s
      by (simp add: logs_def merge_logs_def fromb del: upt_Suc)
  qed
qed

section \<open>Properties\<close>

text \<open>
  C40: A quantity the forwarder prints parses back to the same number, and as a block parameter it
  names the side of the switch that number is on, for every 64-bit number.\<close>

theorem quantity_roundtrip:
  assumes "n \<le> U64_MAX"
  shows "number_of_bound (Some (quantity n)) = n
    \<and> side (Some (quantity n)) s = (if n < s then Frontier_side else Revive_side)
    \<and> side (Some (JObject [(''blockNumber'', quantity n)])) s = side (Some (quantity n)) s"
  using assms side_of_quantity [OF assms, of s] by simp

theorem quantity_roundtrip_witness:
  "number_of_bound (Some (quantity 0xfa)) = 0xfa \<and> side (Some (quantity 0xfa)) 0xfb = Frontier_side"
  using quantity_roundtrip [of "0xfa" "0xfb"] by (simp add: U64_MAX_def)

text \<open>
  C34: On a chain whose blocks up to a switch block carry the Frontier digest and whose later ones do
  not, every method that names its block by number is answered by the server that built that block:
  the frozen node before the switch, eth-rpc from it on. The search for the switch ends, and its
  result is kept for the next call.\<close>

theorem block_reads_reach_their_builder:
  assumes "switched_at s c" "s \<le> best_number c" "switch_cache this = None \<or> switch_cache this = Some s"
    and "frontier this = Some f" "(meth, Block pos) \<in> set METHODS"
    and "pos < length params" "params ! pos = quantity n" "n \<le> U64_MAX"
  shows "rpc_call net c this meth params = Some
    (map_sum (upstream_error (internal_error_code net)) id
      (upstream_call net (if n < s then f else revive this) meth params), this \<lparr> switch_cache := Some s \<rparr>)"
proof -
  have "switch_block c (switch_cache this) = (Some s, Some s)"
    using assms(1-3) switch_block_exact [of s c "switch_cache this"] by auto
  from forward_numbered [OF this assms(4,6-8), of net meth] show ?thesis
    using map_of_is_SomeI [OF METHODS_distinct assms(5)] by (simp add: rpc_call_def)
qed

text \<open>
  C33: A log filter over a range of blocks gets the logs of exactly that range in block order, as from
  one node that holds the whole chain, whether the range lies before the switch, after it or across
  it: the split filters overlap nowhere and leave no block out.\<close>

theorem logs_across_switch:
  assumes "switched_at s c" "s \<le> best_number c" "s \<le> U64_MAX"
    and "switch_cache this = None \<or> switch_cache this = Some s" "frontier this = Some f"
    and "serves_logs logs_of 0 (s - 1) (upstream_call net f ''eth_getLogs'')"
    and "serves_logs logs_of s (best_number c) (upstream_call net (revive this) ''eth_getLogs'')"
    and "range_free logs_of"
    and "map_of filt ''blockHash'' = None"
    and "plain_bound (map_of filt ''fromBlock'')" "plain_bound (map_of filt ''toBlock'')"
    and "resolve_bound (best_number c) (map_of filt ''fromBlock'') \<le> resolve_bound (best_number c) (map_of filt ''toBlock'')"
  shows "fst (forward net c this ''eth_getLogs'' Logs [JObject filt]) =
    Inr (JArray (concat (map (logs_of filt)
      [resolve_bound (best_number c) (map_of filt ''fromBlock'') ..<
       Suc (min (best_number c) (resolve_bound (best_number c) (map_of filt ''toBlock'')))])))"
proof -
  have "switch_block c (switch_cache this) = (Some s, Some s)"
    using assms(1,2,4) switch_block_exact [of s c "switch_cache this"] by auto
  moreover have "1 \<le> s" using assms(1) by (simp add: switched_at_def)
  ultimately show ?thesis
    using assms logs_complete [of s "best_number c" "this \<lparr> switch_cache := Some s \<rparr>" f logs_of net filt]
    by (simp add: forward_def del: upt_Suc)
qed

section \<open>A forwarder at work\<close>

definition fwd_logs :: "(string \<times> json) list \<Rightarrow> nat \<Rightarrow> json list" where
  "fwd_logs filt n = [quantity n]"

definition fwd_request :: "nat \<Rightarrow> string \<Rightarrow> json list \<Rightarrow> client_error + json" where
  "fwd_request head meth params =
     (case params of
        [JObject filt] \<Rightarrow>
          Inr (JArray (concat (map (fwd_logs filt)
            [resolve_bound head (map_of filt ''fromBlock'') ..<
             Suc (min head (resolve_bound head (map_of filt ''toBlock'')))])))
      | _ \<Rightarrow> Inr (quantity head))"

definition fwd_net :: "(nat, unit, unit) network" where
  "fwd_net =
     \<lparr> internal_error_code = - 32603, build_http = (\<lambda>_ _. Inl []), http_request = fwd_request,
       is_connected = (\<lambda>_. False), build_ws = (\<lambda>_ _. Inr ()), ws_subscribe = (\<lambda>_ _ _ _. Inr ()) \<rparr>"

definition fwd_upstream :: "nat \<Rightarrow> (nat, unit) Upstream" where
  "fwd_upstream head = \<lparr> http = head, ws_url = [], max_response_size = 0, ws = None \<rparr>"

definition fwd_state :: "(nat, unit) EthForward" where
  "fwd_state = \<lparr> revive = fwd_upstream 15, frontier = Some (fwd_upstream 9), switch_cache = None \<rparr>"

definition fwd_chain :: chain where
  "fwd_chain = \<lparr> best_number = 15, built_by_frontier = (\<lambda>n. n < 10) \<rparr>"

lemma fwd_fields [simp]:
  "best_number fwd_chain = 15" "switch_cache fwd_state = None" "frontier fwd_state = Some (fwd_upstream 9)"
  "revive fwd_state = fwd_upstream 15"
  by (simp_all add: fwd_chain_def fwd_state_def)

lemma fwd_call: "upstream_call fwd_net (fwd_upstream head) = fwd_request head"
  by (rule ext)+ (simp add: upstream_call_def fwd_net_def fwd_upstream_def)

lemma fwd_read: "fwd_request head meth (quantity n # rest) = Inr (quantity head)"
  by (simp add: fwd_request_def quantity_def)

lemma fwd_laws:
  "switched_at 10 fwd_chain" "serves_logs fwd_logs k head (fwd_request head meth)" "range_free fwd_logs"
  by (auto simp: switched_at_def fwd_chain_def serves_logs_def fwd_request_def range_free_def fwd_logs_def fun_eq_iff simp del: upt_Suc)

theorem block_reads_reach_their_builder_witness:
  "rpc_call fwd_net fwd_chain fwd_state ''eth_getBlockByNumber'' [quantity 3, JBool False] =
    Some (Inr (quantity 9), fwd_state \<lparr> switch_cache := Some 10 \<rparr>)"
  using block_reads_reach_their_builder [of 10 fwd_chain fwd_state "fwd_upstream 9" "''eth_getBlockByNumber''" 0
      "[quantity 3, JBool False]" 3 fwd_net]
  by (simp add: fwd_laws METHODS_def U64_MAX_def fwd_call fwd_read)

theorem logs_across_switch_witness:
  "fst (forward fwd_net fwd_chain fwd_state ''eth_getLogs'' Logs
      [JObject [(''fromBlock'', quantity 8), (''toBlock'', quantity 11)]]) =
    Inr (JArray [quantity 8, quantity 9, quantity 10, quantity 11])"
  using logs_across_switch [of 10 fwd_chain fwd_state "fwd_upstream 9" fwd_logs fwd_net
      "[(''fromBlock'', quantity 8), (''toBlock'', quantity 11)]"]
  by (simp add: fwd_laws fwd_call U64_MAX_def fwd_logs_def)

end
