(* ===== verification/Identity.thy ===== *)
theory Identity
  imports Origins Bytes
begin

text \<open>
  On-chain identities: the fields an account fills in (\<open>runtime/src/identity_info.rs\<close>) with the
  bit mask registrars name them by, the registrars seated at genesis
  (\<open>runtime/src/configs/identity.rs\<close>), and the qualified-identity standard
  (\<open>runtime/src/configs/governance.rs\<close>) that gates referenda and validators. The storage of
  \<open>pallet-identity\<close> is the record \<open>identities\<close>; \<open>BoundedVec\<close> fields are byte strings whose bounds
  are the predicate \<open>info_bounds\<close>.
\<close>

unbundle bit_operations_syntax

section \<open>Fields\<close>

datatype IdentityField =
  Display | Avatar | Bio | Web | Email | Github | Matrix | X | Telegram | Discord

primrec field_index :: "IdentityField \<Rightarrow> nat" where
  "field_index Display = 0"
| "field_index Avatar = 1"
| "field_index Bio = 2"
| "field_index Web = 3"
| "field_index Email = 4"
| "field_index Github = 5"
| "field_index Matrix = 6"
| "field_index X = 7"
| "field_index Telegram = 8"
| "field_index Discord = 9"

record IdentityInfo =
  display :: bytes
  avatar :: bytes
  bio :: bytes
  web :: bytes
  email :: bytes
  github :: bytes
  matrix :: bytes
  x_handle :: bytes
  telegram :: bytes
  discord :: bytes

definition info_bounds :: "IdentityInfo \<Rightarrow> bool" where
  "info_bounds i \<longleftrightarrow>
     length (display i) \<le> 32 \<and> length (avatar i) \<le> 128 \<and> length (bio i) \<le> 2048 \<and> length (web i) \<le> 64
     \<and> length (email i) \<le> 32 \<and> length (github i) \<le> 32 \<and> length (matrix i) \<le> 32
     \<and> length (x_handle i) \<le> 32 \<and> length (telegram i) \<le> 32 \<and> length (discord i) \<le> 32"

definition field_table :: "IdentityInfo \<Rightarrow> (IdentityField \<times> bool) list" where
  "field_table i =
    [(Display, display i \<noteq> []),
     (Avatar, avatar i \<noteq> []),
     (Bio, bio i \<noteq> []),
     (Web, web i \<noteq> []),
     (Email, email i \<noteq> []),
     (Github, github i \<noteq> []),
     (Matrix, matrix i \<noteq> []),
     (X, x_handle i \<noteq> []),
     (Telegram, telegram i \<noteq> []),
     (Discord, discord i \<noteq> [])]"

definition insert_field :: "IdentityField \<times> bool \<Rightarrow> 64 word \<Rightarrow> 64 word" where
  "insert_field entry flags =
     (let (field, filled) = entry in
      if filled then flags OR push_bit (field_index field) 1 else flags)"

definition info_fields :: "IdentityInfo \<Rightarrow> 64 word" where
  "info_fields i = fold insert_field (field_table i) 0"

definition has_identity :: "IdentityInfo \<Rightarrow> 64 word \<Rightarrow> bool" where
  "has_identity i wanted \<longleftrightarrow> info_fields i AND wanted = wanted"

lemma bit_insert_field:
  assumes "n < 64"
  shows "bit (insert_field (f, b) w) n \<longleftrightarrow> bit w n \<or> (b \<and> field_index f = n)"
  using assms by (auto simp: insert_field_def bit_simps)

lemma bit_fold_fields:
  assumes "n < 64"
  shows "bit (fold insert_field es w) n \<longleftrightarrow> bit w n \<or> (\<exists>f. (f, True) \<in> set es \<and> field_index f = n)"
proof (induction es arbitrary: w)
  case (Cons e es)
  then show ?case by (cases e) (auto simp: bit_insert_field [OF assms])
qed simp

lemma field_index_inj: "field_index f = field_index g \<Longrightarrow> f = g"
  by (cases f; cases g) simp_all

lemma field_index_less: "field_index f < 64"
  by (cases f) simp_all

lemma bit_info_fields: "n < 64 \<Longrightarrow> bit (info_fields i) n \<longleftrightarrow> (\<exists>f. (f, True) \<in> set (field_table i) \<and> field_index f = n)"
  by (simp add: info_fields_def bit_fold_fields)

text \<open>A mask is covered when every bit it sets is the bit of a field that is filled in.\<close>

lemma has_identity_iff:
  "has_identity i wanted \<longleftrightarrow> (\<forall>n<64. bit wanted n \<longrightarrow> (\<exists>f. (f, True) \<in> set (field_table i) \<and> field_index f = n))"
proof -
  have "has_identity i wanted \<longleftrightarrow> (\<forall>n<64. bit wanted n \<longrightarrow> bit (info_fields i) n)"
    unfolding has_identity_def bit_eq_iff by (auto simp: bit_and_iff impossible_bit dest: bit_imp_le_length)
  then show ?thesis by (simp add: bit_info_fields)
qed

lemma has_field_bit:
  assumes "(f, True) \<in> set (field_table i)"
  shows "has_identity i (push_bit (field_index f) 1)"
proof -
  have "field_index f = n" if "bit (push_bit (field_index f) 1 :: 64 word) n" for n
    using that by (simp add: bit_exp_iff)
  with assms show ?thesis unfolding has_identity_iff by blast
qed

section \<open>Registrars seated at genesis\<close>

record 'a RegistrarInfo =
  reg_account :: 'a
  reg_fee :: nat
  reg_fields :: "64 word"

fun registrars_build :: "nat \<Rightarrow> 'a list \<Rightarrow> 'a RegistrarInfo option list \<Rightarrow> 'a RegistrarInfo option list option" where
  "registrars_build max_registrars [] rs = Some rs"
| "registrars_build max_registrars (who # rest) rs =
     (case bv_try_push max_registrars rs (Some \<lparr> reg_account = who, reg_fee = 0, reg_fields = 0 \<rparr>) of
        None \<Rightarrow> None
      | Some rs \<Rightarrow> registrars_build max_registrars rest rs)"

lemma registrars_build_eq:
  "length rs + length ws \<le> k \<Longrightarrow>
    registrars_build k ws rs = Some (rs @ map (\<lambda>w. Some \<lparr> reg_account = w, reg_fee = 0, reg_fields = 0 \<rparr>) ws)"
  by (induction ws arbitrary: rs) (auto simp: bv_try_push_def)

section \<open>Qualified identities\<close>

datatype Judgement = Unknown | FeePaid nat | Reasonable | KnownGood | OutOfDate | LowQuality | Erroneous

record registration =
  judgements :: "(nat \<times> Judgement) list"
  reg_deposit :: nat
  reg_info :: IdentityInfo

record 'a identities =
  IdentityOf :: "'a \<rightharpoonup> registration"
  SuperOf :: "'a \<rightharpoonup> 'a \<times> bytes"

definition account_qualifies :: "'a identities \<Rightarrow> 'a \<Rightarrow> bool" where
  "account_qualifies ids who =
     (case IdentityOf ids who of
        None \<Rightarrow> False
      | Some r \<Rightarrow>
          (let judged = list_ex (\<lambda>(_, j). j = Reasonable \<or> j = KnownGood) (judgements r);
               channel = (x_handle (reg_info r) \<noteq> [] \<or> telegram (reg_info r) \<noteq> [] \<or> discord (reg_info r) \<noteq> [])
           in judged \<and> channel))"

definition QualifiedIdentity :: "'a identities \<Rightarrow> 'a \<Rightarrow> bool" where
  "QualifiedIdentity ids who \<longleftrightarrow>
     account_qualifies ids who
     \<or> (case SuperOf ids who of None \<Rightarrow> False | Some (parent, _) \<Rightarrow> account_qualifies ids parent)"

definition EnsureQualifiedIdentity :: "'a identities \<Rightarrow> ('a, 'x, 'a) ensure_origin" where
  "EnsureQualifiedIdentity ids origin =
     (case ensure_signed origin of
        None \<Rightarrow> Inl origin
      | Some who \<Rightarrow> if QualifiedIdentity ids who then Inr who else Inl (System_origin (Signed who)))"

lemma EnsureQualifiedIdentity_Inr_iff:
  "EnsureQualifiedIdentity ids origin = Inr who \<longleftrightarrow> origin = System_origin (Signed who) \<and> QualifiedIdentity ids who"
  by (auto simp: EnsureQualifiedIdentity_def split: option.splits if_splits)

text \<open>
  What qualifies an account: somebody, itself or the parent its sub-account link names, holds a
  registered identity that a registrar judged and that fills in a field among X, Telegram and
  Discord, seen through the same mask the registrars use.
\<close>

lemma QualifiedIdentity_traceable:
  assumes "QualifiedIdentity ids who"
  shows "\<exists>holder r f. (holder = who \<or> (\<exists>name. SuperOf ids who = Some (holder, name)))
    \<and> IdentityOf ids holder = Some r
    \<and> (\<exists>k j. (k, j) \<in> set (judgements r) \<and> (j = Reasonable \<or> j = KnownGood))
    \<and> f \<in> {X, Telegram, Discord} \<and> has_identity (reg_info r) (push_bit (field_index f) 1)"
proof -
  obtain holder where h: "holder = who \<or> (\<exists>name. SuperOf ids who = Some (holder, name))"
    "account_qualifies ids holder"
    using assms by (auto simp: QualifiedIdentity_def split: option.splits)
  then obtain r where r: "IdentityOf ids holder = Some r"
    "\<exists>k j. (k, j) \<in> set (judgements r) \<and> (j = Reasonable \<or> j = KnownGood)"
    "x_handle (reg_info r) \<noteq> [] \<or> telegram (reg_info r) \<noteq> [] \<or> discord (reg_info r) \<noteq> []"
    by (auto simp: account_qualifies_def list_ex_iff split: option.splits)
  have "(X, x_handle (reg_info r) \<noteq> []) \<in> set (field_table (reg_info r))"
    "(Telegram, telegram (reg_info r) \<noteq> []) \<in> set (field_table (reg_info r))"
    "(Discord, discord (reg_info r) \<noteq> []) \<in> set (field_table (reg_info r))"
    by (simp_all add: field_table_def)
  with r(3) have "\<exists>f. f \<in> {X, Telegram, Discord} \<and> (f, True) \<in> set (field_table (reg_info r))"
    by (metis insertCI)
  then obtain f where f: "f \<in> {X, Telegram, Discord}" "(f, True) \<in> set (field_table (reg_info r))" by blast
  have "has_identity (reg_info r) (push_bit (field_index f) 1)"
    using f(2) by (intro has_field_bit)
  with h(1) r(1,2) f(1) show ?thesis by blast
qed

end
