(* ===== verification/Constants.thy ===== *)
theory Constants
  imports Prelude
begin

text \<open>
  Constants of the runtime that several components share (\<open>runtime/src/lib.rs\<close>,
  \<open>runtime/src/configs/mod.rs\<close>), for the default build: time in blocks, the unit of the currency
  and the emission schedule.
\<close>

definition TargetBlockTime :: nat where "TargetBlockTime = 10"
definition MINUTES :: nat where "MINUTES = 60 div TargetBlockTime"
definition HOURS :: nat where "HOURS = MINUTES * 60"
definition DAYS :: nat where "DAYS = HOURS * 24"

definition UNIT :: nat where "UNIT = 1000000000000000000"

definition InitialReward :: nat where "InitialReward = 16 * UNIT"
definition HalvingInterval :: nat where "HalvingInterval = 12500000"

lemmas time_defs = TargetBlockTime_def MINUTES_def HOURS_def DAYS_def

end
