(* ===== verification/Governance.thy ===== *)
theory Governance
  imports Identity Constants Validator
begin

text \<open>
  Open governance (\<open>runtime/src/configs/governance.rs\<close>): the custom origins with the caps of the
  spender tiers, the track table, the track an origin belongs to, and who may submit, cancel or kill
  a referendum. The referenda pallet is a library: its curve constructors are the record
  \<open>curve_ops\<close>, and the or-gates of origin checks are arguments with the law \<open>or_gate\<close>. A pallet
  origin of this runtime is a custom origin or the origin of some other pallet, \<open>Origin + 'y\<close>.
\<close>

section \<open>Origins\<close>

definition SMALL_SPENDER_CAP :: nat where "SMALL_SPENDER_CAP = 200000 * UNIT"
definition MEDIUM_SPENDER_CAP :: nat where "MEDIUM_SPENDER_CAP = 1000000 * UNIT"
definition BIG_SPENDER_CAP :: nat where "BIG_SPENDER_CAP = 10000000 * UNIT"

datatype Origin =
    SmallSpender | MediumSpender | BigSpender | RuntimeUpgrade | WishForChange
  | ReferendumCanceller | ReferendumKiller | IdentityAdmin

type_synonym ('a, 'y) gov_origin = "('a, Origin + 'y) runtime_origin"

definition decl_ensure :: "(Origin \<times> 's) list \<Rightarrow> ('a, Origin + 'y, 's) ensure_origin" where
  "decl_ensure items origin =
     (case origin of
        Custom_origin (Inl item) \<Rightarrow>
          (case map_of items item of Some success \<Rightarrow> Inr success | None \<Rightarrow> Inl origin)
      | _ \<Rightarrow> Inl origin)"

definition ensure_SmallSpender :: "('a, Origin + 'y, nat) ensure_origin" where
  "ensure_SmallSpender = decl_ensure [(SmallSpender, SMALL_SPENDER_CAP)]"

definition ensure_MediumSpender :: "('a, Origin + 'y, nat) ensure_origin" where
  "ensure_MediumSpender = decl_ensure [(MediumSpender, MEDIUM_SPENDER_CAP)]"

definition ensure_BigSpender :: "('a, Origin + 'y, nat) ensure_origin" where
  "ensure_BigSpender = decl_ensure [(BigSpender, BIG_SPENDER_CAP)]"

definition ensure_RuntimeUpgrade :: "('a, Origin + 'y, unit) ensure_origin" where
  "ensure_RuntimeUpgrade = decl_ensure [(RuntimeUpgrade, ())]"

definition ensure_ReferendumCanceller :: "('a, Origin + 'y, unit) ensure_origin" where
  "ensure_ReferendumCanceller = decl_ensure [(ReferendumCanceller, ())]"

definition ensure_ReferendumKiller :: "('a, Origin + 'y, unit) ensure_origin" where
  "ensure_ReferendumKiller = decl_ensure [(ReferendumKiller, ())]"

definition IdentityAdminOrigin :: "('a, Origin + 'y, unit) ensure_origin" where
  "IdentityAdminOrigin = decl_ensure [(IdentityAdmin, ())]"

definition spend_caps :: "(nat \<times> Origin \<times> nat) list" where
  "spend_caps =
    [(30, SmallSpender, SMALL_SPENDER_CAP),
     (31, MediumSpender, MEDIUM_SPENDER_CAP),
     (32, BigSpender, BIG_SPENDER_CAP)]"

lemma decl_ensure_Inr_iff:
  "decl_ensure items origin = Inr v \<longleftrightarrow> (\<exists>item. origin = Custom_origin (Inl item) \<and> map_of items item = Some v)"
  by (auto simp: decl_ensure_def split: runtime_origin.splits sum.splits option.splits)

lemma decl_ensure_Inl: "decl_ensure items origin = Inl origin' \<Longrightarrow> origin' = origin"
  by (auto simp: decl_ensure_def split: runtime_origin.splits sum.splits option.splits)

section \<open>Tracks\<close>

record 'c curve_ops =
  from_rational :: "nat \<Rightarrow> nat \<Rightarrow> int"
  make_linear :: "nat \<Rightarrow> nat \<Rightarrow> int \<Rightarrow> int \<Rightarrow> 'c"
  make_reciprocal :: "nat \<Rightarrow> nat \<Rightarrow> int \<Rightarrow> int \<Rightarrow> int \<Rightarrow> 'c"

definition percent :: "'c curve_ops \<Rightarrow> nat \<Rightarrow> int" where
  "percent c x = from_rational c x 100"

definition per_mille :: "'c curve_ops \<Rightarrow> nat \<Rightarrow> int" where
  "per_mille c x = from_rational c x 1000"

definition per_myriad :: "'c curve_ops \<Rightarrow> nat \<Rightarrow> int" where
  "per_myriad c x = from_rational c x 10000"

definition APP_ROOT :: "'c curve_ops \<Rightarrow> 'c" where
  "APP_ROOT c = make_reciprocal c 4 28 (percent c 80) (percent c 50) (percent c 100)"
definition SUP_ROOT :: "'c curve_ops \<Rightarrow> 'c" where
  "SUP_ROOT c = make_linear c 28 28 (percent c 0) (percent c 50)"
definition APP_WISH_FOR_CHANGE :: "'c curve_ops \<Rightarrow> 'c" where
  "APP_WISH_FOR_CHANGE c = make_reciprocal c 4 28 (percent c 80) (percent c 50) (percent c 100)"
definition SUP_WISH_FOR_CHANGE :: "'c curve_ops \<Rightarrow> 'c" where
  "SUP_WISH_FOR_CHANGE c = make_linear c 28 28 (percent c 0) (percent c 50)"
definition APP_RUNTIME_UPGRADE :: "'c curve_ops \<Rightarrow> 'c" where
  "APP_RUNTIME_UPGRADE c = make_reciprocal c 4 28 (percent c 80) (percent c 50) (percent c 100)"
definition SUP_RUNTIME_UPGRADE :: "'c curve_ops \<Rightarrow> 'c" where
  "SUP_RUNTIME_UPGRADE c = make_reciprocal c 1 28 (percent c 1) (percent c 0) (percent c 50)"
definition APP_IDENTITY_ADMIN :: "'c curve_ops \<Rightarrow> 'c" where
  "APP_IDENTITY_ADMIN c = make_reciprocal c 4 28 (percent c 80) (percent c 50) (percent c 100)"
definition SUP_IDENTITY_ADMIN :: "'c curve_ops \<Rightarrow> 'c" where
  "SUP_IDENTITY_ADMIN c = make_reciprocal c 12 28 (percent c 2) (percent c 0) (percent c 50)"
definition APP_REFERENDUM_CANCELLER :: "'c curve_ops \<Rightarrow> 'c" where
  "APP_REFERENDUM_CANCELLER c = make_linear c 28 28 (percent c 50) (percent c 100)"
definition SUP_REFERENDUM_CANCELLER :: "'c curve_ops \<Rightarrow> 'c" where
  "SUP_REFERENDUM_CANCELLER c = make_reciprocal c 12 28 (percent c 2) (percent c 0) (percent c 50)"
definition APP_REFERENDUM_KILLER :: "'c curve_ops \<Rightarrow> 'c" where
  "APP_REFERENDUM_KILLER c = make_linear c 28 28 (percent c 50) (percent c 100)"
definition SUP_REFERENDUM_KILLER :: "'c curve_ops \<Rightarrow> 'c" where
  "SUP_REFERENDUM_KILLER c = make_reciprocal c 12 28 (percent c 2) (percent c 0) (percent c 50)"
definition APP_SMALL_SPENDER :: "'c curve_ops \<Rightarrow> 'c" where
  "APP_SMALL_SPENDER c = make_linear c 7 28 (percent c 50) (percent c 100)"
definition SUP_SMALL_SPENDER :: "'c curve_ops \<Rightarrow> 'c" where
  "SUP_SMALL_SPENDER c = make_reciprocal c 12 28 (percent c 1) (per_mille c 5) (percent c 50)"
definition APP_MEDIUM_SPENDER :: "'c curve_ops \<Rightarrow> 'c" where
  "APP_MEDIUM_SPENDER c = make_linear c 14 28 (percent c 50) (percent c 100)"
definition SUP_MEDIUM_SPENDER :: "'c curve_ops \<Rightarrow> 'c" where
  "SUP_MEDIUM_SPENDER c = make_reciprocal c 12 28 (per_mille c 15) (per_myriad c 75) (percent c 50)"
definition APP_BIG_SPENDER :: "'c curve_ops \<Rightarrow> 'c" where
  "APP_BIG_SPENDER c = make_linear c 28 28 (percent c 50) (percent c 100)"
definition SUP_BIG_SPENDER :: "'c curve_ops \<Rightarrow> 'c" where
  "SUP_BIG_SPENDER c = make_reciprocal c 12 28 (percent c 2) (percent c 1) (percent c 50)"

record 'c track =
  track_id :: nat
  track_name :: string
  max_deciding :: nat
  decision_deposit :: nat
  prepare_period :: nat
  decision_period :: nat
  confirm_period :: nat
  min_enactment_period :: nat
  min_approval :: 'c
  min_support :: 'c

definition TRACKS_DATA :: "'c curve_ops \<Rightarrow> 'c track list" where
  "TRACKS_DATA c =
    [\<lparr> track_id = 0, track_name = ''root'', max_deciding = 1, decision_deposit = 100000 * UNIT,
       prepare_period = DAYS, decision_period = 28 * DAYS, confirm_period = DAYS,
       min_enactment_period = DAYS, min_approval = APP_ROOT c, min_support = SUP_ROOT c \<rparr>,
     \<lparr> track_id = 1, track_name = ''runtime_upgrade'', max_deciding = 1, decision_deposit = 100 * UNIT,
       prepare_period = 10 * MINUTES, decision_period = 28 * DAYS, confirm_period = 10 * MINUTES,
       min_enactment_period = 10 * MINUTES, min_approval = APP_RUNTIME_UPGRADE c,
       min_support = SUP_RUNTIME_UPGRADE c \<rparr>,
     \<lparr> track_id = 2, track_name = ''wish_for_change'', max_deciding = 10, decision_deposit = 1000 * UNIT,
       prepare_period = 2 * HOURS, decision_period = 28 * DAYS, confirm_period = DAYS,
       min_enactment_period = 10 * MINUTES, min_approval = APP_WISH_FOR_CHANGE c,
       min_support = SUP_WISH_FOR_CHANGE c \<rparr>,
     \<lparr> track_id = 10, track_name = ''identity_admin'', max_deciding = 10, decision_deposit = 1000 * UNIT,
       prepare_period = 2 * HOURS, decision_period = 28 * DAYS, confirm_period = DAYS,
       min_enactment_period = 10 * MINUTES, min_approval = APP_IDENTITY_ADMIN c,
       min_support = SUP_IDENTITY_ADMIN c \<rparr>,
     \<lparr> track_id = 20, track_name = ''referendum_canceller'', max_deciding = 1000, decision_deposit = 1000 * UNIT,
       prepare_period = 2 * HOURS, decision_period = 7 * DAYS, confirm_period = DAYS,
       min_enactment_period = 10 * MINUTES, min_approval = APP_REFERENDUM_CANCELLER c,
       min_support = SUP_REFERENDUM_CANCELLER c \<rparr>,
     \<lparr> track_id = 21, track_name = ''referendum_killer'', max_deciding = 1000, decision_deposit = 10000 * UNIT,
       prepare_period = 2 * HOURS, decision_period = 28 * DAYS, confirm_period = DAYS,
       min_enactment_period = 10 * MINUTES, min_approval = APP_REFERENDUM_KILLER c,
       min_support = SUP_REFERENDUM_KILLER c \<rparr>,
     \<lparr> track_id = 30, track_name = ''small_spender'', max_deciding = 100, decision_deposit = 100 * UNIT,
       prepare_period = 4 * HOURS, decision_period = 28 * DAYS, confirm_period = DAYS,
       min_enactment_period = DAYS, min_approval = APP_SMALL_SPENDER c, min_support = SUP_SMALL_SPENDER c \<rparr>,
     \<lparr> track_id = 31, track_name = ''medium_spender'', max_deciding = 20, decision_deposit = 200 * UNIT,
       prepare_period = 4 * HOURS, decision_period = 28 * DAYS, confirm_period = 3 * DAYS,
       min_enactment_period = DAYS, min_approval = APP_MEDIUM_SPENDER c, min_support = SUP_MEDIUM_SPENDER c \<rparr>,
     \<lparr> track_id = 32, track_name = ''big_spender'', max_deciding = 2, decision_deposit = 1000 * UNIT,
       prepare_period = 4 * HOURS, decision_period = 28 * DAYS, confirm_period = 7 * DAYS,
       min_enactment_period = DAYS, min_approval = APP_BIG_SPENDER c, min_support = SUP_BIG_SPENDER c \<rparr>]"

fun track_for :: "('a, 'y) gov_origin \<Rightarrow> nat option" where
  "track_for (System_origin Root) = Some 0"
| "track_for (Custom_origin (Inl RuntimeUpgrade)) = Some 1"
| "track_for (Custom_origin (Inl WishForChange)) = Some 2"
| "track_for (Custom_origin (Inl IdentityAdmin)) = Some 10"
| "track_for (Custom_origin (Inl ReferendumCanceller)) = Some 20"
| "track_for (Custom_origin (Inl ReferendumKiller)) = Some 21"
| "track_for (Custom_origin (Inl SmallSpender)) = Some 30"
| "track_for (Custom_origin (Inl MediumSpender)) = Some 31"
| "track_for (Custom_origin (Inl BigSpender)) = Some 32"
| "track_for _ = None"

section \<open>Who may do what\<close>

text \<open>The or-gates of \<open>frame_support\<close>: the left check is tried first, the right one on its refusal.\<close>

definition or_gate ::
  "(('a, 'x, 's) ensure_origin \<Rightarrow> ('a, 'x, 's) ensure_origin \<Rightarrow> ('a, 'x, 's) ensure_origin) \<Rightarrow> bool" where
  "or_gate gate \<longleftrightarrow>
     (\<forall>l r origin v. l origin = Inr v \<longrightarrow> gate l r origin = Inr v)
     \<and> (\<forall>l r origin origin'. l origin = Inl origin' \<longrightarrow> gate l r origin = r origin')"

definition TreasurySpender ::
  "(('a, Origin + 'y, nat) ensure_origin \<Rightarrow> ('a, Origin + 'y, nat) ensure_origin \<Rightarrow> ('a, Origin + 'y, nat) ensure_origin) \<Rightarrow>
    ('a, Origin + 'y, nat) ensure_origin" where
  "TreasurySpender EitherOf = EitherOf ensure_SmallSpender (EitherOf ensure_MediumSpender ensure_BigSpender)"

definition EnsureSubmitter ::
  "'a identities \<Rightarrow> 'a prime_state \<Rightarrow> ('a, Origin + 'y) runtime_origin \<Rightarrow> ('a, 'y) gov_origin \<Rightarrow>
    ('a, Origin + 'y) runtime_origin + 'a" where
  "EnsureSubmitter ids prime origin track =
     (case track of
        Custom_origin (Inl RuntimeUpgrade) \<Rightarrow> EnsurePrime prime origin
      | _ \<Rightarrow> EnsureQualifiedIdentity ids origin)"

type_synonym ('a, 'x) diverse =
  "('a, 'x, 'a) ensure_origin \<Rightarrow> ('a, 'x, unit) ensure_origin \<Rightarrow> ('a, 'x, 'a + unit) ensure_origin"

definition or_gate_diverse :: "('a, 'x) diverse \<Rightarrow> bool" where
  "or_gate_diverse gate \<longleftrightarrow>
     (\<forall>l r origin v. l origin = Inr v \<longrightarrow> gate l r origin = Inr (Inl v))
     \<and> (\<forall>l r origin origin'. l origin = Inl origin' \<longrightarrow> gate l r origin = map_sum id Inr (r origin'))"

definition CancelOrigin :: "('a, Origin + 'y) diverse \<Rightarrow> 'a prime_state \<Rightarrow> ('a, Origin + 'y, 'a + unit) ensure_origin" where
  "CancelOrigin EitherOfDiverse prime = EitherOfDiverse (EnsurePrime prime) ensure_ReferendumCanceller"

definition KillOrigin :: "('a, Origin + 'y) diverse \<Rightarrow> 'a prime_state \<Rightarrow> ('a, Origin + 'y, 'a + unit) ensure_origin" where
  "KillOrigin EitherOfDiverse prime = EitherOfDiverse (EnsurePrime prime) ensure_ReferendumKiller"

lemma or_gateD:
  assumes "or_gate gate"
  shows "l origin = Inr v \<Longrightarrow> gate l r origin = Inr v" "l origin = Inl origin' \<Longrightarrow> gate l r origin = r origin'"
  using assms unfolding or_gate_def by blast+

section \<open>The validator pallet in this runtime\<close>

definition runtime_vconfig :: vconfig where
  "runtime_vconfig =
     \<lparr> LockAmount = 100000000 * UNIT, LockDuration = 180 * DAYS, MaxValidators = 1000,
       RenewInterval = 1 * DAYS, OfflineThreshold = 1, RejoinCooldownPeriod = 1 * DAYS \<rparr>"

definition has_keys_adapter :: "('a \<rightharpoonup> 'keys) \<Rightarrow> 'a \<Rightarrow> bool" where
  "has_keys_adapter next_keys who \<longleftrightarrow> next_keys who \<noteq> None"

definition runtime_venv ::
  "nat \<Rightarrow> ('a \<rightharpoonup> 'keys) \<Rightarrow> 'a identities \<Rightarrow> ('a set \<Rightarrow> 'a list) \<Rightarrow> 'a venv" where
  "runtime_venv now next_keys ids order =
     \<lparr> block_number = now, has_keys = has_keys_adapter next_keys,
       identity_gate = QualifiedIdentity ids, trie_order = order \<rparr>"

end
