(* ===== verification/SessionWiring.thy ===== *)
theory SessionWiring
  imports Governance
begin

text \<open>
  How the runtime connects sessions, heartbeats and GRANDPA to the validator pallet
  (\<open>runtime/src/configs/mod.rs\<close>): the identification of validators that the offence reports go
  through, and the two offence reporters. The lemmas say what a report changes at once and what
  it leaves to the session boundary.
\<close>

definition unit_identification :: "'a \<Rightarrow> unit option" where
  "unit_identification who = Some ()"

definition active_validator_identification :: "('a, 'c) vstate \<Rightarrow> 'a \<Rightarrow> unit option" where
  "active_validator_identification s who =
     (case ValidatorLocks s who of
        None \<Rightarrow> None
      | Some info \<Rightarrow> if status info = Active then Some () else None)"

definition im_online_report_offence :: "('a \<times> unit) list \<Rightarrow> ('a, 'c) vstate \<Rightarrow> ('a, 'c) vstate" where
  "im_online_report_offence offenders s = fold (\<lambda>(offender, _) s. note_offline offender s) offenders s"

definition grandpa_report_offence :: "('a \<times> unit) list \<Rightarrow> ('a, 'c) vstate \<Rightarrow> ('a, 'c) vstate" where
  "grandpa_report_offence offenders s = fold (\<lambda>(offender, _) s. note_equivocation offender s) offenders s"

lemma active_validator_identification_iff:
  "active_validator_identification s who \<noteq> None \<longleftrightarrow> is_active s who"
  by (auto simp: active_validator_identification_def is_active_def split: option.splits)

lemma note_equivocation_locks [simp]: "ValidatorLocks (note_equivocation who s) = ValidatorLocks s"
  by (simp add: note_equivocation_def deposit_event_def)

lemma note_equivocation_flag:
  "EquivocationThisSession (note_equivocation who s) =
    EquivocationThisSession s \<union> (if is_active s who then {who} else {})"
  by (auto simp: note_equivocation_def deposit_event_def)

lemma note_offline_locks [simp]: "ValidatorLocks (note_offline who s) = ValidatorLocks s"
  by (simp add: note_offline_def)

lemma note_offline_flag:
  "OfflineThisSession (note_offline who s) =
    OfflineThisSession s \<union> (if ValidatorLocks s who \<noteq> None then {who} else {})"
  by (auto simp: note_offline_def)

lemma is_active_same_locks: "ValidatorLocks s = ValidatorLocks t \<Longrightarrow> is_active s = is_active t"
  by (simp add: is_active_def fun_eq_iff)

text \<open>
  A GRANDPA report flags exactly the active offenders. It touches no lock and no cooldown: the kick
  is left to the next session boundary.
\<close>

lemma grandpa_report_deferred:
  "ValidatorLocks (grandpa_report_offence offenders s) = ValidatorLocks s
   \<and> RejoinCooldown (grandpa_report_offence offenders s) = RejoinCooldown s
   \<and> EquivocationThisSession (grandpa_report_offence offenders s) =
       EquivocationThisSession s \<union> {who \<in> fst ` set offenders. is_active s who}"
proof (induction offenders arbitrary: s)
  case (Cons p ps)
  obtain who u where p: "p = (who, u)" by (cases p)
  have "RejoinCooldown (note_equivocation who s) = RejoinCooldown s"
    by (simp add: note_equivocation_def deposit_event_def)
  moreover have "is_active (note_equivocation who s) = is_active s"
    by (rule is_active_same_locks) simp
  ultimately show ?case
    using Cons [of "note_equivocation who s"] p
    by (auto simp: grandpa_report_offence_def note_equivocation_flag)
qed (simp add: grandpa_report_offence_def)

lemma im_online_report_flags:
  "ValidatorLocks (im_online_report_offence offenders s) = ValidatorLocks s
   \<and> OfflineThisSession (im_online_report_offence offenders s) =
       OfflineThisSession s \<union> {who \<in> fst ` set offenders. ValidatorLocks s who \<noteq> None}"
proof (induction offenders arbitrary: s)
  case (Cons p ps)
  obtain who u where p: "p = (who, u)" by (cases p)
  show ?case
    using Cons [of "note_offline who s"] p
    by (auto simp: im_online_report_offence_def note_offline_flag)
qed (simp add: im_online_report_offence_def)

end
