(* ===== verification/GovernanceProps.thy ===== *)
theory GovernanceProps
  imports SessionWiring
begin

text \<open>
  What governance promises: the track table, the track an origin belongs to and the published
  spending caps agree; as long as no referendum on the root track is enacted, runtime code moves only
  through a referendum that the holder of the prime key opened and the key only by its holder; and a
  validator candidate traces back to a judged identity. The machine \<open>gstep\<close> interleaves submissions,
  cancellations, enactments, direct calls and changes of the identity registry in any order. That a
  referendum dispatches its call under the origin it was submitted with is what the referenda pallet
  documents. Root may dispatch any call under any origin and write any storage, so an enacted root
  referendum may do anything from then on.
\<close>

section \<open>Tracks and caps\<close>

lemma track_for_Some_cases:
  "track_for origin = Some k \<Longrightarrow>
    (k, origin) \<in> {(0, System_origin Root)} \<union>
      (\<lambda>(k, x). (k, Custom_origin (Inl x))) ` {(1, RuntimeUpgrade), (2, WishForChange), (10, IdentityAdmin),
        (20, ReferendumCanceller), (21, ReferendumKiller), (30, SmallSpender), (31, MediumSpender), (32, BigSpender)}"
  by (induction origin rule: track_for.induct) auto

lemma track_for_inj: "track_for origin = Some k \<Longrightarrow> track_for origin' = Some k \<Longrightarrow> origin = origin'"
  by (drule track_for_Some_cases, drule track_for_Some_cases) auto

lemma track_ids: "map track_id (TRACKS_DATA c) = [0, 1, 2, 10, 20, 21, 30, 31, 32]"
  by (simp add: TRACKS_DATA_def)

lemma track_for_listed: "track_for origin = Some k \<Longrightarrow> k \<in> set (map track_id (TRACKS_DATA c))"
  unfolding track_ids by (drule track_for_Some_cases) auto

lemma track_listed_origin: "k \<in> set (map track_id (TRACKS_DATA c)) \<Longrightarrow> \<exists>origin. track_for origin = Some k"
  unfolding track_ids list.set insert_iff empty_iff
  by (elim disjE) (hypsubst, rule exI, rule track_for.simps | simp)+

lemma TreasurySpender_Inr_iff:
  assumes "or_gate gate"
  shows "TreasurySpender gate origin = Inr cap \<longleftrightarrow>
    (\<exists>x. origin = Custom_origin (Inl x) \<and> (x, cap) \<in> set (map snd spend_caps))"
proof -
  let ?s = "ensure_SmallSpender :: ('a, Origin + 'b, nat) ensure_origin"
  let ?m = "ensure_MediumSpender :: ('a, Origin + 'b, nat) ensure_origin"
  let ?b = "ensure_BigSpender :: ('a, Origin + 'b, nat) ensure_origin"
  have same: "?s origin = Inl origin' \<Longrightarrow> origin' = origin" "?m origin = Inl origin' \<Longrightarrow> origin' = origin" for origin origin'
    unfolding ensure_SmallSpender_def ensure_MediumSpender_def by (auto dest: decl_ensure_Inl)
  have "TreasurySpender gate origin = (case ?s origin of Inr v \<Rightarrow> Inr v | Inl _ \<Rightarrow>
      (case ?m origin of Inr v \<Rightarrow> Inr v | Inl _ \<Rightarrow> ?b origin))"
    using or_gateD [OF assms] same by (auto simp: TreasurySpender_def split: sum.splits) metis+
  also have "\<dots> = Inr cap \<longleftrightarrow> ?s origin = Inr cap \<or> ?m origin = Inr cap \<or> ?b origin = Inr cap"
    by (auto simp: ensure_SmallSpender_def ensure_MediumSpender_def ensure_BigSpender_def decl_ensure_def
        split: runtime_origin.splits sum.splits option.splits if_splits)
  also have "\<dots> \<longleftrightarrow> (\<exists>x. origin = Custom_origin (Inl x) \<and> (x, cap) \<in> set (map snd spend_caps))"
    by (auto simp: ensure_SmallSpender_def ensure_MediumSpender_def ensure_BigSpender_def decl_ensure_Inr_iff
        spend_caps_def split: if_splits)
  finally show ?thesis .
qed

lemma spender_track:
  assumes "t \<in> set (TRACKS_DATA c)"
  shows "track_id t = 30 \<Longrightarrow> confirm_period t = DAYS \<and> decision_deposit t = 100 * UNIT \<and> max_deciding t = 100"
    "track_id t = 31 \<Longrightarrow> confirm_period t = 3 * DAYS \<and> decision_deposit t = 200 * UNIT \<and> max_deciding t = 20"
    "track_id t = 32 \<Longrightarrow> confirm_period t = 7 * DAYS \<and> decision_deposit t = 1000 * UNIT \<and> max_deciding t = 2"
  using assms unfolding TRACKS_DATA_def list.set insert_iff empty_iff by (elim disjE; simp)+

lemma spender_tracks:
  assumes "s \<in> set (TRACKS_DATA c)" "t \<in> set (TRACKS_DATA c)"
    and "(track_id s, x, cap) \<in> set spend_caps" "(track_id t, y, cap') \<in> set spend_caps" "cap < cap'"
  shows "confirm_period s < confirm_period t \<and> decision_deposit s < decision_deposit t \<and> max_deciding t < max_deciding s"
proof -
  have u: "0 < UNIT" "0 < DAYS" by (simp_all add: UNIT_def time_defs)
  have order: "SMALL_SPENDER_CAP < MEDIUM_SPENDER_CAP" "MEDIUM_SPENDER_CAP < BIG_SPENDER_CAP"
    using u by (simp_all add: SMALL_SPENDER_CAP_def MEDIUM_SPENDER_CAP_def BIG_SPENDER_CAP_def)
  have caps: "track_id s = 30 \<and> cap = SMALL_SPENDER_CAP \<or> track_id s = 31 \<and> cap = MEDIUM_SPENDER_CAP \<or> track_id s = 32 \<and> cap = BIG_SPENDER_CAP"
    "track_id t = 30 \<and> cap' = SMALL_SPENDER_CAP \<or> track_id t = 31 \<and> cap' = MEDIUM_SPENDER_CAP \<or> track_id t = 32 \<and> cap' = BIG_SPENDER_CAP"
    using assms(3,4) by (auto simp: spend_caps_def)
  have "track_id s < track_id t"
    using caps assms(5) order by (elim disjE conjE) simp_all
  then consider "track_id s = 30" "track_id t = 31" | "track_id s = 30" "track_id t = 32" | "track_id s = 31" "track_id t = 32"
    using caps by (elim disjE conjE) simp_all
  then show ?thesis
    using spender_track [OF assms(1)] spender_track [OF assms(2)] u by cases simp_all
qed

section \<open>The machine\<close>

text \<open>The calls that matter here; a batch runs its calls under its own origin, and may stop early.\<close>

datatype ('a, 'code) gov_call =
    Call_upgrade 'code
  | Call_set_key 'a
  | Call_batch "('a, 'code) gov_call list"
  | Call_other

record ('a, 'y, 'code) referendum =
  submitter :: 'a
  key_at_submission :: "'a option"
  ids_at_submission :: "'a identities"
  ref_origin :: "('a, 'y) gov_origin"
  proposal :: "('a, 'code) gov_call"

record ('a, 'y, 'code) gov_state =
  gov_prime :: "'a prime_state"
  gov_ids :: "'a identities"
  gov_refs :: "('a, 'y, 'code) referendum list"
  gov_enacted :: "('a, 'y, 'code) referendum list"
  gov_code :: 'code

definition ginit :: "('a, 'y, 'code) gov_state \<Rightarrow> bool" where
  "ginit g \<longleftrightarrow> gov_refs g = [] \<and> gov_enacted g = []"

text \<open>What a call does to the prime pallet and the code; a call that fails does nothing.\<close>

inductive dispatched ::
  "('a raw_origin \<Rightarrow> 'code \<Rightarrow> 'e + 'r) \<Rightarrow> ('a, 'y) gov_origin \<Rightarrow> ('a, 'code) gov_call \<Rightarrow>
    'a prime_state \<times> 'code \<Rightarrow> 'a prime_state \<times> 'code \<Rightarrow> bool"
  for set_code :: "'a raw_origin \<Rightarrow> 'code \<Rightarrow> 'e + 'r" and origin :: "('a, 'y) gov_origin" where
  no_effect: "dispatched set_code origin call s s"
| upgraded: "upgrade ensure_RuntimeUpgrade set_code origin c = Inr v \<Longrightarrow>
    dispatched set_code origin (Call_upgrade c) (p, c0) (p, c)"
| key_set: "set_key origin new p = Inr p' \<Longrightarrow> dispatched set_code origin (Call_set_key new) (p, c) (p', c)"
| batched: "dispatched set_code origin call s s' \<Longrightarrow> dispatched set_code origin (Call_batch calls) s' s'' \<Longrightarrow>
    dispatched set_code origin (Call_batch (call # calls)) s s''"

text \<open>
  Root and the origin of the upgrade track arise only when a referendum is enacted; transactions,
  delegates and other pallets dispatch directly under any other origin.
\<close>

definition on_root_track :: "('a, 'y, 'code) referendum \<Rightarrow> bool" where
  "on_root_track r \<longleftrightarrow> ref_origin r = System_origin Root"

inductive gstep ::
  "('a, Origin + 'y) diverse \<Rightarrow> ('a raw_origin \<Rightarrow> 'code \<Rightarrow> 'e + 'r) \<Rightarrow>
    ('a, 'y, 'code) gov_state \<Rightarrow> ('a, 'y, 'code) gov_state \<Rightarrow> bool"
  for gate :: "('a, Origin + 'y) diverse" and set_code :: "'a raw_origin \<Rightarrow> 'code \<Rightarrow> 'e + 'r" where
  submit: "EnsureSubmitter (gov_ids g) (gov_prime g) origin track = Inr who \<Longrightarrow> track_for track \<noteq> None \<Longrightarrow>
    gstep gate set_code g (g \<lparr> gov_refs := \<lparr> submitter = who, key_at_submission = Key (gov_prime g),
      ids_at_submission = gov_ids g, ref_origin = track, proposal = call \<rparr> # gov_refs g \<rparr>)"
| cancel: "CancelOrigin gate (gov_prime g) origin = Inr v \<Longrightarrow>
    gstep gate set_code g (g \<lparr> gov_refs := removeAll r (gov_refs g) \<rparr>)"
| kill: "KillOrigin gate (gov_prime g) origin = Inr v \<Longrightarrow>
    gstep gate set_code g (g \<lparr> gov_refs := removeAll r (gov_refs g) \<rparr>)"
| enact: "r \<in> set (gov_refs g) \<Longrightarrow> \<not> on_root_track r \<Longrightarrow>
    dispatched set_code (ref_origin r) (proposal r) (gov_prime g, gov_code g) (p, c) \<Longrightarrow>
    gstep gate set_code g (g \<lparr> gov_prime := p, gov_code := c, gov_enacted := r # gov_enacted g \<rparr>)"
| direct_call: "origin \<noteq> System_origin Root \<Longrightarrow> origin \<noteq> Custom_origin (Inl RuntimeUpgrade) \<Longrightarrow>
    dispatched set_code (origin :: ('a, 'y) gov_origin) call (gov_prime g, gov_code g) (p, c) \<Longrightarrow>
    gstep gate set_code g (g \<lparr> gov_prime := p, gov_code := c \<rparr>)"
| identity_change: "gstep gate set_code g (g \<lparr> gov_ids := ids \<rparr>)"
| enact_root: "r \<in> set (gov_refs g) \<Longrightarrow> on_root_track r \<Longrightarrow>
    gstep gate set_code g (g' \<lparr> gov_enacted := r # gov_enacted g \<rparr>)"
| after_root: "r \<in> set (gov_enacted g) \<Longrightarrow> on_root_track r \<Longrightarrow>
    gstep gate set_code g (g' \<lparr> gov_enacted := gov_enacted g \<rparr>)"

text \<open>
  Either a root referendum that a qualified identity opened has been enacted, or every referendum was
  opened by someone its track admits.
\<close>

definition rooted :: "('a, 'y, 'code) gov_state \<Rightarrow> bool" where
  "rooted g \<longleftrightarrow> (\<exists>r \<in> set (gov_enacted g). on_root_track r \<and> QualifiedIdentity (ids_at_submission r) (submitter r))"

definition opened_rightly :: "('a, 'y, 'code) referendum \<Rightarrow> bool" where
  "opened_rightly r \<longleftrightarrow> track_for (ref_origin r) \<noteq> None \<and>
     (if ref_origin r = Custom_origin (Inl RuntimeUpgrade) then key_at_submission r = Some (submitter r)
      else QualifiedIdentity (ids_at_submission r) (submitter r))"

definition ginv :: "('a, 'y, 'code) gov_state \<Rightarrow> bool" where
  "ginv g \<longleftrightarrow> rooted g \<or> (\<forall>r \<in> set (gov_refs g). opened_rightly r) \<and> (\<forall>r \<in> set (gov_enacted g). \<not> on_root_track r)"

lemma upgrade_Inr_iff:
  "upgrade ensure_RuntimeUpgrade set_code origin c = Inr v \<longleftrightarrow>
    origin = Custom_origin (Inl RuntimeUpgrade) \<and> set_code Root c = Inr v"
  by (cases "set_code Root c")
    (auto simp: upgrade_def ensure_RuntimeUpgrade_def decl_ensure_def
      split: sum.splits runtime_origin.splits option.splits if_splits)

lemma set_key_Inr_iff:
  "set_key origin new s = Inr s' \<longleftrightarrow>
    (\<exists>old. origin = System_origin (Signed old) \<and> Key s = Some old
      \<and> s' = s \<lparr> Key := Some new, prime_events := prime_events s @ [KeyChanged old new] \<rparr>)"
  by (auto simp: set_key_def ensure_prime_Inr_iff)

text \<open>Which origin a change needs: the upgrade track's for the code, the holder's signature for the key.\<close>

lemma dispatched_code:
  "dispatched set_code origin call s s' \<Longrightarrow> snd s' \<noteq> snd s \<Longrightarrow> origin = Custom_origin (Inl RuntimeUpgrade)"
proof (induction rule: dispatched.induct)
  case (batched call s s' calls s'')
  then show ?case by (cases "snd s' = snd s") simp_all
qed (auto simp: upgrade_Inr_iff)

lemma dispatched_key:
  "dispatched set_code origin call s s' \<Longrightarrow> Key (fst s') \<noteq> Key (fst s) \<Longrightarrow>
    \<exists>old new. origin = System_origin (Signed old) \<and> Key (fst s) = Some old \<and> Key (fst s') = Some new"
proof (induction rule: dispatched.induct)
  case (batched call s s' calls s'')
  show ?case
  proof (cases "Key (fst s') = Key (fst s)")
    case True
    with batched show ?thesis by simp
  next
    case False
    with batched.IH(1) obtain old new where first: "origin = System_origin (Signed old)" "Key (fst s) = Some old" "Key (fst s') = Some new"
      by blast
    with batched.IH(2) have "\<exists>new. Key (fst s'') = Some new"
      by (cases "Key (fst s'') = Key (fst s')") auto
    with first show ?thesis by blast
  qed
qed (auto simp: set_key_Inr_iff)

lemma EnsureSubmitter_rightly:
  assumes "EnsureSubmitter ids prime origin track = Inr who" "track_for track \<noteq> None"
  shows "opened_rightly \<lparr> submitter = who, key_at_submission = Key prime, ids_at_submission = ids, ref_origin = track, proposal = call \<rparr>"
proof (cases "track = Custom_origin (Inl RuntimeUpgrade)")
  case True
  with assms show ?thesis by (simp add: opened_rightly_def EnsureSubmitter_def EnsurePrime_Inr_iff)
next
  case False
  then have "EnsureSubmitter ids prime origin track = EnsureQualifiedIdentity ids origin"
    by (auto simp: EnsureSubmitter_def split: runtime_origin.splits sum.splits Origin.splits)
  with assms False show ?thesis
    by (auto simp: opened_rightly_def EnsureQualifiedIdentity_def split: option.splits if_splits)
qed

lemma ginit_inv: "ginit g \<Longrightarrow> ginv g"
  by (simp add: ginit_def ginv_def)

lemma gstep_inv:
  assumes "ginv g" "gstep gate set_code g g'"
  shows "ginv g'"
  using assms(2)
proof cases
  case (submit origin track who call)
  with assms(1) EnsureSubmitter_rightly [OF submit(2,3), of call] show ?thesis
    by (auto simp: ginv_def rooted_def)
next
  case (enact_root r g0)
  with assms(1) show ?thesis
    by (auto simp: ginv_def rooted_def opened_rightly_def on_root_track_def split: if_splits)
qed (use assms(1) in \<open>auto simp: ginv_def rooted_def\<close>)

interpretation governance_machine: invariant_system ginit "gstep gate set_code" ginv
  by unfold_locales (auto intro: ginit_inv gstep_inv)

section \<open>Properties\<close>

text \<open>
  C5: Runtime code and the prime key are out of everyone's reach but two. In every step of every
  history, unless a referendum on the root track has been enacted, which only a qualified identity can open,
  the code changes only by enacting a referendum on the upgrade track
  whose submitter held the prime key when it was opened, and the prime key moves only by a call
  dispatched under the signature of its holder.\<close>

theorem upgrades_come_from_prime:
  fixes g g' :: "('a, 'y, 'code) gov_state"
  assumes "reachable ginit (gstep gate set_code) g" "gstep gate set_code g g'"
  shows "rooted g'
    \<or> (gov_code g' \<noteq> gov_code g \<longrightarrow>
        (\<exists>r \<in> set (gov_refs g). gov_enacted g' = r # gov_enacted g \<and> ref_origin r = Custom_origin (Inl RuntimeUpgrade)
          \<and> key_at_submission r = Some (submitter r)
          \<and> dispatched set_code (ref_origin r) (proposal r) (gov_prime g, gov_code g) (gov_prime g', gov_code g')))
      \<and> (Key (gov_prime g') \<noteq> Key (gov_prime g) \<longrightarrow>
        (\<exists>old new call. Key (gov_prime g) = Some old \<and> Key (gov_prime g') = Some new
          \<and> dispatched set_code (System_origin (Signed old) :: ('a, 'y) gov_origin) call
              (gov_prime g, gov_code g) (gov_prime g', gov_code g')))"
proof (cases "rooted g'")
  case False
  have "ginv g'" and g: "ginv g"
    using governance_machine.reachable_inv assms gstep_inv by blast+
  with False have unrooted: "\<forall>r \<in> set (gov_enacted g'). \<not> on_root_track r"
    by (simp add: ginv_def)
  from assms(2) show ?thesis
  proof cases
    case (enact r p c)
    with False g have "opened_rightly r" by (auto simp: ginv_def rooted_def)
    moreover have "Key p = Key (gov_prime g)"
    proof (rule ccontr)
      assume "Key p \<noteq> Key (gov_prime g)"
      with dispatched_key [OF enact(4)] obtain old where "ref_origin r = System_origin (Signed old)" by auto
      with \<open>opened_rightly r\<close> show False by (simp add: opened_rightly_def)
    qed
    moreover have "c \<noteq> gov_code g \<Longrightarrow> ref_origin r = Custom_origin (Inl RuntimeUpgrade)"
      using dispatched_code [OF enact(4)] by simp
    ultimately show ?thesis
      using enact by (auto simp: opened_rightly_def)
  next
    case (direct_call origin call p c)
    then show ?thesis
      using dispatched_key [OF direct_call(4)] dispatched_code [OF direct_call(4)] by auto
  qed (use unrooted in auto)
qed simp

text \<open>
  C30: The track table is well formed and agrees with the origins and the published caps: ids ascend,
  every origin with a track has exactly one and every track exactly one origin, and the treasury
  accepts exactly the listed spender origins, each up to its cap on its own track, where a higher cap
  needs a longer confirmation, a larger deposit and shares fewer slots.\<close>

theorem tracks_well_formed:
  fixes origin :: "('a, 'y) gov_origin" and c :: "'c curve_ops"
  assumes "or_gate (gate :: ('a, Origin + 'y, nat) ensure_origin \<Rightarrow> _)"
  shows "sorted_wrt (<) (map track_id (TRACKS_DATA c))
    \<and> (track_for origin = Some k \<longrightarrow> (\<exists>!t. t \<in> set (TRACKS_DATA c) \<and> track_id t = k))
    \<and> (\<forall>t \<in> set (TRACKS_DATA c). \<exists>!origin :: ('a, 'y) gov_origin. track_for origin = Some (track_id t))
    \<and> (TreasurySpender gate origin = Inr cap \<longleftrightarrow>
        (\<exists>k x. (k, x, cap) \<in> set spend_caps \<and> origin = Custom_origin (Inl x) \<and> track_for origin = Some k))
    \<and> (\<forall>s \<in> set (TRACKS_DATA c). \<forall>t \<in> set (TRACKS_DATA c). \<forall>x y cap cap'.
        (track_id s, x, cap) \<in> set spend_caps \<longrightarrow> (track_id t, y, cap') \<in> set spend_caps \<longrightarrow> cap < cap' \<longrightarrow>
        confirm_period s < confirm_period t \<and> decision_deposit s < decision_deposit t \<and> max_deciding t < max_deciding s)"
proof (intro conjI)
  show sorted: "sorted_wrt (<) (map track_id (TRACKS_DATA c))"
    unfolding track_ids by simp
  have inj: "inj_on track_id (set (TRACKS_DATA c))"
    using sorted by (metis distinct_map strict_sorted_iff)
  show "track_for origin = Some k \<longrightarrow> (\<exists>!t. t \<in> set (TRACKS_DATA c) \<and> track_id t = k)"
    using inj track_for_listed [of origin k c] by (auto dest: inj_onD)
  show "\<forall>t \<in> set (TRACKS_DATA c). \<exists>!origin :: ('a, 'y) gov_origin. track_for origin = Some (track_id t)"
    using track_listed_origin [where c = c] track_for_inj by (metis image_eqI set_map)
  show "TreasurySpender gate origin = Inr cap \<longleftrightarrow>
      (\<exists>k x. (k, x, cap) \<in> set spend_caps \<and> origin = Custom_origin (Inl x) \<and> track_for origin = Some k)"
    unfolding TreasurySpender_Inr_iff [OF assms] by (auto simp: spend_caps_def)
qed (use spender_tracks in blast)

text \<open>
  C24: An account becomes a validator candidate in this runtime only if it signed the call itself, has
  session keys, traces back to an identity that a registrar judged reasonable or known good and that
  names a social channel, and holds the stake, which is a hundred million units unless the account is
  exempt; the lock then lasts at least the lock duration.\<close>

theorem validator_entry_traceable:
  assumes "lock runtime_vconfig cur (runtime_venv now next_keys ids order) origin s = Inr s'"
    and "now + 180 * DAYS \<le> U32_MAX"
  shows "\<exists>who holder r f. origin = System_origin (Signed who) \<and> next_keys who \<noteq> None
    \<and> (holder = who \<or> (\<exists>name. SuperOf ids who = Some (holder, name)))
    \<and> IdentityOf ids holder = Some r
    \<and> (\<exists>k j. (k, j) \<in> set (judgements r) \<and> (j = Reasonable \<or> j = KnownGood))
    \<and> f \<in> {X, Telegram, Discord} \<and> has_identity (reg_info r) (push_bit (field_index f) 1)
    \<and> (\<exists>l. ValidatorLocks s' who = Some l \<and> status l = Active \<and> now + 180 * DAYS \<le> expiry_block l
        \<and> (who \<notin> StakeExemptAccounts s \<longrightarrow> 100000000 * UNIT \<le> amount l)
        \<and> amount l \<le> free_balance cur (vcurrency s) who)"
proof -
  obtain who where who: "origin = System_origin (Signed who)" "next_keys who \<noteq> None" "QualifiedIdentity ids who"
    using assms(1) by (auto simp: lock_def Let_def runtime_venv_def has_keys_adapter_def split: option.splits if_splits)
  have "\<exists>l. ValidatorLocks s' who = Some l \<and> status l = Active \<and> now + 180 * DAYS \<le> expiry_block l
        \<and> (who \<notin> StakeExemptAccounts s \<longrightarrow> 100000000 * UNIT \<le> amount l)
        \<and> amount l \<le> free_balance cur (vcurrency s) who"
    using assms who(1)
    by (auto simp: lock_def Let_def required_lock_def runtime_venv_def runtime_vconfig_def deposit_event_def sat_add_32
        split: option.splits if_splits)
  with who(1,2) QualifiedIdentity_traceable [OF who(3)] show ?thesis by blast
qed

section \<open>A chain at work\<close>

definition gov_gate :: "(nat, Origin + unit) diverse" where
  "gov_gate l r origin = (case l origin of Inr v \<Rightarrow> Inr (Inl v) | Inl origin' \<Rightarrow> map_sum id Inr (r origin'))"

definition gov_nobody :: "nat identities" where
  "gov_nobody = \<lparr> IdentityOf = Map.empty, SuperOf = Map.empty \<rparr>"

definition gov_start :: "(nat, unit, nat) gov_state" where
  "gov_start = \<lparr> gov_prime = \<lparr> Key = Some 0, prime_events = [] \<rparr>,
     gov_ids = gov_nobody, gov_refs = [], gov_enacted = [], gov_code = 1 \<rparr>"

definition gov_ref :: "(nat, unit, nat) referendum" where
  "gov_ref = \<lparr> submitter = 0, key_at_submission = Some 0, ids_at_submission = gov_nobody,
     ref_origin = Custom_origin (Inl RuntimeUpgrade), proposal = Call_batch [Call_other, Call_upgrade 7] \<rparr>"

definition gov_set_code :: "nat raw_origin \<Rightarrow> nat \<Rightarrow> unit + unit" where
  "gov_set_code origin code = Inr ()"

theorem upgrades_come_from_prime_witness:
  "\<exists>g g'. reachable ginit (gstep gov_gate gov_set_code) g \<and> gstep gov_gate gov_set_code g g'
    \<and> gov_code g = 1 \<and> gov_code g' = 7 \<and> \<not> rooted g'
    \<and> (\<exists>r \<in> set (gov_refs g). ref_origin r = Custom_origin (Inl RuntimeUpgrade) \<and> key_at_submission r = Some (submitter r))"
proof -
  let ?g = "gov_start \<lparr> gov_refs := [gov_ref] \<rparr>"
  let ?g' = "gov_start \<lparr> gov_refs := [gov_ref], gov_code := 7, gov_enacted := [gov_ref] \<rparr>"
  have "EnsureSubmitter (gov_ids gov_start) (gov_prime gov_start) (System_origin (Signed 0))
      (Custom_origin (Inl RuntimeUpgrade) :: (nat, unit) gov_origin) = Inr 0"
    by (simp add: EnsureSubmitter_def EnsurePrime_def gov_start_def)
  from gstep.submit [OF this, of gov_gate gov_set_code "Call_batch [Call_other, Call_upgrade 7]"]
  have 1: "gstep gov_gate gov_set_code gov_start ?g" by (simp add: gov_start_def gov_ref_def)
  have "reachable ginit (gstep gov_gate gov_set_code) gov_start"
    by (rule reach_init) (simp add: ginit_def gov_start_def)
  from reach_step [OF this 1] have r: "reachable ginit (gstep gov_gate gov_set_code) ?g" .
  have "upgrade ensure_RuntimeUpgrade gov_set_code (ref_origin gov_ref) 7 = Inr ()"
    by (simp add: upgrade_Inr_iff gov_ref_def gov_set_code_def)
  from dispatched.upgraded [OF this] have "dispatched gov_set_code (ref_origin gov_ref) (Call_upgrade 7) (gov_prime ?g, 1) (gov_prime ?g, 7)" .
  from batched [OF no_effect batched [OF this no_effect], of Call_other "[]"]
  have "dispatched gov_set_code (ref_origin gov_ref) (proposal gov_ref) (gov_prime ?g, gov_code ?g) (gov_prime ?g, 7)"
    by (simp add: gov_ref_def gov_start_def)
  from gstep.enact [OF _ _ this, of gov_gate] have 2: "gstep gov_gate gov_set_code ?g ?g'"
    by (simp add: gov_ref_def gov_start_def on_root_track_def)
  have "\<not> rooted ?g'" by (simp add: rooted_def on_root_track_def gov_ref_def)
  with upgrades_come_from_prime [OF r 2] r 2 show ?thesis
    by (intro exI [of _ ?g] exI [of _ ?g']) (simp add: gov_start_def)
qed

definition gov_or :: "(nat, Origin + unit, nat) ensure_origin \<Rightarrow> (nat, Origin + unit, nat) ensure_origin \<Rightarrow> (nat, Origin + unit, nat) ensure_origin" where
  "gov_or l r origin = (case l origin of Inr v \<Rightarrow> Inr v | Inl origin' \<Rightarrow> r origin')"

lemma gov_or_gate: "or_gate gov_or"
  by (simp add: or_gate_def gov_or_def)

definition gov_curves :: "nat curve_ops" where
  "gov_curves = \<lparr> from_rational = (\<lambda>a b. int (a * 1000000000 div b)), make_linear = (\<lambda>a b c d. a),
     make_reciprocal = (\<lambda>a b c d e. a) \<rparr>"

theorem tracks_well_formed_witness:
  "sorted_wrt (<) (map track_id (TRACKS_DATA gov_curves))
    \<and> (\<exists>!t. t \<in> set (TRACKS_DATA gov_curves) \<and> track_id t = 32)
    \<and> TreasurySpender gov_or (Custom_origin (Inl BigSpender)) = Inr BIG_SPENDER_CAP"
  using tracks_well_formed [OF gov_or_gate, where c = gov_curves and k = 32 and origin = "Custom_origin (Inl BigSpender)"
      and cap = BIG_SPENDER_CAP]
  by (simp add: spend_caps_def)

definition gov_currency :: "(nat, unit) lock_currency" where
  "gov_currency = \<lparr> set_lock = (\<lambda>_ _ c. c), remove_lock = (\<lambda>_ c. c),
     free_balance = (\<lambda>_ _. 100000000 * UNIT), locked = (\<lambda>_ _. 0) \<rparr>"

definition gov_info :: IdentityInfo where
  "gov_info = \<lparr> display = [], avatar = [], bio = [], web = [], email = [], github = [], matrix = [],
     x_handle = [], telegram = [110], discord = [] \<rparr>"

definition gov_identities :: "nat identities" where
  "gov_identities = \<lparr> IdentityOf = [3 \<mapsto> \<lparr> judgements = [(0, KnownGood)], reg_deposit = 0, reg_info = gov_info \<rparr>],
     SuperOf = [5 \<mapsto> (3, [])] \<rparr>"

theorem validator_entry_traceable_witness:
  "\<exists>s' l. lock runtime_vconfig gov_currency (runtime_venv 1 [5 \<mapsto> ()] gov_identities (\<lambda>_. []))
      (System_origin (Signed 5) :: (nat, unit) runtime_origin) (empty_vstate ()) = Inr s'
    \<and> ValidatorLocks s' 5 = Some l \<and> 100000000 * UNIT \<le> amount l"
proof -
  let ?env = "runtime_venv 1 [5 \<mapsto> ()] gov_identities (\<lambda>_. [])"
  have q: "QualifiedIdentity gov_identities 5"
    by (simp add: QualifiedIdentity_def account_qualifies_def gov_identities_def gov_info_def)
  obtain s' where s': "lock runtime_vconfig gov_currency ?env
      (System_origin (Signed 5) :: (nat, unit) runtime_origin) (empty_vstate ()) = Inr s'"
    using q by (simp add: lock_def runtime_venv_def has_keys_adapter_def runtime_vconfig_def empty_vstate_def
        required_lock_def gov_currency_def sat_add_32 Let_def)
  have "1 + 180 * DAYS \<le> U32_MAX" by (simp add: time_defs U32_MAX_def)
  from validator_entry_traceable [OF s' this] show ?thesis
    using s' by (auto simp: empty_vstate_def)
qed

end
