(* ===== verification/Fees.thy ===== *)
theory Fees
  imports Constants
begin

text \<open>
  Transaction fees (\<open>runtime/src/configs/mod.rs\<close>): the fee multiplier that follows block fullness,
  the length fee, and the split of fees and tips between the miner and the treasury, with the
  migration that anchors the multiplier (\<open>runtime/src/migrations.rs\<close>). A \<open>FixedU128\<close> is its inner
  number, that is its value times \<open>FIXED_DIV\<close>, a \<open>Perbill\<close> its parts. Multiplication, division and
  rational conversions belong to the arithmetic library: they are the record \<open>fee_ops\<close>, and
  \<open>fee_laws\<close> states their documented accuracy.
\<close>

section \<open>Arithmetic of the library\<close>

definition FIXED_DIV :: nat where "FIXED_DIV = 1000000000000000000"
definition PERQUINTILL :: nat where "PERQUINTILL = 1000000000000000000"

record fee_ops =
  fx_mul :: "nat \<Rightarrow> nat \<Rightarrow> nat"
  fx_div :: "nat \<Rightarrow> nat \<Rightarrow> nat"
  fx_rational :: "nat \<Rightarrow> nat \<Rightarrow> nat"
  fx_mul_int :: "nat \<Rightarrow> nat \<Rightarrow> nat"
  perbill_rational :: "nat \<Rightarrow> nat \<Rightarrow> nat"
  percent_of :: "nat \<Rightarrow> nat \<Rightarrow> nat"
  perquintill_of :: "nat \<Rightarrow> nat \<Rightarrow> nat"

definition fx_integer :: "nat \<Rightarrow> nat" where
  "fx_integer n = sat_mul 128 n FIXED_DIV"

text \<open>\<open>near d x y\<close>: the quotient \<open>y / d\<close> is within one of \<open>x\<close>.\<close>

definition near :: "nat \<Rightarrow> nat \<Rightarrow> nat \<Rightarrow> bool" where
  "near d x y \<longleftrightarrow> x * d \<le> y + d \<and> y \<le> x * d + d"

definition fee_laws :: "fee_ops \<Rightarrow> bool" where
  "fee_laws f \<longleftrightarrow>
     (\<forall>a b. a * b \<le> FIXED_DIV * U128_MAX \<longrightarrow> near FIXED_DIV (fx_mul f a b) (a * b))
     \<and> (\<forall>a b. 0 < b \<longrightarrow> a * FIXED_DIV \<le> b * U128_MAX \<longrightarrow> near b (fx_div f a b) (a * FIXED_DIV))
     \<and> (\<forall>n d. 0 < d \<longrightarrow> n \<le> d \<longrightarrow> near d (fx_rational f n d) (n * FIXED_DIV))
     \<and> (\<forall>a n. a * n \<le> FIXED_DIV * U128_MAX \<longrightarrow> fx_mul_int f a n = a * n div FIXED_DIV)
     \<and> (\<forall>n d. 0 < d \<longrightarrow> n \<le> d \<longrightarrow> perbill_rational f n d = n * 1000000000 div d)
     \<and> (\<forall>p n. p \<le> 100 \<longrightarrow> percent_of f p n \<le> n \<and> near 100 (percent_of f p n) (p * n))
     \<and> (\<forall>p n. p \<le> PERQUINTILL \<longrightarrow> perquintill_of f p n \<le> n \<and> near PERQUINTILL (perquintill_of f p n) (p * n))"

section \<open>The multiplier\<close>

definition FEE_ANCHOR :: nat where "FEE_ANCHOR = 10000"

definition AdjustmentVariable :: "fee_ops \<Rightarrow> nat" where
  "AdjustmentVariable f = fx_rational f 125 1000000"

definition MinimumMultiplier :: nat where "MinimumMultiplier = fx_integer (FEE_ANCHOR div 10)"
definition MaximumMultiplier :: nat where "MaximumMultiplier = fx_integer (FEE_ANCHOR * 10)"

definition TargetBlockFullness :: nat where "TargetBlockFullness = 25 * (PERQUINTILL div 100)"

record block_usage =
  used_ref_time :: nat
  used_proof_size :: nat
  used_length :: nat
  max_ref_time :: nat
  max_proof_size :: nat
  max_length :: nat

definition limiting_dimension :: "fee_ops \<Rightarrow> block_usage \<Rightarrow> nat \<times> nat" where
  "limiting_dimension f b =
     (let weight_ref = min (used_ref_time b) (max_ref_time b);
          weight_proof = min (used_proof_size b) (max_proof_size b);
          limit_length = max (max_length b) 1;
          len = min (used_length b) limit_length;
          limit_ref = max (max_ref_time b) 1;
          limit_proof = max (max_proof_size b) 1;
          ref_time_share = perbill_rational f weight_ref limit_ref;
          proof_share = perbill_rational f weight_proof limit_proof;
          length_share = perbill_rational f len limit_length in
      if length_share \<ge> ref_time_share \<and> length_share \<ge> proof_share then (len, limit_length)
      else if proof_share > ref_time_share then (weight_proof, limit_proof)
      else (weight_ref, limit_ref))"

definition clamp :: "nat \<Rightarrow> nat \<Rightarrow> nat \<Rightarrow> nat" where
  "clamp lo hi x = (if x < lo then lo else if x > hi then hi else x)"

definition fee_step :: "fee_ops \<Rightarrow> nat \<Rightarrow> nat" where
  "fee_step f diff = fx_mul f (AdjustmentVariable f) diff"

definition fee_curve :: "fee_ops \<Rightarrow> nat \<Rightarrow> nat" where
  "fee_curve f diff =
     (let variable = AdjustmentVariable f;
          half_variable_squared = fx_div f (fx_mul f variable variable) (fx_integer 2)
      in fx_mul f (fx_mul f half_variable_squared diff) diff)"

definition fee_convert :: "fee_ops \<Rightarrow> block_usage \<Rightarrow> nat \<Rightarrow> nat" where
  "fee_convert f b previous =
     (let lo = MinimumMultiplier; hi = MaximumMultiplier;
          previous = max previous lo;
          (used, limit) = limiting_dimension f b;
          target = perquintill_of f TargetBlockFullness limit;
          excess = (used \<ge> target);
          gap = max used target - min used target;
          diff = fx_rational f gap limit;
          first_term = fee_step f diff;
          second_term = fee_curve f diff in
      if excess
      then clamp lo hi (sat_add 128 previous (fx_mul f (sat_add 128 first_term second_term) previous))
      else clamp lo hi (previous - fx_mul f (first_term - second_term) previous))"

section \<open>Prices\<close>

definition WEIGHT_FEE :: nat where "WEIGHT_FEE = 50000000"
definition LENGTH_FEE :: nat where "LENGTH_FEE = 16000000000000"

definition length_to_fee :: "fee_ops \<Rightarrow> nat \<Rightarrow> nat \<Rightarrow> nat" where
  "length_to_fee f next_fee_multiplier len =
     (let flat = sat_mul 128 (LENGTH_FEE div FEE_ANCHOR) len
      in fx_mul_int f next_fee_multiplier flat)"

section \<open>The migration of the multiplier\<close>

definition anchored :: "fee_ops \<Rightarrow> nat \<Rightarrow> nat" where
  "anchored f stored =
     (if stored < MinimumMultiplier then fx_mul f stored (fx_integer FEE_ANCHOR) else stored)"

text \<open>The new multiplier with the numbers of database reads and writes the weight is billed on.\<close>

definition anchor_on_runtime_upgrade :: "fee_ops \<Rightarrow> nat \<Rightarrow> nat \<times> nat \<times> nat" where
  "anchor_on_runtime_upgrade f stored =
     (let new = anchored f stored in
      if new = stored then (stored, 1, 0) else (new, 1, 1))"

section \<open>The split\<close>

definition MINER_FEE_SHARE :: nat where "MINER_FEE_SHARE = 20"

definition on_nonzero_unbalanced ::
  "fee_ops \<Rightarrow> ('a \<Rightarrow> nat \<Rightarrow> 'bal \<Rightarrow> 'bal) \<Rightarrow> 'a option \<Rightarrow> 'a \<Rightarrow> nat \<Rightarrow> 'bal \<Rightarrow> 'bal" where
  "on_nonzero_unbalanced f resolve author treasury amount bal =
     (let (rest, bal) =
        (case author of
           Some author \<Rightarrow>
             (let keep = percent_of f MINER_FEE_SHARE amount;
                  reward = min keep amount;
                  rest = amount - reward
              in (rest, resolve author reward bal))
         | None \<Rightarrow> (amount, bal))
      in resolve treasury rest bal)"

definition on_unbalanced ::
  "fee_ops \<Rightarrow> ('a \<Rightarrow> nat \<Rightarrow> 'bal \<Rightarrow> 'bal) \<Rightarrow> 'a option \<Rightarrow> 'a \<Rightarrow> nat \<Rightarrow> 'bal \<Rightarrow> 'bal" where
  "on_unbalanced f resolve author treasury amount bal =
     (if amount = 0 then bal else on_nonzero_unbalanced f resolve author treasury amount bal)"

definition on_unbalanceds ::
  "fee_ops \<Rightarrow> ('a \<Rightarrow> nat \<Rightarrow> 'bal \<Rightarrow> 'bal) \<Rightarrow> 'a option \<Rightarrow> 'a \<Rightarrow> nat list \<Rightarrow> 'bal \<Rightarrow> 'bal" where
  "on_unbalanceds f resolve author treasury fees_then_tips bal =
     (case fees_then_tips of
        [] \<Rightarrow> bal
      | fee # tips \<Rightarrow>
          (let bal = on_unbalanced f resolve author treasury fee bal in
           case tips of
             [] \<Rightarrow> bal
           | tip # _ \<Rightarrow> resolve (case author of Some a \<Rightarrow> a | None \<Rightarrow> treasury) tip bal))"

end
