(* ===== verification/FeesProps.thy ===== *)
theory FeesProps
  imports Fees Complex_Main
begin

text \<open>
  What the fee code promises: the multiplier stays between its bounds and moves towards the side the
  block's fullest dimension is on, sustained full blocks take it from the anchor to its maximum in
  three days, and the split of fees and tips pays out everything, a fifth of the fee and the whole
  tip to the miner.
\<close>

section \<open>Consequences of the laws\<close>

lemmas fee_consts = FIXED_DIV_def PERQUINTILL_def FEE_ANCHOR_def MinimumMultiplier_def MaximumMultiplier_def
  TargetBlockFullness_def fx_integer_def sat_mul_def

lemma multiplier_bounds:
  "MinimumMultiplier = 1000 * FIXED_DIV" "MaximumMultiplier = 100000 * FIXED_DIV" "fx_integer FEE_ANCHOR = 10000 * FIXED_DIV"
  "fx_integer 2 = 2 * FIXED_DIV"
  by (simp_all add: fee_consts)

lemma fee_clamp_range: "lo \<le> hi \<Longrightarrow> lo \<le> clamp lo hi x \<and> clamp lo hi x \<le> hi"
  by (simp add: clamp_def)

lemma fee_convert_range: "MinimumMultiplier \<le> fee_convert f b m \<and> fee_convert f b m \<le> MaximumMultiplier"
  using fee_clamp_range [of MinimumMultiplier MaximumMultiplier]
  by (auto simp: fee_convert_def Let_def multiplier_bounds FIXED_DIV_def split: prod.splits)

lemma limiting_cases:
  "limiting_dimension f b \<in> {(min (used_length b) (max (max_length b) 1), max (max_length b) 1),
     (min (used_proof_size b) (max_proof_size b), max (max_proof_size b) 1),
     (min (used_ref_time b) (max_ref_time b), max (max_ref_time b) 1)}"
  by (simp add: limiting_dimension_def Let_def)

lemma limiting_bounds:
  assumes "limiting_dimension f b = (u, l)"
  shows "u \<le> l" "0 < l" "k \<le> max_ref_time b \<Longrightarrow> k \<le> max_proof_size b \<Longrightarrow> k \<le> max_length b \<Longrightarrow> k \<le> l"
  using limiting_cases [of f b] unfolding assms
  by (auto simp: min_le_iff_disj le_max_iff_disj less_max_iff_disj)

lemma limiting_dimension_largest:
  assumes "limiting_dimension f b = (u, l)"
  shows "perbill_rational f (min (used_ref_time b) (max_ref_time b)) (max (max_ref_time b) 1) \<le> perbill_rational f u l"
    "perbill_rational f (min (used_proof_size b) (max_proof_size b)) (max (max_proof_size b) 1) \<le> perbill_rational f u l"
    "perbill_rational f (min (used_length b) (max (max_length b) 1)) (max (max_length b) 1) \<le> perbill_rational f u l"
  using assms by (auto simp: limiting_dimension_def Let_def split: if_splits)

definition full_block :: "block_usage \<Rightarrow> bool" where
  "full_block b \<longleftrightarrow>
     0 < max_ref_time b \<and> max_ref_time b \<le> used_ref_time b
     \<or> 0 < max_proof_size b \<and> max_proof_size b \<le> used_proof_size b
     \<or> 0 < max_length b \<and> max_length b \<le> used_length b"

lemma perbill_one:
  assumes "fee_laws f" "n \<le> d" "0 < d"
  shows "1000000000 \<le> perbill_rational f n d \<longleftrightarrow> n = d"
proof
  assume "1000000000 \<le> perbill_rational f n d"
  then have "1000000000 \<le> n * 1000000000 div d" using assms by (simp add: fee_laws_def)
  then have "1000000000 * d \<le> n * 1000000000"
    using assms(3) by (simp add: less_eq_div_iff_mult_less_eq)
  with assms(2) show "n = d" by simp
qed (use assms in \<open>simp add: fee_laws_def\<close>)

lemma full_block_limiting:
  assumes "fee_laws f" "full_block b" "limiting_dimension f b = (u, l)"
  shows "u = l"
proof -
  have top: "perbill_rational f n n = 1000000000" if "0 < n" for n
    using assms(1) that by (simp add: fee_laws_def)
  have "1000000000 \<le> perbill_rational f u l"
    using assms(2) unfolding full_block_def
  proof (elim disjE conjE)
    assume "0 < max_ref_time b" "max_ref_time b \<le> used_ref_time b"
    with limiting_dimension_largest(1) [OF assms(3)] top [of "max_ref_time b"] show ?thesis by simp
  next
    assume "0 < max_proof_size b" "max_proof_size b \<le> used_proof_size b"
    with limiting_dimension_largest(2) [OF assms(3)] top [of "max_proof_size b"] show ?thesis by simp
  next
    assume "0 < max_length b" "max_length b \<le> used_length b"
    with limiting_dimension_largest(3) [OF assms(3)] top [of "max_length b"] show ?thesis by simp
  qed
  then show ?thesis
    using perbill_one [OF assms(1)] limiting_bounds [OF assms(3)] by simp
qed

section \<open>One full block\<close>

lemma fx_mul_near: "fee_laws f \<Longrightarrow> a * b \<le> FIXED_DIV * U128_MAX \<Longrightarrow> near FIXED_DIV (fx_mul f a b) (a * b)"
  by (simp add: fee_laws_def)

lemma fx_mul_le:
  assumes "fee_laws f" "a \<le> A" "b \<le> B" "A * B \<le> C * FIXED_DIV" "C \<le> U128_MAX"
  shows "fx_mul f a b \<le> C + 1"
proof -
  have le: "a * b \<le> C * FIXED_DIV" using assms(2-4) by (meson le_trans mult_le_mono)
  also have "\<dots> \<le> U128_MAX * FIXED_DIV" using assms(5) by simp
  finally have "near FIXED_DIV (fx_mul f a b) (a * b)"
    by (intro fx_mul_near [OF assms(1)]) (simp add: mult.commute)
  then have "fx_mul f a b * FIXED_DIV \<le> (C + 1) * FIXED_DIV" using le by (simp add: near_def algebra_simps)
  then show ?thesis by (simp add: FIXED_DIV_def)
qed

lemma fx_mul_ge:
  assumes "fee_laws f" "A \<le> a" "B \<le> b" "(C + 1) * FIXED_DIV \<le> A * B" "a * b \<le> FIXED_DIV * U128_MAX"
  shows "C \<le> fx_mul f a b"
proof -
  have "(C + 1) * FIXED_DIV \<le> a * b" using assms(2-4) by (meson le_trans mult_le_mono)
  also have "\<dots> \<le> (fx_mul f a b + 1) * FIXED_DIV"
    using fx_mul_near [OF assms(1,5)] by (simp add: near_def)
  finally show ?thesis by (simp add: FIXED_DIV_def)
qed

lemma adjustment_variable:
  assumes "fee_laws f"
  shows "124999999999999 \<le> AdjustmentVariable f" "AdjustmentVariable f \<le> 125000000000001"
proof -
  have "near 1000000 (AdjustmentVariable f) (125 * FIXED_DIV)"
    using assms by (simp add: fee_laws_def AdjustmentVariable_def)
  then show "124999999999999 \<le> AdjustmentVariable f" "AdjustmentVariable f \<le> 125000000000001"
    by (simp_all add: near_def FIXED_DIV_def)
qed

lemma diff_le:
  assumes "fee_laws f" "0 < l" "g \<le> l"
  shows "fx_rational f g l \<le> FIXED_DIV + 1"
proof -
  have "near l (fx_rational f g l) (g * FIXED_DIV)" using assms by (simp add: fee_laws_def)
  then have "fx_rational f g l * l \<le> (FIXED_DIV + 1) * l"
    using mult_le_mono1 [OF assms(3), of FIXED_DIV] unfolding near_def add_mult_distrib mult_1 mult.commute [of FIXED_DIV l] by linarith
  then show ?thesis using assms(2) by (metis mult_le_cancel2)
qed

lemma diff_full:
  assumes "fee_laws f" "1000000 \<le> l" "t = perquintill_of f TargetBlockFullness l"
  shows "t \<le> l" "749998999999999998 \<le> fx_rational f (l - t) l"
proof -
  have q: "TargetBlockFullness \<le> PERQUINTILL" by (simp add: fee_consts)
  with assms(1,3) have t: "t \<le> l" "near PERQUINTILL t (TargetBlockFullness * l)" by (simp_all add: fee_laws_def)
  show "t \<le> l" by fact
  have t4: "4 * t \<le> l + 4" using t(2) by (simp add: near_def fee_consts)
  have "near l (fx_rational f (l - t) l) ((l - t) * FIXED_DIV)" using assms(1,2) by (simp add: fee_laws_def)
  then have "(l - t) * FIXED_DIV \<le> fx_rational f (l - t) l * l + l" by (simp add: near_def)
  moreover have "(3 * l - 4) * FIXED_DIV \<le> 4 * ((l - t) * FIXED_DIV)" using t4 by (simp add: FIXED_DIV_def)
  ultimately have "(3 * l - 4) * FIXED_DIV \<le> 4 * (fx_rational f (l - t) l * l) + 4 * l" by linarith
  then have "(3 * l) * FIXED_DIV \<le> 4 * (fx_rational f (l - t) l * l) + 4 * l + 4 * FIXED_DIV"
    by (simp add: FIXED_DIV_def)
  moreover have "4 * FIXED_DIV \<le> l * 4000000000000" using assms(2) by (simp add: FIXED_DIV_def)
  ultimately have "l * (3 * FIXED_DIV) \<le> l * (4 * fx_rational f (l - t) l + 4 + 4000000000000)"
    by (simp add: algebra_simps)
  then have "3 * FIXED_DIV \<le> 4 * fx_rational f (l - t) l + 4 + 4000000000000"
    using assms(2) by simp
  then show "749998999999999998 \<le> fx_rational f (l - t) l" by (simp add: FIXED_DIV_def)
qed

lemma U128_big: "10 ^ 38 \<le> U128_MAX"
  by (simp add: U128_MAX_def)

lemma fee_terms_le:
  assumes "fee_laws f" "d \<le> FIXED_DIV + 1"
  shows "fee_step f d \<le> 200000000000000" "fee_curve f d \<le> 50000000000"
proof -
  note v = adjustment_variable [OF assms(1)]
  show "fee_step f d \<le> 200000000000000"
    using fx_mul_le [OF assms(1) v(2) assms(2), of 199999999999999] U128_big
    by (simp add: fee_step_def FIXED_DIV_def)
  have sq: "fx_mul f (AdjustmentVariable f) (AdjustmentVariable f) \<le> 20000000001"
    using fx_mul_le [OF assms(1) v(2) v(2), of 20000000000] U128_big by (simp add: FIXED_DIV_def)
  have "near (2 * FIXED_DIV) (fx_div f (fx_mul f (AdjustmentVariable f) (AdjustmentVariable f)) (2 * FIXED_DIV))
      (fx_mul f (AdjustmentVariable f) (AdjustmentVariable f) * FIXED_DIV)"
    using assms(1) sq U128_big by (simp add: fee_laws_def FIXED_DIV_def)
  then have half: "fx_div f (fx_mul f (AdjustmentVariable f) (AdjustmentVariable f)) (2 * FIXED_DIV) \<le> 20000000001"
    using sq by (simp add: near_def FIXED_DIV_def)
  have "fx_mul f (fx_div f (fx_mul f (AdjustmentVariable f) (AdjustmentVariable f)) (2 * FIXED_DIV)) d \<le> 30000000001"
    using fx_mul_le [OF assms(1) half assms(2), of 30000000000] U128_big by (simp add: FIXED_DIV_def)
  from fx_mul_le [OF assms(1) this assms(2), of 40000000000] show "fee_curve f d \<le> 50000000000"
    using U128_big by (simp add: fee_curve_def multiplier_bounds Let_def FIXED_DIV_def)
qed

lemma fee_step_full:
  assumes "fee_laws f" "d \<le> FIXED_DIV + 1" "749998999999999998 \<le> d"
  shows "93749000000000 \<le> fee_step f d"
proof -
  note v = adjustment_variable [OF assms(1)]
  have "AdjustmentVariable f * d \<le> 125000000000001 * (FIXED_DIV + 1)" using v(2) assms(2) by (rule mult_le_mono)
  also have "\<dots> \<le> FIXED_DIV * U128_MAX" by (simp add: FIXED_DIV_def U128_MAX_def)
  finally show ?thesis
    using fx_mul_ge [OF assms(1) v(1) assms(3), of 93749000000000] by (simp add: fee_step_def FIXED_DIV_def)
qed

lemma full_block_raises:
  assumes "fee_laws f" "full_block b"
    and limits: "1000000 \<le> max_ref_time b" "1000000 \<le> max_proof_size b" "1000000 \<le> max_length b"
    and m: "fx_integer FEE_ANCHOR \<le> m" "m \<le> MaximumMultiplier"
  shows "\<exists>rise. 937 * m \<le> rise * 10000000 \<and> fee_convert f b m = min MaximumMultiplier (m + rise)"
proof -
  obtain u l where ul: "limiting_dimension f b = (u, l)" by (cases "limiting_dimension f b")
  note u = full_block_limiting [OF assms(1,2) ul]
  have l: "1000000 \<le> l" using limiting_bounds(3) [OF ul limits] .
  define t where "t = perquintill_of f TargetBlockFullness l"
  note t = diff_full [OF assms(1) l t_def]
  define d where "d = fx_rational f (l - t) l"
  have d: "d \<le> FIXED_DIV + 1" "749998999999999998 \<le> d"
    using diff_le [OF assms(1), of l "l - t"] l t(2) by (simp_all add: d_def)
  define s where "s = sat_add 128 (fee_step f d) (fee_curve f d)"
  have s: "s \<le> 300000000000000" "93749000000000 \<le> s"
    using fee_terms_le [OF assms(1) d(1)] fee_step_full [OF assms(1) d] by (simp_all add: s_def sat_add_def)
  define rise where "rise = fx_mul f s m"
  have m': "10000 * FIXED_DIV \<le> m" "m \<le> 100000 * FIXED_DIV" using m by (simp_all add: multiplier_bounds)
  have "s * m \<le> 300000000000000 * (100000 * FIXED_DIV)" using s(1) m'(2) by (rule mult_le_mono)
  also have "\<dots> \<le> FIXED_DIV * U128_MAX" by (simp add: FIXED_DIV_def U128_MAX_def)
  finally have near: "near FIXED_DIV rise (s * m)" unfolding rise_def by (rule fx_mul_near [OF assms(1)])
  have "93749000000000 * m \<le> s * m" using s(2) by (rule mult_le_mono1)
  with near have low: "93749000000000 * m \<le> rise * FIXED_DIV + FIXED_DIV" unfolding near_def by linarith
  have "937 * m * FIXED_DIV \<le> rise * 10000000 * FIXED_DIV"
    using low m'(1) by (simp add: FIXED_DIV_def)
  then have "937 * m \<le> rise * 10000000" by (simp add: FIXED_DIV_def)
  moreover have "fee_convert f b m = min MaximumMultiplier (m + rise)"
  proof -
    have "fee_convert f b m = clamp MinimumMultiplier MaximumMultiplier (sat_add 128 m rise)"
    proof -
      have "max m MinimumMultiplier = m" "max l t = l" "min l t = t"
        using m' t(1) by (simp_all add: multiplier_bounds)
      with ul u t(1) show ?thesis
        by (simp add: fee_convert_def t_def [symmetric] d_def [symmetric] s_def [symmetric] rise_def [symmetric] Let_def)
    qed
    then show ?thesis
      using m' U128_big by (simp add: clamp_def sat_add_def U128_MAX_def multiplier_bounds FIXED_DIV_def min_def)
  qed
  ultimately show ?thesis by blast
qed

section \<open>A run of full blocks\<close>

fun multiplier_after :: "fee_ops \<Rightarrow> block_usage list \<Rightarrow> nat \<Rightarrow> nat" where
  "multiplier_after f [] m = m"
| "multiplier_after f (b # bs) m = multiplier_after f bs (fee_convert f b m)"

definition runtime_limits :: "block_usage \<Rightarrow> bool" where
  "runtime_limits b \<longleftrightarrow> 1000000 \<le> max_ref_time b \<and> 1000000 \<le> max_proof_size b \<and> 1000000 \<le> max_length b"

lemma growth:
  assumes "fee_laws f" "\<forall>b \<in> set bs. full_block b \<and> runtime_limits b"
    and "fx_integer FEE_ANCHOR \<le> m" "m \<le> MaximumMultiplier"
  shows "min (real MaximumMultiplier) (real m * (1 + 937 / 10000000) ^ length bs) \<le> real (multiplier_after f bs m)
    \<and> multiplier_after f bs m \<le> MaximumMultiplier"
  using assms(2-)
proof (induction bs arbitrary: m)
  case (Cons b bs)
  obtain rise where r: "937 * m \<le> rise * 10000000" "fee_convert f b m = min MaximumMultiplier (m + rise)"
    using full_block_raises [OF assms(1), of b m] Cons.prems by (auto simp: runtime_limits_def)
  let ?m = "fee_convert f b m"
  have range: "fx_integer FEE_ANCHOR \<le> ?m" "?m \<le> MaximumMultiplier"
    using r(2) Cons.prems(2,3) by (auto simp: min_def)
  have "real (937 * m) \<le> real (rise * 10000000)" using r(1) by (simp only: of_nat_le_iff)
  then have grow: "real m * (1 + 937 / 10000000) \<le> real (m + rise)" by (simp add: algebra_simps)
  let ?p = "(1 + 937 / 10000000 :: real) ^ length bs"
  have p: "1 \<le> ?p" by (rule one_le_power) simp
  have "min (real MaximumMultiplier) (real m * (1 + 937 / 10000000) * ?p) \<le> min (real MaximumMultiplier) (real ?m * ?p)"
  proof (cases "m + rise \<le> MaximumMultiplier")
    case True
    then have "real m * (1 + 937 / 10000000) * ?p \<le> real ?m * ?p"
      using grow p r(2) by (intro mult_right_mono) auto
    then show ?thesis by linarith
  next
    case False
    then have "real ?m = real MaximumMultiplier" using r(2) by simp
    moreover have "real MaximumMultiplier * 1 \<le> real MaximumMultiplier * ?p" using p by (intro mult_left_mono) auto
    ultimately have "min (real MaximumMultiplier) (real ?m * ?p) = real MaximumMultiplier"
      by (simp only: mult_1_right min_absorb1)
    then show ?thesis by simp
  qed
  with Cons.IH [of ?m] Cons.prems(1) range show ?case
    by (auto simp: mult.assoc)
qed simp

lemma three_days_factor: "10 \<le> (1 + 937 / 10000000 :: real) ^ (3 * DAYS)"
proof -
  have "1 + real 162 * (937 / 10000000) \<le> (1 + 937 / 10000000 :: real) ^ 162"
    by (rule Bernoulli_inequality) simp
  then have a: "(10151 / 10000 :: real) \<le> (1 + 937 / 10000000) ^ 162" by simp
  have "(127 / 100 :: real) \<le> (10151 / 10000) ^ 16" by (simp add: power_divide)
  also have "\<dots> \<le> ((1 + 937 / 10000000) ^ 162) ^ 16" using a by (intro power_mono) simp_all
  finally have b: "(127 / 100 :: real) \<le> ((1 + 937 / 10000000) ^ 162) ^ 16" .
  have "(10 :: real) \<le> (127 / 100) ^ 10" by (simp add: power_divide)
  also have "\<dots> \<le> (((1 + 937 / 10000000) ^ 162) ^ 16) ^ 10" using b by (intro power_mono) simp_all
  also have "\<dots> = (1 + 937 / 10000000 :: real) ^ (3 * DAYS)"
    unfolding power_mult [symmetric] by (simp add: time_defs)
  finally show ?thesis .
qed

section \<open>Prices and the anchor\<close>

text \<open>At the anchor a byte costs exactly the published fee.\<close>

lemma length_fee_at_anchor:
  assumes "fee_laws f" "len \<le> U32_MAX"
  shows "length_to_fee f (fx_integer FEE_ANCHOR) len = LENGTH_FEE * len"
proof -
  have flat: "sat_mul 128 (LENGTH_FEE div FEE_ANCHOR) len = 1600000000 * len"
    using assms(2) by (simp add: sat_mul_def LENGTH_FEE_def FEE_ANCHOR_def U32_MAX_def)
  have "10000 * FIXED_DIV * (1600000000 * len) \<le> FIXED_DIV * U128_MAX"
    using assms(2) by (simp add: U32_MAX_def U128_MAX_def)
  then have "fx_mul_int f (10000 * FIXED_DIV) (1600000000 * len) = 10000 * FIXED_DIV * (1600000000 * len) div FIXED_DIV"
    using assms(1) by (simp add: fee_laws_def)
  then show ?thesis
    unfolding length_to_fee_def Let_def flat multiplier_bounds by (simp add: LENGTH_FEE_def FIXED_DIV_def)
qed

text \<open>
  The migration scales a multiplier that was stored against an anchor of one, whose floor was a
  tenth, onto the new scale once: a second run changes nothing.
\<close>

lemma anchored_once:
  assumes "fee_laws f" "FIXED_DIV div 10 < stored"
  shows "MinimumMultiplier \<le> anchored f stored \<and> anchored f (anchored f stored) = anchored f stored
    \<and> anchor_on_runtime_upgrade f (anchored f stored) = (anchored f stored, 1, 0)"
proof -
  have "MinimumMultiplier \<le> anchored f stored"
  proof (cases "stored < MinimumMultiplier")
    case True
    then have "stored * (10000 * FIXED_DIV) \<le> FIXED_DIV * U128_MAX"
      by (simp add: multiplier_bounds FIXED_DIV_def U128_MAX_def)
    from fx_mul_near [OF assms(1) this]
    have "stored * 10000 * FIXED_DIV \<le> (fx_mul f stored (10000 * FIXED_DIV) + 1) * FIXED_DIV"
      by (simp add: near_def mult.assoc)
    then have "stored * 10000 \<le> fx_mul f stored (10000 * FIXED_DIV) + 1" by (simp add: FIXED_DIV_def)
    with True assms(2) show ?thesis by (simp add: anchored_def multiplier_bounds FIXED_DIV_def)
  qed (simp add: anchored_def)
  then show ?thesis by (simp add: anchored_def anchor_on_runtime_upgrade_def Let_def)
qed

section \<open>The split\<close>

definition resolve_law :: "('bal \<Rightarrow> 'a \<Rightarrow> nat) \<Rightarrow> ('a \<Rightarrow> nat \<Rightarrow> 'bal \<Rightarrow> 'bal) \<Rightarrow> bool" where
  "resolve_law balance resolve \<longleftrightarrow>
     (\<forall>who amount bal. balance (resolve who amount bal) = (balance bal)(who := balance bal who + amount))"

lemma split_fee:
  assumes "fee_laws f" "resolve_law balance resolve"
  shows "\<exists>keep. near 100 keep (20 * amount) \<and> keep \<le> amount
    \<and> balance (on_unbalanced f resolve author treasury amount bal) =
       (case author of
          Some a \<Rightarrow> (\<lambda>x. balance bal x + (if x = a then keep else 0) + (if x = treasury then amount - keep else 0))
        | None \<Rightarrow> (\<lambda>x. balance bal x + (if x = treasury then amount else 0)))"
proof -
  have "percent_of f 20 amount \<le> amount \<and> near 100 (percent_of f 20 amount) (20 * amount)"
    using assms(1) by (simp add: fee_laws_def)
  then show ?thesis
    using assms(2)
    by (intro exI [of _ "percent_of f 20 amount"])
      (auto simp: on_unbalanced_def on_nonzero_unbalanced_def MINER_FEE_SHARE_def resolve_law_def fun_eq_iff
        Let_def min_absorb1 split: option.splits)
qed

section \<open>Properties\<close>

text \<open>
  C17: Sustained demand reaches the price ceiling: from the anchor, or anything above it, three days
  of blocks that are each full in ref time, proof size or length take the fee multiplier to its
  maximum, a tenfold of the anchor, and it stays there while the blocks stay full.\<close>

theorem full_blocks_reach_maximum:
  assumes "fee_laws f" "\<forall>b \<in> set bs. full_block b \<and> runtime_limits b"
    and "fx_integer FEE_ANCHOR \<le> m" "m \<le> MaximumMultiplier" "3 * DAYS \<le> length bs"
  shows "multiplier_after f bs m = MaximumMultiplier"
proof -
  have "real MaximumMultiplier = real (fx_integer FEE_ANCHOR) * 10"
    by (simp add: multiplier_bounds FIXED_DIV_def)
  also have "\<dots> \<le> real m * (1 + 937 / 10000000) ^ (3 * DAYS)"
    using assms(3) three_days_factor by (intro mult_mono) auto
  also have "\<dots> \<le> real m * (1 + 937 / 10000000) ^ length bs"
    using assms(5) by (intro mult_left_mono power_increasing) auto
  finally have "real MaximumMultiplier \<le> real (multiplier_after f bs m)"
    using growth [OF assms(1-4)] by linarith
  then show ?thesis using growth [OF assms(1-4)] by simp
qed

text \<open>
  One update of the fee multiplier: the result is always between the two bounds, for a
  multiplier inside them it does not fall after a block whose fullest dimension reached the target
  and does not rise after one that stayed below, and that dimension is the one with the largest share.\<close>

theorem multiplier_follows_fullness:
  assumes "MinimumMultiplier \<le> m" "m \<le> MaximumMultiplier" "limiting_dimension f b = (used, limit)"
  shows "MinimumMultiplier \<le> fee_convert f b m \<and> fee_convert f b m \<le> MaximumMultiplier
    \<and> (if perquintill_of f TargetBlockFullness limit \<le> used then m \<le> fee_convert f b m else fee_convert f b m \<le> m)
    \<and> perbill_rational f (min (used_ref_time b) (max_ref_time b)) (max (max_ref_time b) 1) \<le> perbill_rational f used limit
    \<and> perbill_rational f (min (used_proof_size b) (max_proof_size b)) (max (max_proof_size b) 1) \<le> perbill_rational f used limit
    \<and> perbill_rational f (min (used_length b) (max (max_length b) 1)) (max (max_length b) 1) \<le> perbill_rational f used limit"
proof -
  have big: "MaximumMultiplier \<le> 2 ^ 128 - 1"
    by (simp add: multiplier_bounds FIXED_DIV_def)
  have "if perquintill_of f TargetBlockFullness limit \<le> used then m \<le> fee_convert f b m else fee_convert f b m \<le> m"
    using assms big by (auto simp: fee_convert_def Let_def clamp_def sat_add_def max_def min_def)
  then show ?thesis
    using fee_convert_range [of f b m] limiting_dimension_largest [OF assms(3)] by blast
qed

text \<open>
  C31: Fees and tips are paid out in full: with an author the miner gets a fifth of the fee, to the
  nearest unit, and the whole tip while the treasury gets the rest of the fee; without one the
  treasury gets both; nobody else's balance moves.\<close>

theorem fees_split_in_full:
  assumes "fee_laws f" "resolve_law balance resolve" "author \<noteq> Some treasury"
  shows "\<exists>keep. near 100 keep (20 * fee) \<and> keep \<le> fee
    \<and> balance (on_unbalanceds f resolve author treasury [fee, tip] bal) =
       (\<lambda>x. balance bal x
         + (if author = Some x then keep + tip else 0)
         + (if x = treasury then if author = None then fee + tip else fee - keep else 0))"
proof -
  obtain keep where k: "near 100 keep (20 * fee)" "keep \<le> fee"
    "balance (on_unbalanced f resolve author treasury fee bal) =
       (case author of
          Some a \<Rightarrow> (\<lambda>x. balance bal x + (if x = a then keep else 0) + (if x = treasury then fee - keep else 0))
        | None \<Rightarrow> (\<lambda>x. balance bal x + (if x = treasury then fee else 0)))"
    using split_fee [OF assms(1,2), of fee author treasury bal] by blast
  show ?thesis
    using k assms(2,3)
    by (intro exI [of _ keep])
      (auto simp: on_unbalanceds_def resolve_law_def Let_def fun_eq_iff split: option.splits)
qed

section \<open>Witnesses\<close>

text \<open>Arithmetic that rounds down everywhere.\<close>

definition floor_ops :: fee_ops where
  "floor_ops =
     \<lparr> fx_mul = (\<lambda>a b. a * b div FIXED_DIV), fx_div = (\<lambda>a b. a * FIXED_DIV div b),
       fx_rational = (\<lambda>n d. n * FIXED_DIV div d), fx_mul_int = (\<lambda>a n. a * n div FIXED_DIV),
       perbill_rational = (\<lambda>n d. n * 1000000000 div d), percent_of = (\<lambda>p n. p * n div 100),
       perquintill_of = (\<lambda>p n. p * n div PERQUINTILL) \<rparr>"

lemma near_div: "0 < d \<Longrightarrow> near d (y div d) y"
  using div_mult_mod_eq [of y d] mod_less_divisor [of d y] unfolding near_def by linarith

lemma part_le:
  assumes "p \<le> d" "0 < (d::nat)"
  shows "p * n div d \<le> n"
proof -
  have "p * n div d \<le> d * n div d" using assms by (intro div_le_mono mult_le_mono1)
  then show ?thesis using assms by simp
qed

lemma floor_laws: "fee_laws floor_ops"
proof -
  have pos: "0 < FIXED_DIV" "0 < PERQUINTILL" by (simp_all add: fee_consts)
  show ?thesis
    by (simp add: fee_laws_def floor_ops_def near_div part_le pos)
qed

definition busy_block :: block_usage where
  "busy_block = \<lparr> used_ref_time = 1500000000000, used_proof_size = 0, used_length = 0,
     max_ref_time = 1500000000000, max_proof_size = 13835058055282163711, max_length = 3932160 \<rparr>"

theorem full_blocks_reach_maximum_witness:
  "multiplier_after floor_ops (replicate (3 * DAYS) busy_block) (fx_integer FEE_ANCHOR) = MaximumMultiplier"
  by (rule full_blocks_reach_maximum [OF floor_laws])
    (simp_all add: full_block_def runtime_limits_def busy_block_def multiplier_bounds)

theorem multiplier_follows_fullness_witness:
  "MinimumMultiplier \<le> fee_convert floor_ops busy_block MinimumMultiplier"
proof -
  obtain u l where "limiting_dimension floor_ops busy_block = (u, l)" by force
  from multiplier_follows_fullness [OF _ _ this, of MinimumMultiplier] show ?thesis
    by (simp add: multiplier_bounds)
qed

theorem fees_split_in_full_witness:
  "\<exists>keep. near 100 keep (20 * 50) \<and> keep \<le> 50
    \<and> on_unbalanceds floor_ops (\<lambda>who amount bal. bal(who := bal who + amount)) (Some 1) 0 [50, 7] (\<lambda>_. 3) (1 :: nat) = keep + 10"
  using fees_split_in_full [OF floor_laws, of "\<lambda>b. b" "\<lambda>who amount bal. bal(who := bal who + amount)" "Some (1 :: nat)" 0 50 7 "\<lambda>_. 3"]
  by (auto simp: resolve_law_def fun_eq_iff)

end
