(* ===== verification/Migration.thy ===== *)
theory Migration
  imports Erc20 ProxyCode EvmClaims
begin

text \<open>
  The migration that hands Frontier's state to pallet-revive
  (\<open>runtime/src/migrations/frontier.rs\<close>). The storage it reads and writes itself is the record
  \<open>mig_state\<close>: Frontier's maps, the contracts, code records and block hashes of pallet-revive, and
  in \<open>mworld\<close> the accounts and balances the claims pallet works on. A storage map that the code
  iterates is an association list in the order of the trie. The operations of pallet-revive,
  \<open>frame_system\<close> and the storage backend are the record \<open>mig_ops\<close>. The tally of storage accesses
  lives outside the storage, so it survives a rolled-back layer: a step gives its result beside the
  tally.
\<close>

section \<open>State\<close>

definition ETHEREUM_SCHEMA :: bytes where
  "ETHEREUM_SCHEMA = map of_char '':ethereum_schema''"

definition KNOWN_ADDRESSES :: "h160 list" where
  "KNOWN_ADDRESSES = map (be_bytes 20)
    [0x0000000000000000000000000000000000000001,
     0x0000000000000000000000000000000000000802,
     0x009cbad5058e4dec314ab374379e96d8ac3faafc,
     0x0db8300836bd652c361c4158a8e69167cf33571f,
     0x11d88cf4a500cd9e5184ca39a7ea5031d935a359,
     0x1484c2834d1aa025d207f56fd299613684b49ec6,
     0x1c0d1202d6b7983fdc6efad78298eff2b22a4e31,
     0x24378e467264744246c12e1a8b003af97c1393cb,
     0x2e4c21d1da532da62015c697f86b2f3ca297464a,
     0x478c47d215bbfc43f25fab48b4100bb1bbe1a6dc,
     0x5fdfd4d4f6e81424e3ab50d0848d4f0a2a83d86e,
     0x6b1f4f97dca2909cac79564f7a9625c6427676db,
     0x85979a3a0ae53eb4a439aa5013d215e4f6dfada8,
     0x883fe0af53146b30d0166d7077025a4963deaefb,
     0x946ad5a59b3bd16c3d443535a5b7fc07b56f5423,
     0xa8f6efc25896c24ac6c9441f9f693c14517aa818,
     0xb9cb2b8501933243a4ba5ad0f5fb3a256c8669fb,
     0xbce52032cf2d4d11abffae6a1ba94c5d3e8cf9dc,
     0xc6a7d1f198b9133468933247502c6d9025d32abd,
     0xdee7fca01ef17dbf22d9a5dc02c877354decaa46,
     0xf5ff20b442ea73f762361246fa782d0c8c9eb21b]"

record Tally =
  reads :: nat
  writes :: nat

definition tally_read :: "nat \<Rightarrow> Tally \<Rightarrow> Tally" where
  "tally_read count t = t \<lparr> reads := sat_add 64 (reads t) count \<rparr>"

definition tally_write :: "nat \<Rightarrow> Tally \<Rightarrow> Tally" where
  "tally_write count t = t \<lparr> writes := sat_add 64 (writes t) count \<rparr>"

datatype BytecodeType = Pvm | Evm

record CodeInfo =
  ci_owner :: account
  ci_deposit :: nat
  ci_refcount :: nat
  ci_code_len :: nat
  ci_code_type :: BytecodeType
  ci_behaviour_version :: nat

record ContractInfo =
  con_code_hash :: bytes
  con_storage :: "bytes \<rightharpoonup> bytes"
  con_storage_items :: nat
  con_storage_bytes :: nat

record 'b mig_state =
  mworld :: "'b world"
  raw_keys :: "bytes \<rightharpoonup> bytes"
  AccountCodes :: "(h160 \<times> bytes) list"
  AccountCodesMetadata :: "h160 \<rightharpoonup> nat \<times> bytes"
  AccountStorages :: "h160 \<Rightarrow> (bytes \<times> bytes) list"
  ethereum_BlockHash :: "nat \<rightharpoonup> bytes"
  revive_BlockHash :: "nat \<rightharpoonup> bytes"
  CodeInfoOf :: "bytes \<rightharpoonup> CodeInfo"
  contracts :: "h160 \<rightharpoonup> ContractInfo"

datatype 'e mig_error = Claims_failed "'e claims_error" | Lib_failed 'e | No_code_info

record ('b, 'e) mig_ops =
  claims :: "('b, 'e) claims_ops"
  system_block_number :: "'b world \<Rightarrow> nat"
  account_keys :: "'b world \<Rightarrow> account list"
  pallet_account :: account
  inc_consumers :: "account \<Rightarrow> 'b world \<Rightarrow> 'e + 'b world"
  inc_account_nonce :: "account \<Rightarrow> 'b world \<Rightarrow> 'b world"
  init_contract :: "account \<Rightarrow> 'b world \<Rightarrow> 'e + 'b world"
  evm_code_hash :: "bytes \<Rightarrow> account \<Rightarrow> nat \<Rightarrow> 'e + bytes"
  new_meter :: "'e + unit"
  store_code :: "bytes \<Rightarrow> account \<Rightarrow> (bytes \<rightharpoonup> CodeInfo) \<Rightarrow> 'e + (bytes \<rightharpoonup> CodeInfo)"
  contract_new :: "h160 \<Rightarrow> nat \<Rightarrow> bytes \<Rightarrow> 'e + ContractInfo"
  contract_write :: "bytes \<Rightarrow> bytes \<Rightarrow> ContractInfo \<Rightarrow> 'e + ContractInfo"
  is_eth_derived :: "account \<Rightarrow> bool"
  is_mapped :: "account \<Rightarrow> 'b world \<Rightarrow> bool"
  map_no_deposit :: "account \<Rightarrow> 'b world \<Rightarrow> 'e + 'b world"
  removed_keys :: "string \<Rightarrow> nat"
  proxy_selectors :: "bytes list"
  proxy_deposit :: bytes

type_synonym ('b, 'e) mig_step = "'b mig_state \<Rightarrow> Tally \<Rightarrow> ('e mig_error + 'b mig_state) \<times> Tally"

definition seq_m :: "('b, 'e) mig_step \<Rightarrow> ('b, 'e) mig_step \<Rightarrow> ('b, 'e) mig_step" where
  "seq_m m n s t = (case m s t of (Inl e, t) \<Rightarrow> (Inl e, t) | (Inr s, t) \<Rightarrow> n s t)"

definition act_m :: "('b mig_state \<Rightarrow> 'e mig_error + 'b mig_state) \<Rightarrow> ('b, 'e) mig_step" where
  "act_m f s t = (f s, t)"

definition count_m :: "nat \<Rightarrow> nat \<Rightarrow> ('b, 'e) mig_step" where
  "count_m r w s t = (Inr s, tally_write w (tally_read r t))"

definition on_world :: "('b world \<Rightarrow> 'e mig_error + 'b world) \<Rightarrow> 'b mig_state \<Rightarrow> 'e mig_error + 'b mig_state" where
  "on_world f s = (case f (mworld s) of Inl e \<Rightarrow> Inl e | Inr w \<Rightarrow> Inr (s \<lparr> mworld := w \<rparr>))"

text \<open>A failed layer leaves the storage as it was; its error goes to the log.\<close>

definition with_storage_layer ::
  "('b, 'e) mig_step \<Rightarrow> 'b mig_state \<times> Tally \<Rightarrow> 'b mig_state \<times> Tally" where
  "with_storage_layer m = (\<lambda>(s, t). case m s t of (Inl _, t) \<Rightarrow> (s, t) | (Inr s', t) \<Rightarrow> (s', t))"

section \<open>Block hashes, signers and the pallet account\<close>

definition recent_blocks :: "('b, 'e) mig_ops \<Rightarrow> 'b world \<Rightarrow> nat list" where
  "recent_blocks ops w = (let now = system_block_number ops w in [now - 256 ..< Suc now])"

definition copy_block_hash :: "nat \<Rightarrow> 'b mig_state \<times> Tally \<Rightarrow> 'b mig_state \<times> Tally" where
  "copy_block_hash number = (\<lambda>(s, t).
     (let t = tally_read 1 t in
      case ethereum_BlockHash s number of
        None \<Rightarrow> (s, t)
      | Some hash \<Rightarrow> (s \<lparr> revive_BlockHash := (revive_BlockHash s)(number \<mapsto> hash) \<rparr>, tally_write 1 t)))"

definition copy_block_hashes :: "('b, 'e) mig_ops \<Rightarrow> 'b mig_state \<times> Tally \<Rightarrow> 'b mig_state \<times> Tally" where
  "copy_block_hashes ops st = fold copy_block_hash (recent_blocks ops (mworld (fst st))) st"

definition pin_signers :: "('b, 'e) mig_ops \<Rightarrow> 'b mig_state \<times> Tally \<Rightarrow> 'b mig_state \<times> Tally" where
  "pin_signers ops = (\<lambda>(s, t).
     (let keys = account_keys ops (mworld s);
          signers = filter (\<lambda>who. account_nonce (mworld s) who \<noteq> 0) keys;
          t = tally_read (length keys) t;
          s = s \<lparr> mworld := fold (inc_providers (claims ops)) signers (mworld s) \<rparr>
      in (s, tally_write (length signers) t)))"

definition open_pallet_account :: "('b, 'e) mig_ops \<Rightarrow> 'b mig_state \<times> Tally \<Rightarrow> 'b mig_state \<times> Tally" where
  "open_pallet_account ops = (\<lambda>(s, t).
     (let t = tally_read 1 t; deposit = minimum_balance (claims ops) in
      if Account (mworld s) (pallet_account ops) \<noteq> None then (s, t)
      else
        ((case mint_into (claims ops) (pallet_account ops) deposit (mworld s) of
            Inl _ \<Rightarrow> s
          | Inr w \<Rightarrow> s \<lparr> mworld := deactivate (claims ops) deposit w \<rparr>),
         tally_write 3 t)))"

section \<open>Installing a contract\<close>

definition bump_refcount :: "bytes \<Rightarrow> 'b mig_state \<Rightarrow> 'e mig_error + 'b mig_state" where
  "bump_refcount code_hash s =
     (case CodeInfoOf s code_hash of
        Some ci \<Rightarrow> Inr (s \<lparr> CodeInfoOf := (CodeInfoOf s)(code_hash \<mapsto>
          ci \<lparr> ci_refcount := sat_add 64 (ci_refcount ci) 1 \<rparr>) \<rparr>)
      | None \<Rightarrow> Inl No_code_info)"

fun write_slots :: "('b, 'e) mig_ops \<Rightarrow> (bytes \<times> bytes) list \<Rightarrow> ContractInfo \<Rightarrow> 'e + ContractInfo" where
  "write_slots ops [] con = Inr con"
| "write_slots ops ((key, val) # slots) con =
     (case contract_write ops key val con of Inl e \<Rightarrow> Inl e | Inr con \<Rightarrow> write_slots ops slots con)"

definition put_contract ::
  "('b, 'e) mig_ops \<Rightarrow> h160 \<Rightarrow> bytes \<Rightarrow> (bytes \<times> bytes) list \<Rightarrow> 'b mig_state \<Rightarrow> 'e mig_error + 'b mig_state" where
  "put_contract ops address code_hash slots s =
     map_sum Lib_failed id
      (bind_res (contract_new ops address 0 code_hash) (\<lambda>con.
       bind_res (write_slots ops slots con) (\<lambda>con.
       Inr (s \<lparr> contracts := (contracts s)(address \<mapsto>
         con \<lparr> con_storage_items := length slots mod 2 ^ 32,
               con_storage_bytes := (64 * (length slots mod 2 ^ 32)) mod 2 ^ 32 \<rparr>) \<rparr>))))"

definition open_contract_account :: "('b, 'e) mig_ops \<Rightarrow> account \<Rightarrow> 'b world \<Rightarrow> 'e mig_error + 'b world" where
  "open_contract_account ops account w =
     map_sum Lib_failed id
      (bind_res (if Account w account = None then init_contract ops account w else Inr w) (\<lambda>w.
       bind_res (inc_consumers ops account w) (\<lambda>w.
       Inr (if account_nonce w account = 0 then inc_account_nonce ops account w else w))))"

definition install ::
  "('b, 'e) mig_ops \<Rightarrow> h160 \<Rightarrow> bytes \<Rightarrow> (bytes \<times> bytes) list \<Rightarrow> ('b, 'e) mig_step" where
  "install ops address bytecode slots s t =
     (case evm_code_hash ops bytecode (pallet_account ops) 0 of
        Inl e \<Rightarrow> (Inl (Lib_failed e), t)
      | Inr code_hash \<Rightarrow>
          seq_m (act_m (\<lambda>s. map_sum Lib_failed (\<lambda>_. s) (new_meter ops)))
         (seq_m (act_m (\<lambda>s. map_sum Lib_failed (\<lambda>m. s \<lparr> CodeInfoOf := m \<rparr>) (store_code ops bytecode (pallet_account ops) (CodeInfoOf s))))
         (seq_m (act_m (bump_refcount code_hash))
         (seq_m (act_m (put_contract ops address code_hash slots))
         (seq_m (act_m (on_world (open_contract_account ops (revive_account address))))
                (count_m 8 (10 + length slots)))))) s t)"

section \<open>Moving contracts and accounts\<close>

definition is_delegation :: "bytes \<Rightarrow> bool" where
  "is_delegation bytecode \<longleftrightarrow> length bytecode = 23 \<and> take 3 bytecode = [0xef, 0x01, 0x00]"

definition live_slots :: "h160 \<Rightarrow> 'b mig_state \<Rightarrow> (bytes \<times> bytes) list" where
  "live_slots address s = filter (\<lambda>(_, val). \<not> list_all (\<lambda>b. b = 0) val) (AccountStorages s address)"

definition claims_move :: "('b, 'e) mig_ops \<Rightarrow> h160 \<Rightarrow> 'b world \<Rightarrow> 'e mig_error + 'b world" where
  "claims_move ops address w = map_sum Claims_failed snd (move_legacy (claims ops) address w)"

definition drop_contract :: "h160 \<Rightarrow> 'b mig_state \<Rightarrow> 'b mig_state" where
  "drop_contract address s =
     s \<lparr> AccountCodes := filter (\<lambda>(a, _). a \<noteq> address) (AccountCodes s),
         AccountCodesMetadata := (AccountCodesMetadata s)(address := None),
         AccountStorages := (AccountStorages s)(address := []) \<rparr>"

definition move_contract :: "('b, 'e) mig_ops \<Rightarrow> h160 \<Rightarrow> bytes \<Rightarrow> ('b, 'e) mig_step" where
  "move_contract ops address bytecode s t =
     seq_m (if is_delegation bytecode then (\<lambda>s t. (Inr s, t))
            else (\<lambda>s t. let slots = live_slots address s in
                        seq_m (count_m (length slots) 0) (install ops address bytecode slots) s t))
    (seq_m (act_m (on_world (claims_move ops address)))
    (seq_m (count_m 10 10)
           (\<lambda>s t. (Inr (drop_contract address s), tally_write (2 + length (AccountStorages s address)) t)))) s t"

definition deploy_token_proxy :: "('b, 'e) mig_ops \<Rightarrow> ('b, 'e) mig_step" where
  "deploy_token_proxy ops =
     seq_m (count_m 1 0) (\<lambda>s t.
       if contracts s ADDRESS \<noteq> None then (Inr s, t)
       else install ops ADDRESS (proxy_code (proxy_selectors ops) (proxy_deposit ops)) [] s t)"

definition move_account :: "('b, 'e) mig_ops \<Rightarrow> h160 \<Rightarrow> ('b, 'e) mig_step" where
  "move_account ops address =
     seq_m (count_m 4 0) (\<lambda>s t.
       if \<not> claimable (claims ops) address (mworld s) then (Inr s, t)
       else seq_m (count_m 10 10) (act_m (on_world (claims_move ops address))) s t)"

section \<open>Mapping accounts and clearing Frontier\<close>

definition map_account :: "('b, 'e) mig_ops \<Rightarrow> account \<Rightarrow> 'b world \<Rightarrow> 'b world" where
  "map_account ops who w = (case map_no_deposit ops who w of Inl _ \<Rightarrow> w | Inr w' \<Rightarrow> w')"

definition map_accounts :: "('b, 'e) mig_ops \<Rightarrow> 'b mig_state \<times> Tally \<Rightarrow> 'b mig_state \<times> Tally" where
  "map_accounts ops = (\<lambda>(s, t).
     (let accounts = filter (\<lambda>who. \<not> is_eth_derived ops who \<and> \<not> is_mapped ops who (mworld s)) (account_keys ops (mworld s));
          t = tally_read (length accounts) t;
          s = s \<lparr> mworld := fold (map_account ops) accounts (mworld s) \<rparr>
      in (s, tally_write (length accounts) t)))"

definition clear_frontier :: "('b, 'e) mig_ops \<Rightarrow> 'b mig_state \<times> Tally \<Rightarrow> 'b mig_state \<times> Tally" where
  "clear_frontier ops = (\<lambda>(s, t).
     (let s = s \<lparr> ethereum_BlockHash := Map.empty \<rparr>;
          t = tally_write (removed_keys ops ''Ethereum'') t;
          t = tally_write (removed_keys ops ''BaseFee'') t;
          t = tally_read 1 t;
          (s, t) =
            (if AccountCodes s = []
             then (s \<lparr> AccountCodesMetadata := Map.empty, AccountStorages := (\<lambda>_. []) \<rparr>,
                   tally_write (removed_keys ops ''EVM'') t)
             else (s, t));
          s = s \<lparr> raw_keys := (raw_keys s)(ETHEREUM_SCHEMA := None) \<rparr>
      in (s, tally_write 1 t)))"

section \<open>The upgrade\<close>

definition migrate ::
  "('b, 'e) mig_ops \<Rightarrow> 'b mig_state \<times> Tally \<Rightarrow> 'b mig_state \<times> Tally" where
  "migrate ops st =
     (let st = copy_block_hashes ops st;
          st = pin_signers ops st;
          st = open_pallet_account ops st;
          codes = AccountCodes (fst st);
          st = (fst st, tally_read (length codes) (snd st));
          st = fold (\<lambda>(address, bytecode). with_storage_layer (move_contract ops address bytecode)) codes st;
          st = with_storage_layer (deploy_token_proxy ops) st;
          st = fold (\<lambda>address. with_storage_layer (move_account ops address)) KNOWN_ADDRESSES st;
          st = map_accounts ops st
      in clear_frontier ops st)"

text \<open>The state after the upgrade, with the reads and writes the weight is made of.\<close>

definition on_runtime_upgrade :: "('b, 'e) mig_ops \<Rightarrow> 'b mig_state \<Rightarrow> 'b mig_state \<times> nat \<times> nat" where
  "on_runtime_upgrade ops s =
     (if raw_keys s ETHEREUM_SCHEMA = None then (s, 1, 0)
      else (let (s, t) = migrate ops (s, \<lparr> reads = 0, writes = 0 \<rparr>) in (s, reads t, writes t)))"

end
