(* ===== verification/MigrationProps.thy ===== *)
theory MigrationProps
  imports Migration
begin

text \<open>
  The migration is all or nothing for every contract, keeps the recent block hashes answerable and
  runs once. \<open>mig_laws\<close> is what the code relies on of pallet-revive: a fresh contract record has the
  given code hash and no storage, a slot write sets that slot, and storing a code leaves a record that
  is there alone and otherwise makes one without references, under the hash of the code.
\<close>

definition mig_laws :: "('b, 'e) mig_ops \<Rightarrow> bool" where
  "mig_laws ops \<longleftrightarrow>
     (\<forall>a n h con. contract_new ops a n h = Inr con \<longrightarrow> con_code_hash con = h \<and> con_storage con = Map.empty) \<and>
     (\<forall>k v con con'. contract_write ops k v con = Inr con' \<longrightarrow>
        con_code_hash con' = con_code_hash con \<and> con_storage con' = (con_storage con)(k \<mapsto> v)) \<and>
     (\<forall>c who m m' h. store_code ops c who m = Inr m' \<longrightarrow> evm_code_hash ops c who 0 = Inr h \<longrightarrow>
        (m h \<noteq> None \<and> m' = m) \<or> (\<exists>ci. m h = None \<and> m' = m(h \<mapsto> ci) \<and> ci_refcount ci = 0))"

definition code_refs :: "'b mig_state \<Rightarrow> bytes \<Rightarrow> nat" where
  "code_refs s h = (case CodeInfoOf s h of Some ci \<Rightarrow> ci_refcount ci | None \<Rightarrow> 0)"

definition storage_wf :: "'b mig_state \<Rightarrow> bool" where
  "storage_wf s \<longleftrightarrow> distinct (map fst (AccountCodes s)) \<and> (\<forall>a. distinct (map fst (AccountStorages s a)))"

section \<open>Steps\<close>

lemma seq_m_Inr_iff [simp]:
  "seq_m m n s t = (Inr s'', t'') \<longleftrightarrow> (\<exists>s' t'. m s t = (Inr s', t') \<and> n s' t' = (Inr s'', t''))"
  by (auto simp: seq_m_def split: prod.splits sum.splits)

lemma act_m_Inr_iff [simp]: "act_m f s t = (Inr s', t') \<longleftrightarrow> f s = Inr s' \<and> t' = t"
  by (auto simp: act_m_def)

lemma count_m_Inr_iff [simp]: "count_m r w s t = (Inr s', t') \<longleftrightarrow> s' = s \<and> t' = tally_write w (tally_read r t)"
  by (auto simp: count_m_def)

lemma on_world_Inr_iff [simp]: "on_world f s = Inr s' \<longleftrightarrow> (\<exists>w. f (mworld s) = Inr w \<and> s' = s \<lparr> mworld := w \<rparr>)"
  by (auto simp: on_world_def split: sum.splits)

lemma map_sum_eq_Inr [simp]: "map_sum f g m = Inr y \<longleftrightarrow> (\<exists>x. m = Inr x \<and> y = g x)"
  by (cases m) auto

text \<open>What Frontier still holds of an address, and what moving contracts leaves alone.\<close>

definition fview :: "h160 \<Rightarrow> 'b mig_state \<Rightarrow> bytes option \<times> (nat \<times> bytes) option \<times> (bytes \<times> bytes) list" where
  "fview a s = (map_of (AccountCodes s) a, AccountCodesMetadata s a, AccountStorages s a)"

definition rest_same :: "'b mig_state \<Rightarrow> 'b mig_state \<Rightarrow> bool" where
  "rest_same s s' \<longleftrightarrow> ethereum_BlockHash s' = ethereum_BlockHash s \<and> revive_BlockHash s' = revive_BlockHash s
     \<and> raw_keys s' = raw_keys s"

section \<open>Installing\<close>

lemma bump_refcount_refs:
  assumes "bump_refcount h s = Inr s'"
  shows "\<exists>m. s' = s \<lparr> CodeInfoOf := m \<rparr>"
    and "code_refs s' h' = (if h' = h then sat_add 64 (code_refs s h) 1 else code_refs s h')"
  using assms by (auto simp: bump_refcount_def code_refs_def split: option.splits)

lemma store_code_refs:
  assumes "mig_laws ops" "store_code ops c who (CodeInfoOf s) = Inr m" "evm_code_hash ops c who 0 = Inr h"
  shows "code_refs (s \<lparr> CodeInfoOf := m \<rparr>) h' = code_refs s h'"
proof -
  consider "m = CodeInfoOf s" | ci where "CodeInfoOf s h = None" "m = (CodeInfoOf s)(h \<mapsto> ci)" "ci_refcount ci = 0"
    using assms unfolding mig_laws_def by blast
  then show ?thesis by cases (auto simp: code_refs_def)
qed

lemma write_slots_storage:
  assumes "mig_laws ops" "write_slots ops slots con = Inr con'" "distinct (map fst slots)"
  shows "con_code_hash con' = con_code_hash con \<and> con_storage con' = con_storage con ++ map_of slots"
  using assms(2,3)
proof (induction slots arbitrary: con)
  case (Cons p slots)
  obtain k v where p: "p = (k, v)" by (cases p)
  obtain con1 where 1: "contract_write ops k v con = Inr con1" "write_slots ops slots con1 = Inr con'"
    using Cons.prems(1) p by (auto split: sum.splits)
  have law: "con_code_hash con1 = con_code_hash con" "con_storage con1 = (con_storage con)(k \<mapsto> v)"
    using assms(1) 1(1) by (auto simp: mig_laws_def)
  have "map_of slots k = None" using Cons.prems(2) p by (simp add: map_of_eq_None_iff)
  then have "con_storage con1 ++ map_of slots = con_storage con ++ map_of (p # slots)"
    unfolding p law(2) by (auto simp: map_add_def fun_eq_iff split: option.splits)
  moreover have "distinct (map fst slots)" using Cons.prems(2) by simp
  ultimately show ?case using Cons.IH [OF 1(2)] law(1) by argo
qed simp

lemma install_effect:
  fixes ops :: "('b, 'e) mig_ops"
  assumes "mig_laws ops" "install ops a c slots s t = (Inr s', t')" "distinct (map fst slots)"
  shows "\<exists>h con. evm_code_hash ops c (pallet_account ops) 0 = Inr h
    \<and> contracts s' = (contracts s)(a \<mapsto> con) \<and> con_code_hash con = h \<and> con_storage con = map_of slots
    \<and> con_storage_items con = length slots mod 2 ^ 32
    \<and> (\<forall>h'. code_refs s' h' = (if h' = h then sat_add 64 (code_refs s h) 1 else code_refs s h'))
    \<and> AccountCodes s' = AccountCodes s \<and> AccountCodesMetadata s' = AccountCodesMetadata s
    \<and> AccountStorages s' = AccountStorages s \<and> rest_same s s'"
proof -
  obtain h where h: "evm_code_hash ops c (pallet_account ops) 0 = Inr h"
    using assms(2) by (auto simp: install_def split: sum.splits)
  obtain m s2 s3 w where m: "store_code ops c (pallet_account ops) (CodeInfoOf s) = Inr m"
    and s2: "bump_refcount h (s \<lparr> CodeInfoOf := m \<rparr>) = (Inr s2 :: 'e mig_error + 'b mig_state)"
    and s3: "put_contract ops a h slots s2 = Inr s3" and s': "s' = s3 \<lparr> mworld := w \<rparr>"
    using assms(2) h by (simp add: install_def) blast
  obtain m2 where m2: "s2 = s \<lparr> CodeInfoOf := m2 \<rparr>"
    "\<And>h'. code_refs s2 h' = (if h' = h then sat_add 64 (code_refs s h) 1 else code_refs s h')"
    using bump_refcount_refs [OF s2] store_code_refs [OF assms(1) m h] by force
  obtain con con' where con: "contract_new ops a 0 h = Inr con" "write_slots ops slots con = Inr con'"
    and s3': "s3 = s2 \<lparr> contracts := (contracts s2)(a \<mapsto> con' \<lparr> con_storage_items := length slots mod 2 ^ 32,
               con_storage_bytes := (64 * (length slots mod 2 ^ 32)) mod 2 ^ 32 \<rparr>) \<rparr>"
    using s3 by (auto simp: put_contract_def)
  have "con_code_hash con = h" "con_storage con = Map.empty" using assms(1) con(1) by (auto simp: mig_laws_def)
  with write_slots_storage [OF assms(1) con(2) assms(3)]
  have con': "con_code_hash con' = h" "con_storage con' = map_of slots" by auto
  have "code_refs s' h' = code_refs s2 h'" for h'
    by (simp add: s' s3' code_refs_def)
  then show ?thesis
    using h con' m2(2) by (auto simp: s' s3' m2(1) rest_same_def)
qed

text \<open>What a step does to the storage does not depend on the tally.\<close>

definition untallied :: "('b, 'e) mig_step \<Rightarrow> bool" where
  "untallied m \<longleftrightarrow> (\<forall>s t t'. fst (m s t) = fst (m s t'))"

lemma untallied_seq: "untallied m \<Longrightarrow> untallied n \<Longrightarrow> untallied (seq_m m n)"
  unfolding untallied_def seq_m_def by (auto split: prod.splits sum.splits) (metis fst_conv sum.inject(1,2) sum.distinct(1))+

lemma untallied_act: "untallied (act_m f)" "untallied (count_m r w)"
  by (simp_all add: untallied_def act_m_def count_m_def)

lemma untallied_install: "untallied (install ops a c slots)"
proof (cases "evm_code_hash ops c (pallet_account ops) 0")
  case (Inr h)
  then have "install ops a c slots =
        seq_m (act_m (\<lambda>s. map_sum Lib_failed (\<lambda>_. s) (new_meter ops)))
         (seq_m (act_m (\<lambda>s. map_sum Lib_failed (\<lambda>m. s \<lparr> CodeInfoOf := m \<rparr>) (store_code ops c (pallet_account ops) (CodeInfoOf s))))
         (seq_m (act_m (bump_refcount h))
         (seq_m (act_m (put_contract ops a h slots))
         (seq_m (act_m (on_world (open_contract_account ops (revive_account a))))
                (count_m 8 (10 + length slots))))))"
    by (intro ext) (simp add: install_def)
  then show ?thesis by (simp add: untallied_seq untallied_act)
qed (simp add: untallied_def install_def)

section \<open>One contract\<close>

text \<open>
  A contract left behind is in Frontier as it was, and pallet-revive has nothing new at its address,
  unless that is the address the token proxy goes to.
\<close>

definition kept_contract :: "h160 \<Rightarrow> 'b mig_state \<Rightarrow> 'b mig_state \<Rightarrow> bool" where
  "kept_contract a s s' \<longleftrightarrow> fview a s' = fview a s \<and> (contracts s' a = contracts s a \<or> a = ADDRESS \<and> contracts s a = None)"

definition moved_contract :: "('b, 'e) mig_ops \<Rightarrow> h160 \<Rightarrow> bytes \<Rightarrow> 'b mig_state \<Rightarrow> 'b mig_state \<Rightarrow> bool" where
  "moved_contract ops a c s s' \<longleftrightarrow> fview a s' = (None, None, [])
     \<and> (\<not> is_delegation c \<longrightarrow>
         (\<exists>con h. evm_code_hash ops c (pallet_account ops) 0 = Inr h
            \<and> contracts s' a = Some con \<and> con_code_hash con = h \<and> con_storage con = map_of (live_slots a s)
            \<and> con_storage_items con = length (live_slots a s) mod 2 ^ 32))"

text \<open>
  What moving one contract is meant to do, as a whole: install it unless it is a delegation, move the
  account of its address, and take it out of Frontier. \<open>None\<close> is a move that fails somewhere.
\<close>

definition no_tally :: Tally where
  "no_tally = \<lparr> reads = 0, writes = 0 \<rparr>"

definition move_result :: "('b, 'e) mig_ops \<Rightarrow> h160 \<Rightarrow> bytes \<Rightarrow> 'b mig_state \<Rightarrow> 'b mig_state option" where
  "move_result ops a c s =
     (case (if is_delegation c then Inr s else fst (install ops a c (live_slots a s) s no_tally)) of
        Inl _ \<Rightarrow> None
      | Inr s1 \<Rightarrow>
          (case move_legacy (claims ops) a (mworld s1) of
             Inl _ \<Rightarrow> None
           | Inr (_, w) \<Rightarrow> Some (drop_contract a (s1 \<lparr> mworld := w \<rparr>))))"

text \<open>
  All contracts in turn: the ones that move, and the state they leave. A contract whose move fails is
  passed over, and the next one starts from the state before it.
\<close>

fun sweep :: "('b, 'e) mig_ops \<Rightarrow> (h160 \<times> bytes) list \<Rightarrow> 'b mig_state \<Rightarrow> (h160 \<times> bytes) list \<times> 'b mig_state" where
  "sweep ops [] s = ([], s)"
| "sweep ops ((a, c) # cs) s =
     (case move_result ops a c s of
        None \<Rightarrow> sweep ops cs s
      | Some s1 \<Rightarrow> (case sweep ops cs s1 of (moved, s2) \<Rightarrow> ((a, c) # moved, s2)))"

text \<open>Whether a moved contract holds a reference to the code with hash \<open>h\<close>.\<close>

definition refers :: "('b, 'e) mig_ops \<Rightarrow> bytes \<Rightarrow> h160 \<times> bytes \<Rightarrow> bool" where
  "refers ops h = (\<lambda>(_, c). \<not> is_delegation c \<and> evm_code_hash ops c (pallet_account ops) 0 = Inr h)"

lemma fst_eq_iff: "fst p = x \<longleftrightarrow> (\<exists>y. p = (x, y))"
  by (cases p) auto

lemma install_tally:
  "(\<exists>t'. install ops a c slots s t = (Inr s', t')) \<longleftrightarrow> fst (install ops a c slots s no_tally) = Inr s'"
  using untallied_install unfolding untallied_def fst_eq_iff [symmetric] by metis

lemma move_result_iff:
  "move_result ops a c s = Some s' \<longleftrightarrow>
    (\<exists>s1. (if is_delegation c then s1 = s else fst (install ops a c (live_slots a s) s no_tally) = Inr s1)
       \<and> (\<exists>w. claims_move ops a (mworld s1) = Inr w \<and> s' = drop_contract a (s1 \<lparr> mworld := w \<rparr>)))"
  by (cases "fst (install ops a c (live_slots a s) s no_tally)")
    (auto simp: move_result_def claims_move_def split: sum.splits)

lemma move_contract_result:
  "fst (move_contract ops a c s t) = Inr s' \<longleftrightarrow> move_result ops a c s = Some s'"
proof (cases "is_delegation c")
  case True
  show ?thesis
    unfolding fst_eq_iff move_contract_def move_result_iff if_P [OF True] by auto
next
  case False
  have inst: "(\<exists>t'. seq_m (count_m n 0) (install ops a c (live_slots a s)) s t = (Inr s1, t'))
      \<longleftrightarrow> fst (install ops a c (live_slots a s) s no_tally) = Inr s1" for n s1
    by (simp add: install_tally)
  have "fst (move_contract ops a c s t) = Inr s' \<longleftrightarrow>
    (\<exists>s1. (\<exists>t'. seq_m (count_m (length (live_slots a s)) 0) (install ops a c (live_slots a s)) s t = (Inr s1, t'))
       \<and> (\<exists>w. claims_move ops a (mworld s1) = Inr w \<and> s' = drop_contract a (s1 \<lparr> mworld := w \<rparr>)))"
    unfolding fst_eq_iff move_contract_def if_not_P [OF False] Let_def by auto
  then show ?thesis
    unfolding inst move_result_iff if_not_P [OF False] .
qed

lemma live_slots_distinct: "distinct (map fst (AccountStorages s a)) \<Longrightarrow> distinct (map fst (live_slots a s))"
  unfolding live_slots_def by (rule distinct_map_filter)

lemma drop_contract_fview:
  "fview b (drop_contract a s) = (if b = a then (None, None, []) else fview b s)"
proof -
  have "map_of (filter (\<lambda>(x, _). x \<noteq> a) cs) b = (if b = a then None else map_of cs b)" for cs :: "(h160 \<times> bytes) list"
    by (induction cs) auto
  then show ?thesis by (simp add: fview_def drop_contract_def)
qed

lemma drop_contract_same [simp]:
  "contracts (drop_contract a s) = contracts s" "CodeInfoOf (drop_contract a s) = CodeInfoOf s"
  "ethereum_BlockHash (drop_contract a s) = ethereum_BlockHash s" "revive_BlockHash (drop_contract a s) = revive_BlockHash s"
  "raw_keys (drop_contract a s) = raw_keys s" "code_refs (drop_contract a s) h = code_refs s h"
  by (simp_all add: drop_contract_def code_refs_def)

definition apart :: "h160 \<Rightarrow> 'b mig_state \<Rightarrow> 'b mig_state \<Rightarrow> bool" where
  "apart a s s' \<longleftrightarrow> (\<forall>b. b \<noteq> a \<longrightarrow> fview b s' = fview b s \<and> contracts s' b = contracts s b) \<and> rest_same s s'"

lemma move_result_effect:
  assumes "mig_laws ops" "move_result ops a c s = Some s'" "distinct (map fst (AccountStorages s a))"
  shows "moved_contract ops a c s s'" "apart a s s'"
    "code_refs s' h = (if refers ops h (a, c) then sat_add 64 (code_refs s h) 1 else code_refs s h)"
proof -
  have "moved_contract ops a c s s' \<and> apart a s s'
    \<and> code_refs s' h = (if refers ops h (a, c) then sat_add 64 (code_refs s h) 1 else code_refs s h)"
  proof (cases "is_delegation c")
    case True
    then obtain w where s': "s' = drop_contract a (s \<lparr> mworld := w \<rparr>)"
      using assms(2) by (auto simp: move_result_def split: sum.splits)
    from True show ?thesis
      by (auto simp: s' moved_contract_def apart_def drop_contract_fview rest_same_def refers_def) (simp_all add: fview_def code_refs_def)
  next
    case False
    then obtain s1 w where i: "fst (install ops a c (live_slots a s) s no_tally) = Inr s1"
      and s': "s' = drop_contract a (s1 \<lparr> mworld := w \<rparr>)"
      using assms(2) by (auto simp: move_result_def split: sum.splits)
    have world: "code_refs (s1 \<lparr> mworld := w \<rparr>) h = code_refs s1 h" by (simp add: code_refs_def)
    obtain t' where i: "install ops a c (live_slots a s) s no_tally = (Inr s1, t')"
      using i by (metis prod.collapse)
    from install_effect [OF assms(1) i live_slots_distinct [OF assms(3)]] False show ?thesis
      by (auto simp: s' world moved_contract_def apart_def drop_contract_fview rest_same_def refers_def) (simp_all add: fview_def)
  qed
  then show "moved_contract ops a c s s'" "apart a s s'"
    "code_refs s' h = (if refers ops h (a, c) then sat_add 64 (code_refs s h) 1 else code_refs s h)"
    by blast+
qed

section \<open>All contracts\<close>

definition move_one :: "('b, 'e) mig_ops \<Rightarrow> h160 \<times> bytes \<Rightarrow> 'b mig_state \<times> Tally \<Rightarrow> 'b mig_state \<times> Tally" where
  "move_one ops = (\<lambda>(address, c). with_storage_layer (move_contract ops address c))"

lemma move_one_result:
  "fst (move_one ops (a, c) (s, t)) = (case move_result ops a c s of None \<Rightarrow> s | Some s' \<Rightarrow> s')"
proof (cases "move_contract ops a c s t")
  case (Pair r t')
  with move_contract_result [of ops a c s t] show ?thesis
    by (cases r; cases "move_result ops a c s") (auto simp: move_one_def with_storage_layer_def)
qed

lemma move_all_sweep: "fst (fold (move_one ops) cs (s, t)) = snd (sweep ops cs s)"
proof (induction cs arbitrary: s t)
  case (Cons p cs)
  obtain a c where p: "p = (a, c)" by (cases p)
  obtain s1 t1 where 1: "move_one ops p (s, t) = (s1, t1)" by (cases "move_one ops p (s, t)")
  have "s1 = (case move_result ops a c s of None \<Rightarrow> s | Some s' \<Rightarrow> s')"
    using move_one_result [of ops a c s t] by (simp add: 1 p [symmetric])
  with Cons [of s1 t1] show ?case
    by (simp add: 1) (simp add: p split: option.splits prod.splits)
qed simp

lemma sweep_from: "p \<in> set (fst (sweep ops cs s)) \<Longrightarrow> p \<in> set cs \<and> (\<exists>s. move_result ops (fst p) (snd p) s \<noteq> None)"
proof (induction ops cs s rule: sweep.induct)
  case (2 ops a c cs s)
  show ?case
  proof (cases "move_result ops a c s")
    case (Some s1)
    then show ?thesis using 2 by (cases "p = (a, c)") (auto split: prod.splits)
  qed (use 2 in simp)
qed simp

lemma sweep_length: "length (fst (sweep ops cs s)) \<le> length cs"
  by (induction ops cs s rule: sweep.induct) (auto simp: le_Suc_eq split: option.splits prod.splits)

lemma live_slots_cong: "fview a s = fview a s' \<Longrightarrow> live_slots a s = live_slots a s'"
  by (simp add: fview_def live_slots_def)

lemma moved_contract_cong:
  "fview a s = fview a s' \<Longrightarrow> fview a t = fview a t' \<Longrightarrow> contracts t a = contracts t' a \<Longrightarrow>
    moved_contract ops a c s t \<longleftrightarrow> moved_contract ops a c s' t'"
  using live_slots_cong [of a s s'] by (simp add: moved_contract_def)

lemma sweep_effect:
  assumes "mig_laws ops"
  shows "sweep ops cs s = (moved, s') \<Longrightarrow> distinct (map fst cs) \<Longrightarrow> \<forall>a. distinct (map fst (AccountStorages s a)) \<Longrightarrow>
    (\<forall>(a, c) \<in> set moved. moved_contract ops a c s s')
    \<and> (\<forall>b. b \<notin> fst ` set moved \<longrightarrow> fview b s' = fview b s \<and> contracts s' b = contracts s b)
    \<and> (\<forall>h. code_refs s h + length cs < 2 ^ 64 \<longrightarrow> code_refs s' h = code_refs s h + length (filter (refers ops h) moved))
    \<and> rest_same s s'"
proof (induction cs arbitrary: s moved)
  case Nil
  then show ?case by (simp add: rest_same_def)
next
  case (Cons p cs)
  obtain a c where p: "p = (a, c)" by (cases p)
  have fresh: "a \<notin> fst ` set cs" "distinct (map fst cs)" using Cons.prems(2) by (simp_all add: p)
  show ?case
  proof (cases "move_result ops a c s")
    case None
    then have "sweep ops cs s = (moved, s')" using Cons.prems(1) by (simp add: p)
    from Cons.IH [OF this fresh(2) Cons.prems(3)] show ?thesis by (auto simp: p)
  next
    case (Some s1)
    then obtain moved1 where sw: "sweep ops cs s1 = (moved1, s')" and moved: "moved = (a, c) # moved1"
      using Cons.prems(1) by (auto simp: p split: prod.splits)
    note one = move_result_effect [OF assms Some] Cons.prems(3)
    have one: "moved_contract ops a c s s1" "apart a s s1"
      "\<And>h. code_refs s1 h = (if refers ops h (a, c) then sat_add 64 (code_refs s h) 1 else code_refs s h)"
      using one by blast+
    have off: "a \<notin> fst ` set moved1" using sweep_from [of _ ops cs s1] sw fresh(1) by fastforce
    have wf1: "\<forall>b. distinct (map fst (AccountStorages s1 b))"
    proof
      fix b
      show "distinct (map fst (AccountStorages s1 b))"
        using one(1,2) Cons.prems(3) by (cases "b = a") (auto simp: moved_contract_def apart_def fview_def)
    qed
    note rest = Cons.IH [OF sw fresh(2) wf1]
    have "moved_contract ops b d s s'" if "(b, d) \<in> set moved" for b d
    proof (cases "b = a")
      case True
      then have "(b, d) = (a, c)" using that off by (force simp: moved)
      moreover have "fview a s' = fview a s1" "contracts s' a = contracts s1 a" using rest off by blast+
      ultimately show ?thesis using one(1) moved_contract_cong [of a s s s' s1 ops c] by simp
    next
      case False
      then have "moved_contract ops b d s1 s'" "fview b s1 = fview b s" using that rest one(2) by (auto simp: moved apart_def)
      then show ?thesis using moved_contract_cong [of b s1 s s' s' ops d] by simp
    qed
    moreover have "fview b s' = fview b s \<and> contracts s' b = contracts s b" if "b \<notin> fst ` set moved" for b
      using that rest one(2) by (simp add: moved apart_def)
    moreover have "code_refs s' h = code_refs s h + length (filter (refers ops h) moved)"
      if "code_refs s h + length (p # cs) < 2 ^ 64" for h
    proof -
      have "code_refs s1 h = code_refs s h + (if refers ops h (a, c) then 1 else 0)"
        using one(3) [of h] that by (simp add: sat_add_def)
      moreover have "code_refs s1 h + length cs < 2 ^ 64" using calculation that by (simp split: if_splits)
      ultimately show ?thesis using rest by (simp add: moved)
    qed
    moreover have "rest_same s s'" using rest one(2) by (simp add: apart_def rest_same_def)
    ultimately show ?thesis by blast
  qed
qed

section \<open>The other parts of the upgrade\<close>

definition on_world_only :: "('b mig_state \<times> Tally \<Rightarrow> 'b mig_state \<times> Tally) \<Rightarrow> bool" where
  "on_world_only f \<longleftrightarrow> (\<forall>st. \<exists>w. fst (f st) = fst st \<lparr> mworld := w \<rparr>)"

lemma move_account_world: "on_world_only (with_storage_layer (move_account ops a))"
proof -
  have "\<exists>w. s' = s \<lparr> mworld := w \<rparr>" if "move_account ops a s t = (Inr s', t')" for s t s' t'
    using that by (auto simp: move_account_def split: if_splits intro: exI [of _ "mworld s"])
  moreover have "\<exists>w. s = s \<lparr> mworld := w \<rparr>" for s :: "'a mig_state" by (rule exI [of _ "mworld s"]) simp
  ultimately show ?thesis
    unfolding on_world_only_def with_storage_layer_def by (auto split: prod.splits sum.splits)
qed

lemma fold_world:
  fixes f :: "'x \<Rightarrow> 'b mig_state \<times> Tally \<Rightarrow> 'b mig_state \<times> Tally"
  assumes "\<And>x. on_world_only (f x)"
  shows "on_world_only (fold f xs)"
proof (induction xs)
  case Nil
  show ?case unfolding on_world_only_def
  proof
    fix st :: "'b mig_state \<times> Tally"
    show "\<exists>w. fst (fold f [] st) = fst st \<lparr> mworld := w \<rparr>" by (rule exI [of _ "mworld (fst st)"]) simp
  qed
next
  case (Cons x xs)
  show ?case unfolding on_world_only_def
  proof
    fix st :: "'b mig_state \<times> Tally"
    obtain w where w: "fst (f x st) = fst st \<lparr> mworld := w \<rparr>" using assms unfolding on_world_only_def by blast
    obtain w' where "fst (fold f xs (f x st)) = fst (f x st) \<lparr> mworld := w' \<rparr>" using Cons unfolding on_world_only_def by blast
    with w show "\<exists>w. fst (fold f (x # xs) st) = fst st \<lparr> mworld := w \<rparr>" by auto
  qed
qed

lemma map_accounts_world: "\<exists>w. fst (map_accounts ops st) = fst st \<lparr> mworld := w \<rparr>"
  by (cases st) (auto simp: map_accounts_def Let_def)

text \<open>The reference the token proxy holds to the code with hash \<open>h\<close>, when it is deployed between two states.\<close>

definition proxy_refs :: "('b, 'e) mig_ops \<Rightarrow> bytes \<Rightarrow> 'b mig_state \<Rightarrow> 'b mig_state \<Rightarrow> nat" where
  "proxy_refs ops h s s' =
     (if contracts s ADDRESS = None \<and> contracts s' ADDRESS \<noteq> None
         \<and> evm_code_hash ops (proxy_code (proxy_selectors ops) (proxy_deposit ops)) (pallet_account ops) 0 = Inr h
      then 1 else 0)"

definition proxy_added :: "('b, 'e) mig_ops \<Rightarrow> 'b mig_state \<Rightarrow> 'b mig_state \<Rightarrow> bool" where
  "proxy_added ops s s' \<longleftrightarrow> (\<forall>b. fview b s' = fview b s) \<and> (\<forall>b. b \<noteq> ADDRESS \<or> contracts s b \<noteq> None \<longrightarrow> contracts s' b = contracts s b)
     \<and> (\<forall>h. code_refs s' h = (if proxy_refs ops h s s' = 0 then code_refs s h else sat_add 64 (code_refs s h) 1))
     \<and> rest_same s s' \<and> AccountCodes s' = AccountCodes s"

lemma proxy_added_refl: "proxy_added ops s s"
  by (auto simp: proxy_added_def proxy_refs_def rest_same_def)

lemma deploy_added:
  assumes "mig_laws ops"
  shows "proxy_added ops (fst st) (fst (with_storage_layer (deploy_token_proxy ops) st))"
proof -
  have "proxy_added ops s s'" if run: "deploy_token_proxy ops s t = (Inr s', t')" for s t s' t'
  proof (cases "contracts s ADDRESS")
    case None
    then obtain t0 where "install ops ADDRESS (proxy_code (proxy_selectors ops) (proxy_deposit ops)) [] s t0 = (Inr s', t')"
      using run by (auto simp: deploy_token_proxy_def)
    from install_effect [OF assms this] None show ?thesis
      by (auto simp: proxy_added_def proxy_refs_def fview_def)
  next
    case (Some con)
    then have "s' = s" using run by (auto simp: deploy_token_proxy_def)
    then show ?thesis by (simp add: proxy_added_refl)
  qed
  then show ?thesis
    by (cases st) (auto simp: with_storage_layer_def proxy_added_refl split: prod.splits sum.splits)
qed

lemma copy_block_hash_effect:
  "\<exists>m. fst (copy_block_hash n st) = fst st \<lparr> revive_BlockHash := m \<rparr>
     \<and> (\<forall>k. m k = (if k = n \<and> ethereum_BlockHash (fst st) n \<noteq> None then ethereum_BlockHash (fst st) n else revive_BlockHash (fst st) k))"
proof (cases "ethereum_BlockHash (fst st) n")
  case None
  then show ?thesis
    by (intro exI [of _ "revive_BlockHash (fst st)"]) (simp add: copy_block_hash_def Let_def split_beta)
next
  case (Some h)
  then show ?thesis
    by (intro exI [of _ "(revive_BlockHash (fst st))(n \<mapsto> h)"]) (simp add: copy_block_hash_def Let_def split_beta)
qed

lemma copy_block_hashes_effect:
  "\<exists>m. fst (fold copy_block_hash ns st) = fst st \<lparr> revive_BlockHash := m \<rparr>
     \<and> (\<forall>k. m k = (if k \<in> set ns \<and> ethereum_BlockHash (fst st) k \<noteq> None then ethereum_BlockHash (fst st) k else revive_BlockHash (fst st) k))"
proof (induction ns arbitrary: st)
  case Nil
  show ?case by (rule exI [of _ "revive_BlockHash (fst st)"]) simp
next
  case (Cons n ns)
  obtain m1 where 1: "fst (copy_block_hash n st) = fst st \<lparr> revive_BlockHash := m1 \<rparr>"
    "\<And>k. m1 k = (if k = n \<and> ethereum_BlockHash (fst st) n \<noteq> None then ethereum_BlockHash (fst st) n else revive_BlockHash (fst st) k)"
    using copy_block_hash_effect by blast
  obtain m2 where 2: "fst (fold copy_block_hash ns (copy_block_hash n st)) = fst (copy_block_hash n st) \<lparr> revive_BlockHash := m2 \<rparr>"
    "\<And>k. m2 k = (if k \<in> set ns \<and> ethereum_BlockHash (fst (copy_block_hash n st)) k \<noteq> None
       then ethereum_BlockHash (fst (copy_block_hash n st)) k else revive_BlockHash (fst (copy_block_hash n st)) k)"
    using Cons [of "copy_block_hash n st"] by blast
  show ?case
  proof (intro exI conjI allI)
    show "fst (fold copy_block_hash (n # ns) st) = fst st \<lparr> revive_BlockHash := m2 \<rparr>"
      using 1(1) 2(1) by simp
  qed (auto simp: 2(2) 1)
qed

definition prepare_m :: "('b, 'e) mig_ops \<Rightarrow> 'b mig_state \<times> Tally \<Rightarrow> 'b mig_state \<times> Tally" where
  "prepare_m ops st = open_pallet_account ops (pin_signers ops (copy_block_hashes ops st))"

lemma prepare_effect:
  assumes "s' = fst (prepare_m ops (s, t))"
  shows "AccountCodes s' = AccountCodes s \<and> AccountStorages s' = AccountStorages s
    \<and> AccountCodesMetadata s' = AccountCodesMetadata s \<and> contracts s' = contracts s \<and> CodeInfoOf s' = CodeInfoOf s
    \<and> (\<forall>n h. n \<in> set (recent_blocks ops (mworld s)) \<longrightarrow> ethereum_BlockHash s n = Some h \<longrightarrow> revive_BlockHash s' n = Some h)"
proof -
  obtain s1 t1 where c: "copy_block_hashes ops (s, t) = (s1, t1)" by (cases "copy_block_hashes ops (s, t)")
  obtain m where s1: "s1 = s \<lparr> revive_BlockHash := m \<rparr>"
    and m: "\<And>k. m k = (if k \<in> set (recent_blocks ops (mworld s)) \<and> ethereum_BlockHash s k \<noteq> None
      then ethereum_BlockHash s k else revive_BlockHash s k)"
    using copy_block_hashes_effect [of "recent_blocks ops (mworld s)" "(s, t)"] c
    unfolding copy_block_hashes_def fst_conv by (metis fst_conv)
  have "\<exists>w. fst (open_pallet_account ops (pin_signers ops (s1, t1))) = s1 \<lparr> mworld := w \<rparr>"
    by (auto simp: open_pallet_account_def pin_signers_def Let_def split: sum.splits)
  with assms c obtain w where "s' = s1 \<lparr> mworld := w \<rparr>" by (auto simp: prepare_m_def)
  then show ?thesis by (simp add: s1 m)
qed

lemma clear_frontier_fview:
  assumes "s' = fst (clear_frontier ops (s, t))"
  shows "fview a s' = fview a s \<or> (fst (fview a s) = None \<and> fview a s' = (None, None, []))"
    "AccountCodes s \<noteq> [] \<Longrightarrow> fview a s' = fview a s" "contracts s' = contracts s" "CodeInfoOf s' = CodeInfoOf s"
    "revive_BlockHash s' = revive_BlockHash s" "raw_keys s' ETHEREUM_SCHEMA = None"
  using assms by (auto simp: clear_frontier_def Let_def fview_def)

definition finish_m :: "('b, 'e) mig_ops \<Rightarrow> 'b mig_state \<times> Tally \<Rightarrow> 'b mig_state \<times> Tally" where
  "finish_m ops st = map_accounts ops (fold (\<lambda>address. with_storage_layer (move_account ops address)) KNOWN_ADDRESSES
     (with_storage_layer (deploy_token_proxy ops) st))"

lemma finish_added:
  assumes "mig_laws ops"
  shows "proxy_added ops (fst st) (fst (finish_m ops st))"
proof -
  let ?a = "with_storage_layer (deploy_token_proxy ops) st"
  let ?b = "fold (\<lambda>address. with_storage_layer (move_account ops address)) KNOWN_ADDRESSES ?a"
  obtain w where b: "fst ?b = fst ?a \<lparr> mworld := w \<rparr>"
    using fold_world [of "\<lambda>address. with_storage_layer (move_account ops address)" KNOWN_ADDRESSES, OF move_account_world] unfolding on_world_only_def by blast
  obtain w' where "fst (finish_m ops st) = fst ?b \<lparr> mworld := w' \<rparr>"
    using map_accounts_world unfolding finish_m_def by blast
  then have "fst (finish_m ops st) = fst ?a \<lparr> mworld := w' \<rparr>" by (simp add: b)
  with deploy_added [OF assms, of st] show ?thesis
    by (simp add: proxy_added_def proxy_refs_def fview_def code_refs_def rest_same_def)
qed

lemma migrate_parts:
  "migrate ops st = clear_frontier ops (finish_m ops (fold (move_one ops) (AccountCodes (fst (prepare_m ops st)))
     (fst (prepare_m ops st), tally_read (length (AccountCodes (fst (prepare_m ops st)))) (snd (prepare_m ops st)))))"
  by (simp add: migrate_def prepare_m_def finish_m_def move_one_def Let_def)

section \<open>The whole upgrade\<close>

definition sweeps_to :: "('b, 'e) mig_ops \<Rightarrow> 'b mig_state \<Rightarrow> (h160 \<times> bytes) list \<Rightarrow> 'b mig_state \<Rightarrow> 'b mig_state \<Rightarrow> bool" where
  "sweeps_to ops s moved s1 s' \<longleftrightarrow>
     sweep ops (AccountCodes s) (fst (prepare_m ops (s, no_tally))) = (moved, s1)
     \<and> (\<exists>t. s' = fst (clear_frontier ops (finish_m ops (s1, t))))"

lemma migrate_sweeps: "\<exists>moved s1. sweeps_to ops s moved s1 (fst (migrate ops (s, no_tally)))"
proof -
  define s0 where "s0 = fst (prepare_m ops (s, no_tally))"
  let ?f = "fold (move_one ops) (AccountCodes s0) (s0, tally_read (length (AccountCodes s0)) (snd (prepare_m ops (s, no_tally))))"
  have codes: "AccountCodes s0 = AccountCodes s" using prepare_effect [OF s0_def] by blast
  obtain moved s1 where sw: "sweep ops (AccountCodes s) s0 = (moved, s1)" by fastforce
  have "fst ?f = s1" using move_all_sweep [of ops "AccountCodes s0" s0] sw codes by simp
  then have "?f = (s1, snd ?f)" by (metis prod.collapse)
  then have "fst (migrate ops (s, no_tally)) = fst (clear_frontier ops (finish_m ops (s1, snd ?f)))"
    unfolding migrate_parts s0_def [symmetric] by simp
  then show ?thesis using sw unfolding sweeps_to_def s0_def by blast
qed

lemma sweeps_to_effect:
  assumes "mig_laws ops" "storage_wf s" "sweeps_to ops s moved s1 s'"
  shows "\<forall>(a, c) \<in> set (AccountCodes s). if (a, c) \<in> set moved then moved_contract ops a c s s' else kept_contract a s s'"
    and "\<forall>a. a \<notin> fst ` set moved \<longrightarrow> a \<noteq> ADDRESS \<longrightarrow> contracts s' a = contracts s a"
    and "code_refs s h + Suc (length (AccountCodes s)) < 2 ^ 64 \<Longrightarrow>
      code_refs s' h = code_refs s h + length (filter (refers ops h) moved) + proxy_refs ops h s1 s'"
    and "n \<in> set (recent_blocks ops (mworld s)) \<Longrightarrow> ethereum_BlockHash s n = Some b \<Longrightarrow> revive_BlockHash s' n = Some b"
    and "raw_keys s' ETHEREUM_SCHEMA = None"
proof -
  define s0 where "s0 = fst (prepare_m ops (s, no_tally))"
  obtain t where sw: "sweep ops (AccountCodes s) s0 = (moved, s1)" and s': "s' = fst (clear_frontier ops (finish_m ops (s1, t)))"
    using assms(3) unfolding sweeps_to_def s0_def by blast
  obtain s2 t2 where s2: "finish_m ops (s1, t) = (s2, t2)" by (cases "finish_m ops (s1, t)")
  note clear = clear_frontier_fview [OF s' [unfolded s2]]
  note p = prepare_effect [OF s0_def]
  have view: "fview a s0 = fview a s" "code_refs s0 h' = code_refs s h'" "contracts s0 = contracts s" for a h'
    using p by (simp_all add: fview_def code_refs_def)
  have "\<forall>a. distinct (map fst (AccountStorages s0 a))" "distinct (map fst (AccountCodes s))"
    using assms(2) p by (simp_all add: storage_wf_def)
  note all = sweep_effect [OF assms(1) sw this(2,1)]
  have fin: "proxy_added ops s1 s2" using finish_added [OF assms(1), of "(s1, t)"] by (simp add: s2)
  have sub: "set moved \<subseteq> set (AccountCodes s)" using sweep_from [of _ ops "AccountCodes s" s0] sw by auto
  have code: "map_of (AccountCodes s) a = Some c" if "(a, c) \<in> set (AccountCodes s)" for a c
    using assms(2) that by (simp add: storage_wf_def)
  show "\<forall>(a, c) \<in> set (AccountCodes s). if (a, c) \<in> set moved then moved_contract ops a c s s' else kept_contract a s s'"
  proof (clarify, split if_split, intro conjI impI)
    fix a c assume "(a, c) \<in> set (AccountCodes s)" and m: "(a, c) \<in> set moved"
    have m: "moved_contract ops a c s s1" using all m moved_contract_cong [of a s0 s s1 s1 ops c] view by auto
    moreover have "fview a s' = (None, None, [])" using m clear(1) [of a] fin by (auto simp: moved_contract_def proxy_added_def)
    moreover have "contracts s1 a \<noteq> None \<Longrightarrow> contracts s' a = contracts s1 a" using fin unfolding clear(3) proxy_added_def by blast
    ultimately show "moved_contract ops a c s s'" unfolding moved_contract_def by fastforce
  next
    fix a c assume mem: "(a, c) \<in> set (AccountCodes s)" and "(a, c) \<notin> set moved"
    then have "(a, d) \<notin> set moved" for d
      by (cases "d = c") (use sub code [OF mem] code [of a d] in auto)
    then have "a \<notin> fst ` set moved" by force
    then have 1: "fview a s1 = fview a s" "contracts s1 a = contracts s a" using all view by auto
    have 2: "fview a s2 = fview a s" using 1 fin by (simp add: proxy_added_def)
    then have "AccountCodes s2 \<noteq> []" using code [OF mem] by (auto simp: fview_def)
    then show "kept_contract a s s'" using 1 2 clear(2,3) fin unfolding kept_contract_def proxy_added_def by metis
  qed
  show "\<forall>a. a \<notin> fst ` set moved \<longrightarrow> a \<noteq> ADDRESS \<longrightarrow> contracts s' a = contracts s a"
    using all view clear(3) fin by (simp add: proxy_added_def)
  show "code_refs s' h = code_refs s h + length (filter (refers ops h) moved) + proxy_refs ops h s1 s'"
    if room: "code_refs s h + Suc (length (AccountCodes s)) < 2 ^ 64"
  proof -
    have 1: "code_refs s1 h = code_refs s h + length (filter (refers ops h) moved)" using all room view(2) [of h] by simp
    have "length moved \<le> length (AccountCodes s)" using sweep_length [of ops "AccountCodes s" s0] sw by simp
    then have "length (filter (refers ops h) moved) \<le> length (AccountCodes s)" using length_filter_le order_trans by blast
    then have "code_refs s1 h + proxy_refs ops h s1 s2 < 2 ^ 64" using room 1 by (simp add: proxy_refs_def)
    then have "code_refs s2 h = code_refs s1 h + proxy_refs ops h s1 s2"
      using fin by (auto simp: proxy_added_def sat_add_def proxy_refs_def)
    then show ?thesis using 1 clear(3,4) by (simp add: code_refs_def proxy_refs_def)
  qed
  show "revive_BlockHash s' n = Some b" if "n \<in> set (recent_blocks ops (mworld s))" "ethereum_BlockHash s n = Some b"
  proof -
    have "revive_BlockHash s0 n = Some b" using p that by blast
    then show ?thesis using all fin clear(5) by (simp add: proxy_added_def rest_same_def)
  qed
  show "raw_keys s' ETHEREUM_SCHEMA = None" by (rule clear(6))
qed

text \<open>
  C20: The migration of Frontier's state is all or nothing for every contract. The state it leaves is
  the one \<open>sweep\<close> gives, with the token proxy, the known accounts and Frontier's leftovers seen to
  after it: a contract whose move fails contributes nothing at all, in balances and accounts as in
  contracts and code. A contract that moved is gone from Frontier and, unless it was a delegation, is
  in pallet-revive with its code hash and exactly its non-zero slots. One that did not is still in
  Frontier with its code, metadata and storage, and pallet-revive has nothing new at its address
  unless the token proxy was deployed there. No other contract of pallet-revive changes, and the
  reference count of every code grows by exactly the contracts that moved onto it, and the proxy.
  Every recent Ethereum block hash stays answerable, and a second run changes nothing.\<close>

theorem migration_all_or_nothing:
  assumes "mig_laws ops" "storage_wf s" "raw_keys s ETHEREUM_SCHEMA \<noteq> None"
    and "on_runtime_upgrade ops s = (s', r, w)"
  shows "(\<exists>moved s1. sweeps_to ops s moved s1 s'
      \<and> (\<forall>(a, c) \<in> set (AccountCodes s). if (a, c) \<in> set moved then moved_contract ops a c s s' else kept_contract a s s')
      \<and> (\<forall>a. a \<notin> fst ` set moved \<longrightarrow> a \<noteq> ADDRESS \<longrightarrow> contracts s' a = contracts s a)
      \<and> (\<forall>h. code_refs s h + Suc (length (AccountCodes s)) < 2 ^ 64 \<longrightarrow>
           code_refs s' h = code_refs s h + length (filter (refers ops h) moved) + proxy_refs ops h s1 s'))
    \<and> (\<forall>n h. system_block_number ops (mworld s) - 256 \<le> n \<longrightarrow> n \<le> system_block_number ops (mworld s) \<longrightarrow>
         ethereum_BlockHash s n = Some h \<longrightarrow> revive_BlockHash s' n = Some h)
    \<and> on_runtime_upgrade ops s' = (s', 1, 0)"
proof -
  have "s' = fst (migrate ops (s, no_tally))"
    using assms(3,4) by (auto simp: on_runtime_upgrade_def no_tally_def Let_def split: prod.splits)
  then obtain moved s1 where to: "sweeps_to ops s moved s1 s'" using migrate_sweeps by blast
  note effect = sweeps_to_effect [OF assms(1,2) to]
  have "n \<in> set (recent_blocks ops (mworld s))"
    if "system_block_number ops (mworld s) - 256 \<le> n" "n \<le> system_block_number ops (mworld s)" for n
    using that by (auto simp: recent_blocks_def Let_def)
  then have "\<forall>n h. system_block_number ops (mworld s) - 256 \<le> n \<longrightarrow> n \<le> system_block_number ops (mworld s) \<longrightarrow>
         ethereum_BlockHash s n = Some h \<longrightarrow> revive_BlockHash s' n = Some h"
    using effect(4) by blast
  moreover have "on_runtime_upgrade ops s' = (s', 1, 0)" using effect(5) by (simp add: on_runtime_upgrade_def)
  ultimately show ?thesis using to effect(1-3) by blast
qed

section \<open>A migration at work\<close>

definition mig_claims :: "(unit, unit) claims_ops" where
  "mig_claims =
     \<lparr> inc_providers = (\<lambda>_ w. w), blake2_256 = (\<lambda>b. b), ClaimFee = (\<lambda>_. 0), OnClaimFee = (\<lambda>_ w. w),
       MAX_VESTING_SCHEDULES = 28, reserved_balance = (\<lambda>_ _. 0), Freezes = (\<lambda>_ _. []), Locks = (\<lambda>_ _. []),
       reducible_balance = (\<lambda>_ _. 0), balance = (\<lambda>_ _. 0), total_balance = (\<lambda>_ _. 0), minimum_balance = 1,
       mint_into = (\<lambda>_ _ w. Inr w), deactivate = (\<lambda>_ w. w), transfer_expendable = (\<lambda>_ _ _ w. Inr w),
       withdraw_best_effort = (\<lambda>_ _ w. Inr (0, w)), Vesting = (\<lambda>_ _. None),
       remove_vesting_schedule = (\<lambda>_ _ w. Inr w), add_vesting_schedule = (\<lambda>_ _ _ _ w. Inr w),
       locked_at = (\<lambda>_ _. 0), current_block_number = (\<lambda>_. 0) \<rparr>"

definition mig_example :: "(unit, unit) mig_ops" where
  "mig_example =
     \<lparr> claims = mig_claims, system_block_number = (\<lambda>_. 7), account_keys = (\<lambda>_. []), pallet_account = [1],
       inc_consumers = (\<lambda>_ w. Inr w), inc_account_nonce = (\<lambda>_ w. w), init_contract = (\<lambda>_ w. Inr w),
       evm_code_hash = (\<lambda>c _ _. if c = [0xfe] then Inl () else Inr c), new_meter = Inr (),
       store_code = (\<lambda>c who m. Inr (case m c of Some _ \<Rightarrow> m
         | None \<Rightarrow> m(c \<mapsto> \<lparr> ci_owner = who, ci_deposit = 0, ci_refcount = 0, ci_code_len = length c,
                            ci_code_type = Evm, ci_behaviour_version = 0 \<rparr>))),
       contract_new = (\<lambda>_ _ h. Inr \<lparr> con_code_hash = h, con_storage = Map.empty, con_storage_items = 0, con_storage_bytes = 0 \<rparr>),
       contract_write = (\<lambda>k v con. Inr (con \<lparr> con_storage := (con_storage con)(k \<mapsto> v) \<rparr>)),
       is_eth_derived = (\<lambda>_. False), is_mapped = (\<lambda>_ _. True), map_no_deposit = (\<lambda>_ w. Inr w),
       removed_keys = (\<lambda>_. 0), proxy_selectors = [], proxy_deposit = [0, 0, 0, 0] \<rparr>"

lemma mig_example_laws: "mig_laws mig_example"
  by (auto simp: mig_laws_def mig_example_def split: option.splits)

definition mig_start :: "unit mig_state" where
  "mig_start =
     \<lparr> mworld = \<lparr> Account = Map.empty, bank = (), claims_events = [] \<rparr>,
       raw_keys = [ETHEREUM_SCHEMA \<mapsto> [3]],
       AccountCodes = [([5], [0x60]), ([6], [0xfe])], AccountCodesMetadata = Map.empty,
       AccountStorages = (\<lambda>a. if a = [5] then [([1], [0]), ([2], [9])] else []),
       ethereum_BlockHash = [7 \<mapsto> [8]], revive_BlockHash = Map.empty, CodeInfoOf = Map.empty, contracts = Map.empty \<rparr>"

lemma mig_example_stays: "([6], [0xfe]) \<notin> set (fst (sweep mig_example cs s))"
proof
  assume "([6], [0xfe]) \<in> set (fst (sweep mig_example cs s))"
  from sweep_from [OF this] show False
    by (auto simp: move_result_def install_def mig_example_def is_delegation_def)
qed

theorem migration_all_or_nothing_witness:
  "\<exists>s'. fst (on_runtime_upgrade mig_example mig_start) = s' \<and> revive_BlockHash s' 7 = Some [8]
    \<and> kept_contract [6] mig_start s' \<and> (\<exists>moved s1. sweeps_to mig_example mig_start moved s1 s')
    \<and> on_runtime_upgrade mig_example s' = (s', 1, 0)"
proof -
  obtain s' r w where run: "on_runtime_upgrade mig_example mig_start = (s', r, w)"
    by (cases "on_runtime_upgrade mig_example mig_start") auto
  have wf: "storage_wf mig_start" by (simp add: storage_wf_def mig_start_def)
  have "raw_keys mig_start ETHEREUM_SCHEMA \<noteq> None" by (simp add: mig_start_def)
  note all = migration_all_or_nothing [OF mig_example_laws wf this run]
  then obtain moved s1 where to: "sweeps_to mig_example mig_start moved s1 s'"
    and each: "\<forall>(a, c) \<in> set (AccountCodes mig_start).
      if (a, c) \<in> set moved then moved_contract mig_example a c mig_start s' else kept_contract a mig_start s'"
    by blast
  have "([6], [0xfe]) \<notin> set moved" using to mig_example_stays unfolding sweeps_to_def by (metis fst_conv)
  moreover have "([6], [0xfe]) \<in> set (AccountCodes mig_start)" by (simp add: mig_start_def)
  ultimately have "kept_contract [6] mig_start s'" using each by fastforce
  moreover have "revive_BlockHash s' 7 = Some [8]" using all by (simp add: mig_example_def mig_start_def)
  moreover have "on_runtime_upgrade mig_example s' = (s', 1, 0)" using all by blast
  ultimately show ?thesis using run to by auto
qed

end
