(* ===== verification/ProxyFilter.thy ===== *)
theory ProxyFilter
  imports Prelude
begin

text \<open>
  Call filters of delegated accounts: \<open>ProxyType\<close> of \<open>runtime/src/configs/mod.rs\<close> over the pallets
  of the runtime (\<open>runtime/src/lib.rs\<close>). The calls of a pallet matter only for vesting; every other
  pallet's call is an abstract payload.
\<close>

datatype pallet =
    P_System | P_Timestamp | P_Utility | P_Balances | P_TransactionPayment | P_Multisig | P_Proxy | P_Identity
  | P_Poscan | P_BlockReward | P_Difficulty | P_Grandpa | P_Validator | P_ImOnline | P_Session | P_Authorship
  | P_Historical | P_Preimage | P_Scheduler | P_ConvictionVoting | P_Referenda | P_Origins | P_Treasury
  | P_Bounties | P_ChildBounties | P_EVMChainId | P_Precompiles | P_Revive | P_EvmClaims | P_GenesisRegistrars
  | P_Prime

datatype vesting_call = Vest | Vest_other | Vested_transfer | Force_vested_transfer | Merge_schedules
  | Force_remove_vesting_schedule

datatype 'c RuntimeCall = Vesting_call vesting_call | Pallet_call pallet 'c

datatype ProxyType = Any | NonTransfer | Governance

primrec proxy_rank :: "ProxyType \<Rightarrow> nat" where
  "proxy_rank Any = 0"
| "proxy_rank NonTransfer = 1"
| "proxy_rank Governance = 2"

lemma proxy_rank_inj: "proxy_rank a = proxy_rank b \<Longrightarrow> a = b"
  by (cases a; cases b) simp_all

instantiation ProxyType :: linorder
begin

definition less_eq_ProxyType :: "ProxyType \<Rightarrow> ProxyType \<Rightarrow> bool" where
  "a \<le> b \<longleftrightarrow> proxy_rank a \<le> proxy_rank b"

definition less_ProxyType :: "ProxyType \<Rightarrow> ProxyType \<Rightarrow> bool" where
  "a < b \<longleftrightarrow> proxy_rank a < proxy_rank b"

instance
  by standard (auto simp: less_eq_ProxyType_def less_ProxyType_def intro: proxy_rank_inj)

end

fun proxy_filter :: "ProxyType \<Rightarrow> 'c RuntimeCall \<Rightarrow> bool" where
  "proxy_filter Any c = True"
| "proxy_filter NonTransfer c =
     (\<not> (case c of
           Pallet_call p _ \<Rightarrow> p = P_Balances \<or> p = P_Revive
         | Vesting_call v \<Rightarrow> v = Vested_transfer))"
| "proxy_filter Governance c =
     (case c of
        Pallet_call p _ \<Rightarrow> p \<in> {P_Treasury, P_Bounties, P_ChildBounties, P_ConvictionVoting, P_Referenda, P_Utility}
      | Vesting_call v \<Rightarrow> False)"

definition is_superset :: "ProxyType \<Rightarrow> ProxyType \<Rightarrow> bool" where
  "is_superset x y =
     (if x = y then True
      else case (x, y) of
        (Any, _) \<Rightarrow> True
      | (_, Any) \<Rightarrow> False
      | (NonTransfer, _) \<Rightarrow> True
      | _ \<Rightarrow> False)"

lemma is_superset_order: "is_superset x y \<longleftrightarrow> x \<le> y"
  by (cases x; cases y) (simp_all add: is_superset_def less_eq_ProxyType_def)

lemma proxy_filter_antimono: "x \<le> y \<Longrightarrow> proxy_filter y c \<Longrightarrow> proxy_filter x c"
  by (cases x; cases y; cases c) (auto simp: less_eq_ProxyType_def)

text \<open>The calls a type lets through.\<close>

definition permits :: "ProxyType \<Rightarrow> 'c RuntimeCall set" where
  "permits x = {c. proxy_filter x c}"

lemma permits_strict: "y < x \<Longrightarrow> \<not> permits y \<subseteq> permits x"
proof -
  have "Pallet_call P_Balances undefined \<in> permits Any - permits NonTransfer - permits Governance"
    "Pallet_call P_System undefined \<in> permits NonTransfer - permits Governance"
    by (simp_all add: permits_def)
  then show "y < x \<Longrightarrow> \<not> permits y \<subseteq> permits x"
    by (cases x; cases y) (auto simp: less_ProxyType_def)
qed

text \<open>
  C18: The superset test that guards delegations of delegates is exact: it holds of two proxy types
  precisely when every call the second lets through is let through by the first. It is a linear
  order in which the unrestricted type contains every other, so along any chain of delegations,
  each within the one before, the last one never lets through a call that the first does not, and a
  chain that returns to its first type never left it.\<close>

theorem proxy_types_never_widen:
  fixes x y :: ProxyType
  shows "(is_superset x y \<longleftrightarrow> (permits y :: 'c RuntimeCall set) \<subseteq> permits x)
    \<and> (is_superset x y \<or> is_superset y x) \<and> is_superset Any y
    \<and> (is_superset\<^sup>*\<^sup>* x y \<longrightarrow> (permits y :: 'c RuntimeCall set) \<subseteq> permits x)
    \<and> (is_superset\<^sup>*\<^sup>* x y \<longrightarrow> is_superset\<^sup>*\<^sup>* y x \<longrightarrow> x = y)"
proof -
  have exact: "is_superset x y \<longleftrightarrow> (permits y :: 'c RuntimeCall set) \<subseteq> permits x" for x y
    using permits_strict [of y x] proxy_filter_antimono [of x y]
    by (cases x y rule: linorder_le_cases) (auto simp: is_superset_order permits_def order_le_less)
  have chain: "is_superset\<^sup>*\<^sup>* x y \<longleftrightarrow> x \<le> y" for x y
  proof
    show "x \<le> y" if "is_superset\<^sup>*\<^sup>* x y"
      using that by induction (auto simp: is_superset_order)
  qed (simp add: is_superset_order r_into_rtranclp)
  show ?thesis
    using exact [of x y] chain [of x y] chain [of y x] linear [of x y]
    by (auto simp: is_superset_order less_eq_ProxyType_def [of Any])
qed

theorem proxy_types_never_widen_witness:
  "is_superset\<^sup>*\<^sup>* Any Governance \<and> (permits Governance :: unit RuntimeCall set) \<subseteq> permits Any
    \<and> \<not> (permits NonTransfer :: unit RuntimeCall set) \<subseteq> permits Governance"
proof -
  have "is_superset Any NonTransfer" "is_superset NonTransfer Governance" "\<not> is_superset Governance NonTransfer"
    by (simp_all add: is_superset_def)
  moreover from this have "is_superset\<^sup>*\<^sup>* Any Governance"
    by (meson converse_rtranclp_into_rtranclp r_into_rtranclp)
  ultimately show ?thesis
    using proxy_types_never_widen [of Any Governance, where 'c = unit] proxy_types_never_widen [of Governance NonTransfer, where 'c = unit]
    by blast
qed

end
