(* ===== verification/Asert.thy ===== *)
theory Asert
  imports Prelude
begin

text \<open>
  The integer ASERT target computation of \<open>pallets/difficulty/src/asert.rs\<close>. The function
  \<open>compute_next_target\<close> is split at its own comments: the fixed-point exponent, the cubic
  approximation of \<open>2^frac\<close>, the 256-bit multiplication with its 512-bit fallback, and the
  final shift with its clamps. A division by a zero half-life panics in Rust, which is the
  result \<open>None\<close>.

  \<open>asert_spec\<close> is the closed form of the same value, with neither the fast path nor the
  shift guards; the lemmas show that the code computes it, that it stays in
  \<open>[1, U256::MAX]\<close>, that it is monotone in the block timestamp, and what half-life,
  schedule and scale mean for it.
\<close>

section \<open>The code\<close>

definition FRAC_BITS :: nat where
  "FRAC_BITS = 16"

definition FRAC_ONE :: int where
  "FRAC_ONE = 65536"

definition asert_exponent :: "int \<Rightarrow> nat \<Rightarrow> nat \<Rightarrow> nat \<Rightarrow> int option" where
  "asert_exponent time_delta height_delta target_block_time halflife =
     (let ideal_time = wrapping_mul 64 target_block_time height_delta;
          exponent_numer = wrap_signed 128 (wrap_signed 128 (time_delta - int ideal_time) * FRAC_ONE);
          halflife_i128 = int halflife
      in if halflife_i128 = 0 then None else Some (exponent_numer sdiv halflife_i128))"

definition frac_factor :: "int \<Rightarrow> int" where
  "frac_factor x =
     (let A1 = 45426; A2 = 15736; A3 = 3638;
          term1 = A1 * x div FRAC_ONE;
          term2 = A2 * x div FRAC_ONE * x div FRAC_ONE;
          term3 = A3 * x div FRAC_ONE * x div FRAC_ONE * x div FRAC_ONE
      in FRAC_ONE + term1 + term2 + term3)"

definition scale_anchor :: "nat \<Rightarrow> nat \<Rightarrow> nat" where
  "scale_anchor anchor_target ff =
     (case checked_mul 256 anchor_target ff of
        Some p \<Rightarrow> p div nat FRAC_ONE
      | None \<Rightarrow>
          (let prod = anchor_target * ff; quot = prod div nat FRAC_ONE
           in if quot \<le> U256_MAX then quot else U256_MAX))"

definition apply_int_part :: "nat \<Rightarrow> int \<Rightarrow> nat" where
  "apply_int_part result int_part =
     (if 0 \<le> int_part then
        (if 256 \<le> int_part then U256_MAX
         else
           (let shift = nat int_part; headroom = 256 - bits result
            in if headroom < shift then U256_MAX
               else let r = push_bit shift result in if r = 0 then 1 else r))
      else if int_part \<le> - 256 then 1
      else
        (let shift = nat (- int_part); r = drop_bit shift result
         in if r = 0 then 1 else r))"

definition target_of_exponent :: "nat \<Rightarrow> int \<Rightarrow> nat" where
  "target_of_exponent anchor_target exponent_fp =
     (let int_part = drop_bit FRAC_BITS exponent_fp;
          frac_part = exponent_fp - push_bit FRAC_BITS int_part
      in apply_int_part (scale_anchor anchor_target (nat (frac_factor frac_part))) int_part)"

definition compute_next_target :: "nat \<Rightarrow> int \<Rightarrow> nat \<Rightarrow> nat \<Rightarrow> nat \<Rightarrow> nat option" where
  "compute_next_target anchor_target time_delta height_delta target_block_time halflife =
     (case asert_exponent time_delta height_delta target_block_time halflife of
        None \<Rightarrow> None
      | Some exponent_fp \<Rightarrow> Some (target_of_exponent anchor_target exponent_fp))"

section \<open>The closed form\<close>

definition asert_spec :: "nat \<Rightarrow> int \<Rightarrow> nat" where
  "asert_spec anchor e =
     (let k = e div 65536;
          r = min (anchor * nat (frac_factor (e mod 65536)) div 65536) U256_MAX
      in if 0 \<le> k then min (r * 2 ^ nat k) U256_MAX else max 1 (r div 2 ^ nat (- k)))"

section \<open>The fractional factor\<close>

lemma FRAC_simps [simp]: "FRAC_BITS = 16" "FRAC_ONE = 65536" "nat FRAC_ONE = 65536"
  by (simp_all add: FRAC_BITS_def FRAC_ONE_def)

text \<open>One fixed-point multiplication \<open>a * x / FRAC_ONE\<close> of the polynomial.\<close>

definition fstep :: "int \<Rightarrow> int \<Rightarrow> int" where
  "fstep a x = a * x div 65536"

lemma frac_factor_fstep:
  "frac_factor x = 65536 + fstep 45426 x + fstep (fstep 15736 x) x + fstep (fstep (fstep 3638 x) x) x"
  by (simp only: frac_factor_def fstep_def FRAC_simps Let_def)

lemma fstep_nonneg: "0 \<le> a \<Longrightarrow> 0 \<le> x \<Longrightarrow> 0 \<le> fstep a x"
  by (simp add: fstep_def pos_imp_zdiv_nonneg_iff)

lemma fstep_mono: "0 \<le> a \<Longrightarrow> a \<le> b \<Longrightarrow> 0 \<le> x \<Longrightarrow> x \<le> y \<Longrightarrow> fstep a x \<le> fstep b y"
  unfolding fstep_def by (intro zdiv_mono1 mult_mono) auto

lemma frac_factor_mono:
  assumes "0 \<le> x" "x \<le> y"
  shows "frac_factor x \<le> frac_factor y"
  unfolding frac_factor_fstep
  using assms by (intro add_mono fstep_mono fstep_nonneg) auto

lemma frac_factor_0 [simp]: "frac_factor 0 = 65536"
  by (simp add: frac_factor_def)

lemma frac_factor_one: "frac_factor 65536 = 130336"
  by (simp add: frac_factor_def)

lemma frac_factor_bounds:
  assumes "0 \<le> x" "x < 65536"
  shows "65536 \<le> frac_factor x" "frac_factor x \<le> 130336"
  using frac_factor_mono [of 0 x] frac_factor_mono [of x 65536] assms
  by (simp_all add: frac_factor_one)

lemma frac_factor_nat_bounds:
  "65536 \<le> nat (frac_factor (e mod 65536))" "nat (frac_factor (e mod 65536)) < 131072"
  using frac_factor_bounds [of "e mod 65536"] by simp_all

section \<open>The code computes the closed form\<close>

lemma scale_anchor_eq: "scale_anchor anchor f = min (anchor * f div 65536) U256_MAX"
proof -
  have "anchor * f \<le> U256_MAX \<Longrightarrow> anchor * f div 65536 \<le> U256_MAX"
    by (rule order_trans [OF div_le_dividend])
  then show ?thesis
    by (simp add: scale_anchor_def checked_mul_256 Let_def min_def)
qed

lemma apply_int_part_nonneg:
  assumes r: "0 < r" "r \<le> U256_MAX" and k: "0 \<le> k"
  shows "apply_int_part r k = min (r * 2 ^ nat k) U256_MAX"
proof -
  have b: "bits r \<le> 256"
    using r(2) by (simp only: bits_le_iff power_le_MAX_iff)
  note fits = mult_power_bits_iff [OF b r(1), of "nat k", unfolded power_le_MAX_iff]
  show ?thesis
  proof (cases "nat k \<le> 256 - bits r")
    case True
    have "0 < bits r"
      using r(1) bits_le_iff [of r 0] by (cases "bits r") auto
    with True have "k < 256" by linarith
    with True k r(1) fits show ?thesis
      by (simp add: apply_int_part_def Let_def push_bit_eq_mult)
  next
    case False
    with k fits show ?thesis
      by (simp add: apply_int_part_def Let_def)
  qed
qed

lemma apply_int_part_neg:
  assumes r: "r \<le> U256_MAX" and k: "k < 0"
  shows "apply_int_part r k = max 1 (r div 2 ^ nat (- k))"
proof (cases "k \<le> - 256")
  case True
  have "r < 2 ^ 256" using r by (simp only: power_le_MAX_iff)
  also have "(2::nat) ^ 256 \<le> 2 ^ nat (- k)"
    using True by (intro power_increasing) auto
  finally have "r div 2 ^ nat (- k) = 0" by simp
  with True show ?thesis
    by (simp add: apply_int_part_def)
next
  case False
  with k show ?thesis
    by (auto simp: apply_int_part_def Let_def drop_bit_eq_div max_def)
qed

lemma scaled_pos:
  assumes "0 < anchor"
  shows "1 \<le> min (anchor * nat (frac_factor (e mod 65536)) div 65536) U256_MAX"
proof -
  have "anchor * 65536 div 65536 \<le> anchor * nat (frac_factor (e mod 65536)) div 65536"
    using frac_factor_nat_bounds(1) [of e] by (intro div_le_mono mult_le_mono2)
  with assms have "1 \<le> anchor * nat (frac_factor (e mod 65536)) div 65536"
    by simp
  moreover have "1 \<le> U256_MAX"
    using MAX_pos(4) by linarith
  ultimately show ?thesis by simp
qed

lemma target_of_exponent_eq:
  assumes "0 < anchor"
  shows "target_of_exponent anchor e = asert_spec anchor e"
proof -
  define k where "k = e div 65536"
  define r where "r = min (anchor * nat (frac_factor (e mod 65536)) div 65536) U256_MAX"
  have parts: "drop_bit 16 e = k" "e - push_bit 16 k = e mod 65536"
    by (simp_all add: drop_bit_eq_div push_bit_eq_mult k_def minus_div_mult_eq_mod)
  have "0 < r" "r \<le> U256_MAX"
    using scaled_pos [OF assms, of e] by (auto simp: r_def)
  then have "apply_int_part r k =
      (if 0 \<le> k then min (r * 2 ^ nat k) U256_MAX else max 1 (r div 2 ^ nat (- k)))"
    by (simp add: apply_int_part_nonneg apply_int_part_neg)
  also have "\<dots> = asert_spec anchor e"
    unfolding asert_spec_def Let_def r_def k_def ..
  also have "apply_int_part r k = target_of_exponent anchor e"
    unfolding target_of_exponent_def Let_def FRAC_simps parts scale_anchor_eq r_def ..
  finally show ?thesis .
qed

section \<open>Range and monotonicity of the closed form\<close>

definition clamp_shift :: "nat \<Rightarrow> int \<Rightarrow> nat" where
  "clamp_shift r k = (if 0 \<le> k then min (r * 2 ^ nat k) U256_MAX else max 1 (r div 2 ^ nat (- k)))"

lemma asert_spec_clamp:
  "asert_spec anchor e =
     clamp_shift (min (anchor * nat (frac_factor (e mod 65536)) div 65536) U256_MAX) (e div 65536)"
  unfolding asert_spec_def clamp_shift_def Let_def ..

lemma clamp_range:
  assumes "1 \<le> r" "r \<le> U256_MAX"
  shows "1 \<le> clamp_shift r k" "clamp_shift r k \<le> U256_MAX"
proof -
  have one: "1 \<le> U256_MAX"
    using assms by linarith
  have "1 * 1 \<le> r * 2 ^ m" for m
    by (rule mult_le_mono [OF assms(1)]) simp
  then show "1 \<le> clamp_shift r k"
    using one by (simp add: clamp_shift_def)
  have "r div m \<le> U256_MAX" for m
    using assms(2) by (rule order_trans [OF div_le_dividend])
  then show "clamp_shift r k \<le> U256_MAX"
    using one by (simp add: clamp_shift_def)
qed

lemma asert_spec_range:
  assumes "0 < anchor"
  shows "1 \<le> asert_spec anchor e" "asert_spec anchor e \<le> U256_MAX"
  unfolding asert_spec_clamp by (rule clamp_range [OF scaled_pos [OF assms] min.cobounded2])+

lemma clamp_mono: "r \<le> r' \<Longrightarrow> clamp_shift r k \<le> clamp_shift r' k"
proof -
  assume "r \<le> r'"
  then have "r * m \<le> r' * m" "r div m \<le> r' div m" for m
    by (auto intro: mult_le_mono1 div_le_mono)
  then show ?thesis
    unfolding clamp_shift_def by (simp only: split: if_split) (blast intro: min.mono max.mono order_refl)
qed

lemma clamp_step:
  assumes "r \<le> 2 * a" "1 \<le> a" "a \<le> U256_MAX"
  shows "clamp_shift r k \<le> clamp_shift a (k + 1)"
proof -
  consider "0 \<le> k" | "k = - 1" | "k < - 1" by linarith
  then show ?thesis
  proof cases
    case 1
    then have "r * 2 ^ nat k \<le> a * 2 ^ nat (k + 1)"
      using assms(1) by (simp add: nat_add_distrib)
    with 1 show ?thesis
      by (auto simp: clamp_shift_def intro: min.mono)
  next
    case 2
    have "r div 2 \<le> a" using assms(1) by linarith
    with 2 assms show ?thesis by (simp add: clamp_shift_def)
  next
    case 3
    define m where "m = nat (- (k + 1))"
    have m: "nat (- k) = Suc m" "nat (- (k + 1)) = m"
      using 3 by (auto simp: m_def)
    have "r div 2 ^ Suc m = r div 2 div 2 ^ m"
      by (simp add: div_mult2_eq)
    also have "\<dots> \<le> a div 2 ^ m"
      using assms(1) by (intro div_le_mono) linarith
    finally show ?thesis
      using 3 m by (auto simp: clamp_shift_def)
  qed
qed

lemma clamp_mono_int:
  assumes "1 \<le> a" "a \<le> U256_MAX" "k \<le> k'"
  shows "clamp_shift a k \<le> clamp_shift a k'"
  using assms(3)
proof (induction k' rule: int_ge_induct)
  case (step i)
  then show ?case
    using clamp_step [OF _ assms(1,2), of a i] by simp
qed simp

lemma asert_spec_mono:
  assumes a: "0 < a" "a \<le> U256_MAX" and le: "e \<le> e'"
  shows "asert_spec a e \<le> asert_spec a e'"
proof -
  define r where "r e = min (a * nat (frac_factor (e mod 65536)) div 65536) U256_MAX" for e
  have spec: "asert_spec a e = clamp_shift (r e) (e div 65536)" for e
    unfolding r_def by (rule asert_spec_clamp)
  have a1: "1 \<le> a" using a(1) by linarith
  have "a * nat (frac_factor (e mod 65536)) div 65536 \<le> a * 131072 div 65536"
    using frac_factor_nat_bounds(2) [of e] by (intro div_le_mono mult_le_mono2) linarith
  then have up: "r e \<le> 2 * a" by (simp add: r_def)
  have "a * 65536 div 65536 \<le> a * nat (frac_factor (e' mod 65536)) div 65536"
    using frac_factor_nat_bounds(1) [of e'] by (intro div_le_mono mult_le_mono2)
  with a(2) have low: "a \<le> r e'" by (simp add: r_def)
  show ?thesis
  proof (cases "e div 65536 = e' div 65536")
    case True
    then have "e mod 65536 \<le> e' mod 65536"
      using le by (metis add_le_cancel_left div_mult_mod_eq)
    then have "nat (frac_factor (e mod 65536)) \<le> nat (frac_factor (e' mod 65536))"
      by (intro nat_mono frac_factor_mono) auto
    then have "r e \<le> r e'"
      unfolding r_def by (intro min.mono div_le_mono mult_le_mono2) auto
    then show ?thesis
      by (simp add: spec True clamp_mono)
  next
    case False
    with zdiv_mono1 [OF le, of 65536] have "e div 65536 + 1 \<le> e' div 65536" by linarith
    then have "clamp_shift (r e) (e div 65536) \<le> clamp_shift a (e' div 65536)"
      using clamp_step [OF up a1 a(2)] clamp_mono_int [OF a1 a(2)] order_trans by blast
    also have "\<dots> \<le> clamp_shift (r e') (e' div 65536)"
      by (rule clamp_mono [OF low])
    finally show ?thesis by (simp only: spec)
  qed
qed

lemma asert_spec_doubles:
  assumes "0 \<le> e"
  shows "asert_spec a (e + 65536) = min (2 * asert_spec a e) U256_MAX"
proof -
  have "(e + 65536) div 65536 = e div 65536 + 1" "(e + 65536) mod 65536 = e mod 65536"
    by simp_all
  moreover have "0 \<le> e div 65536" using assms by simp
  moreover have "min (x * (2 * y)) m = min (2 * min (x * y) m) m" for x y m :: nat
    by (simp add: min_def)
  ultimately show ?thesis
    unfolding asert_spec_clamp clamp_shift_def
    by (simp only: nat_add_distrib if_True) (simp add: nat_add_distrib)
qed

lemma asert_spec_0: "0 < a \<Longrightarrow> a \<le> U256_MAX \<Longrightarrow> asert_spec a 0 = a"
  by (simp add: asert_spec_def)

section \<open>The exponent\<close>

lemma sdiv_pos: "0 < (b::int) \<Longrightarrow> a sdiv b = (if 0 \<le> a then a div b else - (- a div b))"
  by (auto simp: signed_divide_int_def sgn_if)

lemma sdiv_mono:
  assumes "0 < (b::int)" "x \<le> y"
  shows "x sdiv b \<le> y sdiv b"
proof -
  have nn: "0 \<le> z \<Longrightarrow> 0 \<le> z div b" for z
    using assms(1) by (simp add: pos_imp_zdiv_nonneg_iff)
  have "x div b \<le> y div b" "- y div b \<le> - x div b"
    using assms by (auto intro: zdiv_mono1)
  then show ?thesis
    using assms(2) nn [of y] nn [of "- x"] by (auto simp: sdiv_pos [OF assms(1)])
qed

definition off_schedule :: "int \<Rightarrow> nat \<Rightarrow> nat \<Rightarrow> int" where
  "off_schedule time_delta height_delta target_block_time =
     time_delta - int (target_block_time * height_delta)"

text \<open>
  The inputs for which no machine operation of the exponent wraps: the ideal time fits in
  64 bits and the time delta is a difference of two 64-bit timestamps.
\<close>

definition asert_inputs_ok :: "int \<Rightarrow> nat \<Rightarrow> nat \<Rightarrow> nat \<Rightarrow> bool" where
  "asert_inputs_ok time_delta height_delta target_block_time halflife \<longleftrightarrow>
     \<bar>time_delta\<bar> < 2 ^ 64 \<and> target_block_time * height_delta < 2 ^ 64 \<and> 0 < halflife"

lemma asert_exponent_eq:
  assumes "asert_inputs_ok td h t hl"
  shows "asert_exponent td h t hl = Some (off_schedule td h t * 65536 sdiv int hl)"
proof -
  have td: "- (2 ^ 64) < td" "td < 2 ^ 64" and ok: "t * h < 2 ^ 64" "0 < hl"
    using assms by (auto simp: asert_inputs_ok_def abs_less_iff)
  have w: "wrapping_mul 64 t h = t * h"
    using ok(1) by (simp only: wrapping_mul_def mod_less)
  define p where "p = int (t * h)"
  have p: "0 \<le> p" "p < 2 ^ 64"
    using ok(1) by (simp_all only: p_def of_nat_0_le_iff) (metis of_nat_less_iff of_nat_numeral of_nat_power)
  have off: "off_schedule td h t = td - p"
    by (simp only: off_schedule_def p_def)
  have "wrap_signed 128 (td - p) = td - p"
    by (rule wrap_signed_id) (use td p in auto)
  moreover have "wrap_signed 128 ((td - p) * 65536) = (td - p) * 65536"
    by (rule wrap_signed_id) (use td p in auto)
  ultimately show ?thesis
    using ok(2) unfolding asert_exponent_def Let_def w off p_def [symmetric] FRAC_simps by simp
qed

lemma compute_next_target_spec:
  assumes "asert_inputs_ok td h t hl" "0 < anchor"
  shows "compute_next_target anchor td h t hl =
    Some (asert_spec anchor (off_schedule td h t * 65536 sdiv int hl))"
  by (simp add: compute_next_target_def asert_exponent_eq [OF assms(1)] target_of_exponent_eq [OF assms(2)])

lemma asert_spec_saturates:
  assumes "0 < anchor" "256 * 65536 \<le> e"
  shows "asert_spec anchor e = U256_MAX"
proof -
  define k where "k = e div 65536"
  define r where "r = min (anchor * nat (frac_factor (e mod 65536)) div 65536) U256_MAX"
  have k: "256 \<le> k"
    using assms(2) unfolding k_def by linarith
  have "0 < r"
    using scaled_pos [OF assms(1), of e] unfolding r_def by simp
  then have "1 * 2 ^ 256 \<le> r * 2 ^ nat k"
    using k by (intro mult_le_mono power_increasing) auto
  then have "U256_MAX \<le> r * 2 ^ nat k"
    unfolding U256_MAX_def by linarith
  then show ?thesis
    using k by (simp only: asert_spec_def Let_def k_def [symmetric] r_def [symmetric]) simp
qed

lemma compute_next_target_total:
  assumes "0 < hl" "0 < anchor"
  shows "\<exists>r. compute_next_target anchor td h t hl = Some r \<and> 1 \<le> r \<and> r \<le> U256_MAX"
proof -
  obtain e where "asert_exponent td h t hl = Some e"
    using assms(1) by (auto simp: asert_exponent_def Let_def)
  then show ?thesis
    using asert_spec_range [OF assms(2)]
    by (simp add: compute_next_target_def target_of_exponent_eq [OF assms(2)])
qed

lemma compute_next_target_mono:
  assumes "asert_inputs_ok td h t hl" "asert_inputs_ok td' h' t hl"
    and "0 < anchor" "anchor \<le> U256_MAX" "td \<le> td'" "h' \<le> h"
  shows "\<exists>r r'. compute_next_target anchor td h t hl = Some r
    \<and> compute_next_target anchor td' h' t hl = Some r' \<and> r \<le> r'"
proof -
  have "int (t * h') \<le> int (t * h)"
    using assms(6) by (simp only: of_nat_le_iff mult_le_mono2)
  then have "off_schedule td h t \<le> off_schedule td' h' t"
    unfolding off_schedule_def using assms(5) by linarith
  then have "off_schedule td h t * 65536 sdiv int hl \<le> off_schedule td' h' t * 65536 sdiv int hl"
    using assms(1) by (intro sdiv_mono) (auto simp: asert_inputs_ok_def)
  then show ?thesis
    using asert_spec_mono [OF assms(3,4)] assms(1-3) by (simp add: compute_next_target_spec)
qed

section \<open>Properties\<close>

text \<open>
  C35: The routine with its 256-bit fast path, its 512-bit fallback and its shift guards
  computes the closed form: the anchor scaled by the fractional factor, shifted by the integer
  part of the fixed-point exponent, and clamped to \<open>[1, U256::MAX]\<close>. It returns for every
  input whose timestamps and ideal time are 64-bit values and whose half-life is not zero.
\<close>

theorem compute_next_target_closed_form:
  assumes "asert_inputs_ok td h t hl" "0 < anchor"
  shows "compute_next_target anchor td h t hl =
    Some (asert_spec anchor (off_schedule td h t * 65536 sdiv int hl))"
  by (rule compute_next_target_spec [OF assms])

theorem compute_next_target_closed_form_witness:
  "compute_next_target 1000000 400 10 20 1800 = Some (asert_spec 1000000 (off_schedule 400 10 20 * 65536 sdiv 1800))
   \<and> asert_inputs_ok 400 10 20 1800"
proof -
  have ok: "asert_inputs_ok 400 10 20 1800" by (simp add: asert_inputs_ok_def)
  show ?thesis
    using ok compute_next_target_closed_form [OF ok, of 1000000] by simp
qed

text \<open>
  A chain exactly on schedule keeps the anchor target, and from there on every further
  half-life behind schedule doubles the target exactly, saturating at \<open>U256::MAX\<close>.
\<close>

theorem compute_next_target_halflife:
  assumes "0 < hl" "0 < anchor" "anchor \<le> U256_MAX" "t * h + (n + 1) * hl < 2 ^ 64"
  shows "compute_next_target anchor (int (t * h)) h t hl = Some anchor
    \<and> (\<forall>r. compute_next_target anchor (int (t * h + n * hl)) h t hl = Some r \<longrightarrow>
        compute_next_target anchor (int (t * h + (n + 1) * hl)) h t hl = Some (min (2 * r) U256_MAX))"
proof -
  have ok: "asert_inputs_ok (int (t * h + m * hl)) h t hl" if "m \<le> n + 1" for m
  proof -
    have "m * hl \<le> (n + 1) * hl" using that by (rule mult_le_mono1)
    then have "t * h + m * hl < 2 ^ 64" using assms(4) by linarith
    moreover have "(2::int) ^ 64 = int (2 ^ 64)" by simp
    ultimately have "int (t * h + m * hl) < 2 ^ 64" by (simp only: of_nat_less_iff)
    then show ?thesis
      using assms(1) \<open>t * h + m * hl < 2 ^ 64\<close> unfolding asert_inputs_ok_def by auto
  qed
  have off: "off_schedule (int (t * h + m * hl)) h t * 65536 sdiv int hl = int m * 65536" for m
  proof -
    have "off_schedule (int (t * h + m * hl)) h t * 65536 = int m * 65536 * int hl"
      by (simp add: off_schedule_def algebra_simps)
    then show ?thesis using assms(1) by (simp add: sdiv_pos)
  qed
  have run: "compute_next_target anchor (int (t * h + m * hl)) h t hl = Some (asert_spec anchor (int m * 65536))"
    if "m \<le> n + 1" for m
    using compute_next_target_spec [OF ok [OF that] assms(2)] by (simp only: off)
  have "compute_next_target anchor (int (t * h)) h t hl = Some anchor"
    using run [of 0] assms(2,3) by (simp add: asert_spec_0)
  moreover have "asert_spec anchor (int (n + 1) * 65536) = min (2 * asert_spec anchor (int n * 65536)) U256_MAX"
    using asert_spec_doubles [of "int n * 65536" anchor] by (simp add: algebra_simps)
  ultimately show ?thesis
    using run [of n] run [of "n + 1"] by simp
qed

theorem compute_next_target_halflife_witness:
  "compute_next_target 1000000 200 10 20 1800 = Some 1000000
   \<and> compute_next_target 1000000 2000 10 20 1800 = Some 2000000"
proof -
  have "compute_next_target 1000000 (int (20 * 10)) 10 20 1800 = Some 1000000
    \<and> (\<forall>r. compute_next_target 1000000 (int (20 * 10 + 0 * 1800)) 10 20 1800 = Some r \<longrightarrow>
        compute_next_target 1000000 (int (20 * 10 + (0 + 1) * 1800)) 10 20 1800 = Some (min (2 * r) U256_MAX))"
    by (rule compute_next_target_halflife) (simp_all add: U256_MAX_def)
  then show ?thesis by (simp add: U256_MAX_def)
qed

end
