(* ===== verification/Difficulty.thy ===== *)
theory Difficulty
  imports Asert
begin

text \<open>
  The difficulty pallet (\<open>pallets/difficulty/src/lib.rs\<close>) and the runtime API that reads it
  (\<open>runtime/src/apis.rs\<close>, \<open>runtime/src/inherent_checks.rs\<close>). The five storage values are the
  record \<open>diff_state\<close>, the three constants of the pallet's \<open>Config\<close> are \<open>diff_config\<close>. A Rust
  panic (a division by zero, the assertion of the genesis build) is the result \<open>None\<close>.

  The machine \<open>chain_step\<close> runs \<open>on_finalize\<close> once per block with the height counting up from
  genesis; the lemmas are about its reachable states: the pallet never panics there, the
  difficulty and the anchor stay in range, and the difficulty a block was verified against is
  the one that its execution stores.
\<close>

section \<open>State and operations\<close>

record diff_config =
  target_block_time :: nat
  halflife :: nat
  break_threshold :: nat

record diff_state =
  current_difficulty :: nat
  anchor_target :: nat
  anchor_timestamp :: nat
  anchor_height :: nat
  last_block_timestamp :: nat

definition genesis_build :: "nat \<Rightarrow> diff_state option" where
  "genesis_build initial_difficulty =
     (if initial_difficulty = 0 then None
      else Some \<lparr> current_difficulty = initial_difficulty,
                  anchor_target = U256_MAX div initial_difficulty,
                  anchor_timestamp = 0, anchor_height = 0, last_block_timestamp = 0 \<rparr>)"

definition on_finalize :: "diff_config \<Rightarrow> nat \<Rightarrow> nat \<Rightarrow> diff_state \<Rightarrow> diff_state option" where
  "on_finalize cfg current_height now_ms s =
     (let now_secs = now_ms div 1000; anchor_ts = anchor_timestamp s in
      if anchor_ts = 0 \<and> 0 < now_secs then
        Some (s \<lparr> anchor_timestamp := now_secs, anchor_height := current_height,
                  last_block_timestamp := now_secs \<rparr>)
      else if current_height \<le> anchor_height s then
        Some (s \<lparr> last_block_timestamp := now_secs \<rparr>)
      else
        (let height_delta = current_height - anchor_height s;
             time_delta = int now_secs - int anchor_ts
         in if anchor_target s = 0 then Some (s \<lparr> last_block_timestamp := now_secs \<rparr>)
            else case compute_next_target (anchor_target s) time_delta height_delta
                        (target_block_time cfg) (halflife cfg) of
              None \<Rightarrow> None
            | Some next_target \<Rightarrow>
                (case checked_div U256_MAX next_target of
                   None \<Rightarrow> None
                 | Some new_difficulty \<Rightarrow>
                     (let s = s \<lparr> current_difficulty := new_difficulty \<rparr>;
                          block_gap = now_secs - last_block_timestamp s;
                          s = (if break_threshold cfg < block_gap
                               then s \<lparr> anchor_target := next_target, anchor_timestamp := now_secs,
                                        anchor_height := current_height \<rparr>
                               else s)
                      in Some (s \<lparr> last_block_timestamp := now_secs \<rparr>)))))"

definition realtime_difficulty :: "diff_config \<Rightarrow> nat \<Rightarrow> diff_state \<Rightarrow> nat \<Rightarrow> nat option" where
  "realtime_difficulty cfg current_height s block_timestamp_secs =
     (let next_height = sat_add 64 current_height 1;
          height_delta = next_height - anchor_height s;
          time_delta = int block_timestamp_secs - int (anchor_timestamp s)
      in case compute_next_target (anchor_target s) time_delta height_delta
                (target_block_time cfg) (halflife cfg) of
           None \<Rightarrow> None
         | Some next_target \<Rightarrow> checked_div U256_MAX next_target)"

definition anchor_params :: "diff_config \<Rightarrow> diff_state \<Rightarrow> nat \<times> nat \<times> nat \<times> nat \<times> nat" where
  "anchor_params cfg s =
     (anchor_target s, anchor_timestamp s, anchor_height s, target_block_time cfg, halflife cfg)"

text \<open>
  The call of a decoded extrinsic, as far as \<open>timestamp_from_inherent\<close> looks at it. The
  decoder of \<open>UncheckedExtrinsic\<close> belongs to the codec library and is an argument.
\<close>

datatype inherent_call = Timestamp_set nat | Other_call

definition timestamp_from_inherent :: "('b list \<Rightarrow> inherent_call option) \<Rightarrow> 'b list \<Rightarrow> nat option" where
  "timestamp_from_inherent decode encoded =
     (case decode encoded of
        None \<Rightarrow> None
      | Some (Timestamp_set now) \<Rightarrow> Some now
      | Some Other_call \<Rightarrow> None)"

text \<open>The outer option is the API's result, the inner one the outcome of the call (\<open>None\<close> a panic).\<close>

definition difficulty_for_block ::
  "('b list \<Rightarrow> inherent_call option) \<Rightarrow> diff_config \<Rightarrow> nat \<Rightarrow> diff_state \<Rightarrow> 'b list \<Rightarrow> nat option option" where
  "difficulty_for_block decode cfg current_height s timestamp_inherent =
     (case timestamp_from_inherent decode timestamp_inherent of
        None \<Rightarrow> None
      | Some now_ms \<Rightarrow> Some (realtime_difficulty cfg current_height s (now_ms div 1000)))"

datatype inherent_error = TooFarInFuture | TooEarly

definition MAX_TIMESTAMP_DRIFT_MS :: nat where
  "MAX_TIMESTAMP_DRIFT_MS = 2000"

text \<open>
  The collection of inherent errors is the type \<open>CheckInherentsResult\<close> of the inherents
  library; its \<open>put_error\<close> is an argument, and as in the code its own result is dropped.
\<close>

definition check_timestamp_drift ::
  "(inherent_error \<Rightarrow> 'r \<Rightarrow> 'r) \<Rightarrow> 'r \<Rightarrow> nat \<Rightarrow> nat \<Rightarrow> nat \<Rightarrow> 'r" where
  "check_timestamp_drift put_error result block_ts_ms node_ts_ms parent_ts_ms =
     (let result = (if wrapping_add 64 node_ts_ms MAX_TIMESTAMP_DRIFT_MS < block_ts_ms
                    then put_error TooFarInFuture result else result)
      in if block_ts_ms < parent_ts_ms then put_error TooEarly result else result)"

section \<open>The machine\<close>

text \<open>
  A configuration as the runtime uses it: the half-life divides, and no ideal time of a
  32-bit height difference leaves 64 bits.
\<close>

definition diff_config_ok :: "diff_config \<Rightarrow> bool" where
  "diff_config_ok cfg \<longleftrightarrow> 0 < halflife cfg \<and> target_block_time cfg \<le> U32_MAX"

definition diff_init :: "nat \<times> diff_state \<Rightarrow> bool" where
  "diff_init hs \<longleftrightarrow> fst hs = 0 \<and> (\<exists>d \<le> U256_MAX. genesis_build d = Some (snd hs))"

text \<open>One block: heights are consecutive 32-bit numbers, the timestamp any 64-bit number.\<close>

inductive chain_step :: "diff_config \<Rightarrow> nat \<times> diff_state \<Rightarrow> nat \<times> diff_state \<Rightarrow> bool"
  for cfg where
  "Suc h \<le> U32_MAX \<Longrightarrow> now_ms \<le> U64_MAX \<Longrightarrow> on_finalize cfg (Suc h) now_ms s = Some s' \<Longrightarrow>
   chain_step cfg (h, s) (Suc h, s')"

definition diff_inv :: "nat \<times> diff_state \<Rightarrow> bool" where
  "diff_inv hs \<longleftrightarrow>
     (let (h, s) = hs in
      1 \<le> anchor_target s \<and> anchor_target s \<le> U256_MAX \<and>
      1 \<le> current_difficulty s \<and> current_difficulty s \<le> U256_MAX \<and>
      anchor_height s \<le> h \<and> h \<le> U32_MAX \<and>
      anchor_timestamp s \<le> U64_MAX \<and> last_block_timestamp s \<le> U64_MAX \<and>
      (anchor_timestamp s = 0 \<longrightarrow> last_block_timestamp s = 0))"

inductive_cases chain_stepE: "chain_step cfg hs hs'"

section \<open>Library\<close>

lemma div_MAX_range: "1 \<le> r \<Longrightarrow> r \<le> U256_MAX \<Longrightarrow> 1 \<le> U256_MAX div r \<and> U256_MAX div r \<le> U256_MAX"
  by (simp add: Suc_le_eq div_greater_zero_iff)

lemma checked_div_pos [simp]: "0 < r \<Longrightarrow> checked_div a r = Some (a div r)"
  by (simp add: checked_div_def)

lemma genesis_inv: "genesis_build d = Some s \<Longrightarrow> d \<le> U256_MAX \<Longrightarrow> diff_inv (0, s)"
  using div_MAX_range [of d] by (auto simp: genesis_build_def diff_inv_def split: if_splits)

lemma diff_inv_target:
  assumes "diff_inv (h, s)" "diff_config_ok cfg"
  obtains r where "compute_next_target (anchor_target s) td hgt (target_block_time cfg) (halflife cfg) = Some r"
    "1 \<le> r" "r \<le> U256_MAX"
  using compute_next_target_total [of "halflife cfg" "anchor_target s" td hgt "target_block_time cfg"] assms
  by (auto simp: diff_inv_def diff_config_ok_def)

lemma on_finalize_inv:
  assumes inv: "diff_inv (h, s)" and cfg: "diff_config_ok cfg" and "Suc h \<le> U32_MAX" "now_ms \<le> U64_MAX"
  shows "\<exists>s'. on_finalize cfg (Suc h) now_ms s = Some s' \<and> diff_inv (Suc h, s')"
proof -
  obtain r where "compute_next_target (anchor_target s) (int (now_ms div 1000) - int (anchor_timestamp s))
      (Suc h - anchor_height s) (target_block_time cfg) (halflife cfg) = Some r" "1 \<le> r" "r \<le> U256_MAX"
    using diff_inv_target [OF inv cfg] by blast
  moreover have "now_ms div 1000 \<le> U64_MAX"
    using assms(4) by (rule order_trans [OF div_le_dividend])
  ultimately show ?thesis
    using inv assms(3) div_MAX_range [of r]
    by (auto simp: on_finalize_def diff_inv_def Let_def)
qed

lemma chain_step_inv: "diff_inv hs \<Longrightarrow> diff_config_ok cfg \<Longrightarrow> chain_step cfg hs hs' \<Longrightarrow> diff_inv hs'"
  by (elim chain_stepE) (metis on_finalize_inv option.inject)

text \<open>The pallet as an instance of the invariant machine, one for every usable configuration.\<close>

definition diff_step :: "nat \<times> diff_state \<Rightarrow> nat \<times> diff_state \<Rightarrow> bool" where
  "diff_step hs hs' \<longleftrightarrow> (\<exists>cfg. diff_config_ok cfg \<and> chain_step cfg hs hs')"

interpretation difficulty_machine: invariant_system diff_init diff_step diff_inv
  by unfold_locales (auto simp: diff_init_def diff_step_def intro: genesis_inv chain_step_inv)

lemma chain_reachable_inv:
  assumes "reachable diff_init (chain_step cfg) hs" "diff_config_ok cfg"
  shows "diff_inv hs"
  using assms
  by (auto intro!: difficulty_machine.reachable_inv elim!: reachable_mono simp: diff_step_def)

definition chain_exponent :: "diff_config \<Rightarrow> nat \<Rightarrow> diff_state \<Rightarrow> nat \<Rightarrow> int" where
  "chain_exponent cfg h s ts =
     off_schedule (int ts - int (anchor_timestamp s)) (h - anchor_height s) (target_block_time cfg)
       * 65536 sdiv int (halflife cfg)"

lemma chain_inputs_ok:
  assumes "diff_inv (h, s)" "diff_config_ok cfg" "ts \<le> U64_MAX" "h' \<le> Suc h"
  shows "asert_inputs_ok (int ts - int (anchor_timestamp s)) (h' - anchor_height s)
    (target_block_time cfg) (halflife cfg)"
proof -
  have "int ts < 2 ^ 64" "int (anchor_timestamp s) < 2 ^ 64"
    using assms(1,3) by (auto simp: diff_inv_def U64_MAX_def)
  then have "\<bar>int ts - int (anchor_timestamp s)\<bar> < 2 ^ 64" by auto
  moreover have "target_block_time cfg * (h' - anchor_height s) \<le> U32_MAX * Suc U32_MAX"
    using assms(1,2,4) by (intro mult_le_mono) (auto simp: diff_inv_def diff_config_ok_def)
  then have "target_block_time cfg * (h' - anchor_height s) < 2 ^ 64"
    by (rule le_less_trans) (simp add: U32_MAX_def)
  ultimately show ?thesis
    using assms(2) by (simp only: asert_inputs_ok_def diff_config_ok_def)
qed

lemma chain_target:
  assumes "diff_inv (h, s)" "diff_config_ok cfg" "ts \<le> U64_MAX" "h' \<le> Suc h"
  shows "compute_next_target (anchor_target s) (int ts - int (anchor_timestamp s)) (h' - anchor_height s)
    (target_block_time cfg) (halflife cfg) = Some (asert_spec (anchor_target s) (chain_exponent cfg h' s ts))"
  unfolding chain_exponent_def
  by (rule compute_next_target_spec [OF chain_inputs_ok [OF assms]]) (use assms(1) in \<open>simp add: diff_inv_def\<close>)

lemma next_height: "h \<le> U32_MAX \<Longrightarrow> sat_add 64 h (Suc 0) = Suc h"
  by (simp add: sat_add_64 MAX_defs)

lemma realtime_closed:
  assumes "diff_inv (h, s)" "diff_config_ok cfg" "ts \<le> U64_MAX"
  shows "realtime_difficulty cfg h s ts =
    Some (U256_MAX div asert_spec (anchor_target s) (chain_exponent cfg (Suc h) s ts))"
proof -
  have "0 < asert_spec (anchor_target s) (chain_exponent cfg (Suc h) s ts)"
    using asert_spec_range [of "anchor_target s"] assms(1) by (simp add: diff_inv_def Suc_le_eq)
  then show ?thesis
    using assms(1) chain_target [OF assms le_refl]
    by (simp add: realtime_difficulty_def next_height diff_inv_def)
qed

text \<open>What \<open>on_finalize\<close> does once the chain has an anchor.\<close>

lemma on_finalize_anchored:
  assumes "diff_inv (h, s)" "diff_config_ok cfg" "now_ms \<le> U64_MAX" "0 < anchor_timestamp s"
    and "now = now_ms div 1000" "r = asert_spec (anchor_target s) (chain_exponent cfg (Suc h) s now)"
  shows "on_finalize cfg (Suc h) now_ms s = Some
    (if last_block_timestamp s + break_threshold cfg < now
     then \<lparr> current_difficulty = U256_MAX div r, anchor_target = r, anchor_timestamp = now,
             anchor_height = Suc h, last_block_timestamp = now \<rparr>
     else s \<lparr> current_difficulty := U256_MAX div r, last_block_timestamp := now \<rparr>)"
proof -
  have now: "now \<le> U64_MAX"
    using assms(3) unfolding assms(5) by (rule order_trans [OF div_le_dividend])
  have "0 < r"
    using asert_spec_range [of "anchor_target s"] assms(1,6) by (simp add: diff_inv_def Suc_le_eq)
  then show ?thesis
    using assms(1,4) chain_target [OF assms(1,2) now le_refl]
    by (auto simp: on_finalize_def diff_inv_def assms(5,6)[symmetric] Let_def)
qed

lemma realtime_mono:
  assumes "diff_inv (h, s)" "diff_config_ok cfg" "ts \<le> ts'" "ts' \<le> U64_MAX"
  shows "\<exists>d d'. realtime_difficulty cfg h s ts = Some d \<and> realtime_difficulty cfg h s ts' = Some d' \<and> d' \<le> d"
proof -
  have "chain_exponent cfg (Suc h) s ts \<le> chain_exponent cfg (Suc h) s ts'"
    using assms(2,3) unfolding chain_exponent_def off_schedule_def diff_config_ok_def
    by (intro sdiv_mono) auto
  then have "asert_spec (anchor_target s) (chain_exponent cfg (Suc h) s ts)
      \<le> asert_spec (anchor_target s) (chain_exponent cfg (Suc h) s ts')"
    using assms(1) by (intro asert_spec_mono) (auto simp: diff_inv_def)
  moreover have "0 < asert_spec (anchor_target s) (chain_exponent cfg (Suc h) s ts)"
    using asert_spec_range [of "anchor_target s"] assms(1) by (simp add: diff_inv_def Suc_le_eq)
  ultimately show ?thesis
    using assms realtime_closed [OF assms(1,2)] by (simp add: div_le_mono2)
qed

section \<open>Properties\<close>

text \<open>The constants the main runtime plugs in (\<open>runtime/src/configs/mod.rs\<close>).\<close>

definition runtime_diff_config :: diff_config where
  "runtime_diff_config = \<lparr> target_block_time = 10, halflife = 1800, break_threshold = 1800 \<rparr>"

definition sample_genesis :: diff_state where
  "sample_genesis = the (genesis_build 1000000)"

lemma runtime_diff_config_ok: "diff_config_ok runtime_diff_config"
  by (simp add: diff_config_ok_def runtime_diff_config_def U32_MAX_def)

lemma sample_reachable: "reachable diff_init (chain_step runtime_diff_config) (0, sample_genesis)"
  by (rule reach_init) (auto simp: diff_init_def sample_genesis_def genesis_build_def U256_MAX_def intro!: exI [of _ 1000000])

text \<open>State after the first block, which becomes the anchor.\<close>

definition sample_block1 :: diff_state where
  "sample_block1 = the (on_finalize runtime_diff_config 1 1700000000000 sample_genesis)"

lemma sample_block1_reachable: "reachable diff_init (chain_step runtime_diff_config) (1, sample_block1)"
  "anchor_timestamp sample_block1 = 1700000000" "last_block_timestamp sample_block1 = 1700000000"
proof -
  have step: "on_finalize runtime_diff_config (Suc 0) 1700000000000 sample_genesis = Some sample_block1"
    by (simp add: on_finalize_def sample_block1_def sample_genesis_def genesis_build_def)
  then have "chain_step runtime_diff_config (0, sample_genesis) (Suc 0, sample_block1)"
    by (intro chain_step.intros) (auto simp: MAX_defs)
  then show "reachable diff_init (chain_step runtime_diff_config) (1, sample_block1)"
    using reach_step [OF sample_reachable] by simp
  show "anchor_timestamp sample_block1 = 1700000000" "last_block_timestamp sample_block1 = 1700000000"
    by (simp_all add: on_finalize_def sample_block1_def sample_genesis_def genesis_build_def)
qed

lemma sample_bounds: "1700000040000 \<le> U64_MAX" "1700003600000 \<le> U64_MAX" "Suc (Suc 0) \<le> U32_MAX"
  by (simp_all add: MAX_defs)

text \<open>
  C4: In every state the pallet can reach from genesis, the block hook returns for every next
  block, the stored difficulty and the anchor target stay in \<open>[1, U256::MAX]\<close>, and the runtime
  API gives a non-zero difficulty for every timestamp: no division of the pallet panics.
\<close>

theorem difficulty_never_panics:
  assumes "diff_config_ok cfg" "reachable diff_init (chain_step cfg) (h, s)"
    and "Suc h \<le> U32_MAX" "now_ms \<le> U64_MAX"
  shows "1 \<le> current_difficulty s \<and> current_difficulty s \<le> U256_MAX
    \<and> 1 \<le> anchor_target s \<and> anchor_target s \<le> U256_MAX
    \<and> (\<exists>s'. on_finalize cfg (Suc h) now_ms s = Some s')
    \<and> (\<exists>d. realtime_difficulty cfg h s (now_ms div 1000) = Some d \<and> 1 \<le> d \<and> d \<le> U256_MAX)"
proof -
  have inv: "diff_inv (h, s)"
    using chain_reachable_inv assms(1,2) by blast
  have now: "now_ms div 1000 \<le> U64_MAX"
    using assms(4) by (rule order_trans [OF div_le_dividend])
  have "\<exists>d. realtime_difficulty cfg h s (now_ms div 1000) = Some d \<and> 1 \<le> d \<and> d \<le> U256_MAX"
    unfolding realtime_closed [OF inv assms(1) now]
    using asert_spec_range [of "anchor_target s"] inv div_MAX_range by (simp add: diff_inv_def)
  then show ?thesis
    using on_finalize_inv [OF inv assms(1,3,4)] inv by (auto simp: diff_inv_def)
qed

theorem difficulty_never_panics_witness:
  "(\<exists>s'. on_finalize runtime_diff_config (Suc 1) 1700000040000 sample_block1 = Some s')
   \<and> (\<exists>d. realtime_difficulty runtime_diff_config 1 sample_block1 (1700000040000 div 1000) = Some d \<and> 1 \<le> d)"
  using difficulty_never_panics [OF runtime_diff_config_ok sample_block1_reachable(1), of 1700000040000]
    sample_bounds by auto

text \<open>
  C7: Once the chain has an anchor, the difficulty that importing nodes ask the parent state
  for, from the timestamp inherent of a block, is exactly the difficulty that executing the
  block stores.
\<close>

theorem verified_difficulty_is_stored:
  assumes "diff_config_ok cfg" "reachable diff_init (chain_step cfg) (h, s)" "0 < anchor_timestamp s"
    and "now_ms \<le> U64_MAX" "decode inherent = Some (Timestamp_set now_ms)"
    and "on_finalize cfg (Suc h) now_ms s = Some s'"
  shows "difficulty_for_block decode cfg h s inherent = Some (Some (current_difficulty s'))"
proof -
  have inv: "diff_inv (h, s)"
    using chain_reachable_inv assms(1,2) by blast
  have now: "now_ms div 1000 \<le> U64_MAX"
    using assms(4) by (rule order_trans [OF div_le_dividend])
  show ?thesis
    using assms(6) on_finalize_anchored [OF inv assms(1,4,3) refl refl] realtime_closed [OF inv assms(1) now]
    by (auto simp: difficulty_for_block_def timestamp_from_inherent_def assms(5) split: if_splits)
qed

theorem verified_difficulty_is_stored_witness:
  "\<exists>s'. on_finalize runtime_diff_config (Suc 1) 1700000040000 sample_block1 = Some s' \<and>
    difficulty_for_block (\<lambda>b. if b = [3, 11] then Some (Timestamp_set 1700000040000) else None)
      runtime_diff_config 1 sample_block1 [3::nat, 11] = Some (Some (current_difficulty s'))"
proof -
  have inv: "diff_inv (1, sample_block1)"
    using chain_reachable_inv sample_block1_reachable(1) runtime_diff_config_ok by blast
  obtain s' where s': "on_finalize runtime_diff_config (Suc 1) 1700000040000 sample_block1 = Some s'"
    using on_finalize_inv [OF inv runtime_diff_config_ok, of 1700000040000] sample_bounds by auto
  have "difficulty_for_block (\<lambda>b. if b = [3, 11] then Some (Timestamp_set 1700000040000) else None)
      runtime_diff_config 1 sample_block1 [3::nat, 11] = Some (Some (current_difficulty s'))"
    by (rule verified_difficulty_is_stored [OF runtime_diff_config_ok sample_block1_reachable(1) _ _ _ s'])
       (simp_all add: sample_block1_reachable sample_bounds)
  then show ?thesis
    using s' by blast
qed

text \<open>
  For a fixed parent, a later timestamp never raises the difficulty a block has to meet:
  a miner who waits is never worse off, and one who back-dates its block never gains.
\<close>

theorem difficulty_antitone_in_time:
  assumes "diff_config_ok cfg" "reachable diff_init (chain_step cfg) (h, s)" "ts \<le> ts'" "ts' \<le> U64_MAX"
  shows "\<exists>d d'. realtime_difficulty cfg h s ts = Some d \<and> realtime_difficulty cfg h s ts' = Some d' \<and> d' \<le> d"
  using realtime_mono [OF _ assms(1,3,4)] chain_reachable_inv [OF assms(2,1)] by blast

theorem difficulty_antitone_in_time_witness:
  "\<exists>d d'. realtime_difficulty runtime_diff_config 1 sample_block1 1700000010 = Some d
    \<and> realtime_difficulty runtime_diff_config 1 sample_block1 1700000040 = Some d' \<and> d' \<le> d"
  by (rule difficulty_antitone_in_time [OF runtime_diff_config_ok sample_block1_reachable(1)])
     (simp_all add: U64_MAX_def)

text \<open>
  A block that follows its parent by more than the break threshold becomes the new
  anchor with its own target, and the outage is not paid back: a next block exactly one
  target block time later has the same difficulty. Without such a gap the anchor stays.
\<close>

theorem interruption_reanchors:
  assumes "diff_config_ok cfg" "reachable diff_init (chain_step cfg) (h, s)" "0 < anchor_timestamp s"
    and "Suc h \<le> U32_MAX" "now_ms \<le> U64_MAX" "now_ms div 1000 + target_block_time cfg \<le> U64_MAX"
    and "on_finalize cfg (Suc h) now_ms s = Some s'"
  shows "if break_threshold cfg < now_ms div 1000 - last_block_timestamp s
    then anchor_height s' = Suc h \<and> anchor_timestamp s' = now_ms div 1000
      \<and> realtime_difficulty cfg (Suc h) s' (now_ms div 1000 + target_block_time cfg) = Some (current_difficulty s')
    else anchor_height s' = anchor_height s \<and> anchor_timestamp s' = anchor_timestamp s
      \<and> anchor_target s' = anchor_target s"
proof -
  have inv: "diff_inv (h, s)"
    using chain_reachable_inv assms(1,2) by blast
  have inv': "diff_inv (Suc h, s')"
    using on_finalize_inv [OF inv assms(1,4,5)] assms(7) by auto
  note run = on_finalize_anchored [OF inv assms(1,5,3) refl refl, unfolded assms(7) option.inject]
  show ?thesis
  proof (cases "last_block_timestamp s + break_threshold cfg < now_ms div 1000")
    case True
    then have s': "anchor_timestamp s' = now_ms div 1000" "anchor_height s' = Suc h"
      "current_difficulty s' = U256_MAX div anchor_target s'"
      using run by simp_all
    have e: "chain_exponent cfg (Suc (Suc h)) s' (now_ms div 1000 + target_block_time cfg) = 0"
      using assms(1) by (simp add: chain_exponent_def off_schedule_def s' sdiv_pos diff_config_ok_def)
    have "realtime_difficulty cfg (Suc h) s' (now_ms div 1000 + target_block_time cfg)
        = Some (current_difficulty s')"
      using inv' by (simp add: realtime_closed [OF inv' assms(1,6)] e s'(3) asert_spec_0 diff_inv_def)
    then show ?thesis
      using True s' by auto
  next
    case False
    then show ?thesis using run by auto
  qed
qed

theorem interruption_reanchors_witness:
  "\<exists>s'. on_finalize runtime_diff_config (Suc 1) 1700003600000 sample_block1 = Some s'
    \<and> anchor_height s' = 2 \<and> realtime_difficulty runtime_diff_config (Suc 1) s' 1700003610 = Some (current_difficulty s')"
proof -
  have inv: "diff_inv (1, sample_block1)"
    using chain_reachable_inv sample_block1_reachable(1) runtime_diff_config_ok by blast
  obtain s' where s': "on_finalize runtime_diff_config (Suc 1) 1700003600000 sample_block1 = Some s'"
    using on_finalize_inv [OF inv runtime_diff_config_ok, of 1700003600000] sample_bounds by auto
  then show ?thesis
    using interruption_reanchors [OF runtime_diff_config_ok sample_block1_reachable(1) _ _ _ _ s']
    by (simp add: sample_block1_reachable(2,3) runtime_diff_config_def U64_MAX_def U32_MAX_def)
qed

text \<open>
  C36: The first block becomes the anchor and leaves the initial difficulty in storage, but the
  difficulty it has to meet is 1 for every wall-clock timestamp: at genesis the anchor
  timestamp is zero, so the exponent is more than 256 half-lives ahead of schedule.
\<close>

theorem first_block_difficulty:
  assumes "diff_config_ok cfg" "genesis_build d = Some s" "d \<le> U256_MAX" "now_ms \<le> U64_MAX"
    and "target_block_time cfg + 256 * halflife cfg \<le> now_ms div 1000"
  shows "realtime_difficulty cfg 0 s (now_ms div 1000) = Some 1
    \<and> on_finalize cfg 1 now_ms s = Some (s \<lparr> anchor_timestamp := now_ms div 1000, anchor_height := 1,
        last_block_timestamp := now_ms div 1000 \<rparr>)
    \<and> current_difficulty s = d"
proof -
  have inv: "diff_inv (0, s)"
    using assms(2,3) by (rule genesis_inv)
  have s: "anchor_timestamp s = 0" "anchor_height s = 0" "current_difficulty s = d"
    using assms(2) by (auto simp: genesis_build_def split: if_splits)
  have hl: "0 < halflife cfg"
    using assms(1) by (simp add: diff_config_ok_def)
  have now: "now_ms div 1000 \<le> U64_MAX"
    using assms(4) by (rule order_trans [OF div_le_dividend])
  define N where "N = now_ms div 1000"
  have "int (target_block_time cfg + 256 * halflife cfg) \<le> int N"
    using assms(5) unfolding N_def of_nat_le_iff .
  then have "256 * 65536 * int (halflife cfg) \<le> (int N - int (target_block_time cfg)) * 65536"
    by simp
  then have "256 * 65536 * int (halflife cfg) sdiv int (halflife cfg) \<le> chain_exponent cfg 1 s N"
    unfolding chain_exponent_def off_schedule_def s using hl by (intro sdiv_mono) simp_all
  then have "256 * 65536 \<le> chain_exponent cfg 1 s (now_ms div 1000)"
    using hl by (simp add: sdiv_pos N_def)
  then have "asert_spec (anchor_target s) (chain_exponent cfg 1 s (now_ms div 1000)) = U256_MAX"
    using inv by (intro asert_spec_saturates) (auto simp: diff_inv_def)
  then have "realtime_difficulty cfg 0 s (now_ms div 1000) = Some 1"
    using realtime_closed [OF inv assms(1) now] by simp
  then show ?thesis
    using assms(5) hl s by (simp add: on_finalize_def Let_def)
qed

theorem first_block_difficulty_witness:
  "realtime_difficulty runtime_diff_config 0 sample_genesis (1700000000000 div 1000) = Some 1
   \<and> current_difficulty sample_genesis = 1000000"
proof -
  have "genesis_build 1000000 = Some sample_genesis"
    by (simp add: sample_genesis_def genesis_build_def)
  then show ?thesis
    using first_block_difficulty [OF runtime_diff_config_ok, of 1000000 sample_genesis 1700000000000]
    by (simp add: runtime_diff_config_def MAX_defs)
qed

end
