(* ===== verification/Genesis.thy ===== *)
theory Genesis
  imports Governance Difficulty Reward Fees Erc20 ProxyCode EvmClaims
begin

text \<open>
  The genesis presets (\<open>runtime/src/genesis_config_presets.rs\<close>) and the chain id pallet
  (\<open>runtime/src/configs/evm.rs\<close>). The development keys of the keyring, the treasury account and the
  JSON encoder belong to libraries and are arguments; 32-byte literals are their big-endian numbers.
  The lemmas run the genesis builds of the pallets on the presets.
\<close>

record keyring =
  key_accounts :: "account list"
  alice :: account
  alice_grandpa :: bytes
  alice_im_online :: bytes
  treasury_account :: account

definition GENESIS_TREASURY_ISSUANCE :: nat where "GENESIS_TREASURY_ISSUANCE = 550000000 * UNIT"
definition GENESIS_AIRDROP_ISSUANCE :: nat where "GENESIS_AIRDROP_ISSUANCE = 50000000 * UNIT"
definition INITIAL_DIFFICULTY :: nat where "INITIAL_DIFFICULTY = 1000"
definition MAIN_INITIAL_DIFFICULTY :: nat where "MAIN_INITIAL_DIFFICULTY = 1000000"
definition DEV_ACCOUNT_BALANCE :: nat where "DEV_ACCOUNT_BALANCE = 1000000 * UNIT"
definition DEV_CHAIN_ID :: nat where "DEV_CHAIN_ID = 320262"
definition TEST_EVM_CHAIN_ID :: nat where "TEST_EVM_CHAIN_ID = 320261"
definition MAIN_EVM_CHAIN_ID :: nat where "MAIN_EVM_CHAIN_ID = 32026"

definition DEV_EVM_ACCOUNTS :: "h160 list" where
  "DEV_EVM_ACCOUNTS = map (be_bytes 20)
    [0xf24ff3a9cf04c71dbc94d0b566f7a27b94566cac,
     0x3cd0a705a2dc65e5b1e1205896baa2be8a07c6e0,
     0x798d4ba9baf0064ec19eb4f0a1a45785ae9d6dfc,
     0x773539d4ac0e786233d90a233654ccee26a613d9,
     0xff64d3f6efe2317ee2807d223a0bdc4c0c49dfdb,
     0xc0f0f4ab324c46e55d02d0033343b4be8a55532d]"

type_synonym genesis_validator = "account \<times> bytes \<times> bytes"

definition dev_validators :: "keyring \<Rightarrow> genesis_validator list" where
  "dev_validators k = [(alice k, alice_grandpa k, alice_im_online k)]"

definition testnet_validators :: "genesis_validator list" where
  "testnet_validators =
    [(be_bytes 32 0xd691b51d8e033fee40766cd7ed830a953689a128aa76a084adcfe85ce169b251,
      be_bytes 32 0x963234b3d31612fe465adf6089b9e6cda6fa2e9489f0bc39fe5cf2cbe53525ad,
      be_bytes 32 0x62ed90b1060d4acc665e1bca4d80a2c646dd2160e5252f3ca7c69485768b3a17)]"

definition live_validators :: "genesis_validator list" where
  "live_validators =
    [(be_bytes 32 0x0c75ace277b402399cf8fb811b871169e5d675f9f7c5c9a72a72c4bb8044d917,
      be_bytes 32 0x442e9503c1fc1289fa31770fd14735c6c109ee72eec64aa7af63fe200dfcca2c,
      be_bytes 32 0x001ae5824a816a9f2e6b8758d906b624f66a835fd1473f93a8f4cb0057ed6558),
     (be_bytes 32 0x0c75ace1a6f6b7857e03f08e170590ed34fbded0b415d37de2dda6c2fa2bf85d,
      be_bytes 32 0x1e2de688a48e6601f348d2a96e5f28b760e1b0a3f5437db5600d6d8fb4f59c15,
      be_bytes 32 0x9a6a8618d85624e1bc9bc28f02b7b2911d310881b5a7e59da739fcf4b0b8c02c),
     (be_bytes 32 0x0c75ace1f15ade9f7c63fbe5cf37982d9699a2667e14c789f37b5b720cba8e10,
      be_bytes 32 0x2fb4a53bcbc662cf9fbf572644fe8cb510259bea5e30614c2349da84bf6e8731,
      be_bytes 32 0x18ad57728b13145ade005d1320dc17e66c6d79a1ce438697428766e15972fa5b),
     (be_bytes 32 0x0c75ace1f34508360008ad6b21df5f69412786019ce84847c8609f239e4d6123,
      be_bytes 32 0xb55955ce16778ab577f80af54d4e5258d57dd674fc9f64fd782fae9512e9f954,
      be_bytes 32 0xb2d1964319a98bb8d621758947737db7425dca32a83aeb2055799e6b4a73ed49)]"

definition dev_balances :: "keyring \<Rightarrow> (account \<times> nat) list" where
  "dev_balances k =
     map (\<lambda>who. (who, DEV_ACCOUNT_BALANCE)) (key_accounts k)
     @ [(treasury_account k, GENESIS_TREASURY_ISSUANCE)]
     @ map (\<lambda>address. (revive_account address, DEV_ACCOUNT_BALANCE)) DEV_EVM_ACCOUNTS"

definition live_balances :: "keyring \<Rightarrow> (account \<times> nat) list" where
  "live_balances k =
    [(treasury_account k, GENESIS_TREASURY_ISSUANCE),
     (be_bytes 32 0x721bc027868036fd2aecafd08b6942f60da6070992a2564822ee3b3307a5ca5b, GENESIS_AIRDROP_ISSUANCE)]"

definition dev_registrars :: "keyring \<Rightarrow> account list" where
  "dev_registrars k = [alice k]"

definition live_registrars :: "account list" where
  "live_registrars = [be_bytes 32 0xe02f0d696b3b9eecad3e7bf0e651a7c4d8ec8925a8ae9662a268655d1da26546]"

definition PRIME :: account where
  "PRIME = be_bytes 32 0xd23460fba7462ff9493b18c9974274af46e6c23ac219cfb0f38930b36275576a"

record genesis_contract =
  gc_address :: h160
  gc_balance :: nat
  gc_nonce :: nat
  gc_code :: bytes

record genesis_config =
  gen_balances :: "(account \<times> nat) list"
  gen_prime_key :: "account option"
  gen_registrars :: "account list"
  gen_difficulty :: nat
  gen_session_keys :: "(account \<times> account \<times> bytes \<times> bytes) list"
  gen_validators :: "account list"
  gen_multiplier :: nat
  gen_chain_id :: nat
  gen_contracts :: "genesis_contract list"

definition genesis_patch ::
  "bytes \<Rightarrow> (account \<times> nat) list \<Rightarrow> account option \<Rightarrow> account list \<Rightarrow> genesis_validator list \<Rightarrow> nat \<Rightarrow> nat \<Rightarrow> genesis_config" where
  "genesis_patch token_proxy balances prime_key registrars validators chain_id initial_difficulty =
     \<lparr> gen_balances = balances, gen_prime_key = prime_key, gen_registrars = registrars,
       gen_difficulty = initial_difficulty,
       gen_session_keys = map (\<lambda>(who, grandpa, im_online). (who, who, grandpa, im_online)) validators,
       gen_validators = map fst validators,
       gen_multiplier = fx_integer FEE_ANCHOR, gen_chain_id = chain_id,
       gen_contracts = [\<lparr> gc_address = ADDRESS, gc_balance = 0, gc_nonce = 0, gc_code = token_proxy \<rparr>] \<rparr>"

definition development_config_genesis :: "keyring \<Rightarrow> bytes \<Rightarrow> genesis_config" where
  "development_config_genesis k proxy =
     genesis_patch proxy (dev_balances k) (Some (alice k)) (dev_registrars k) (dev_validators k) DEV_CHAIN_ID INITIAL_DIFFICULTY"

definition local_config_genesis :: "keyring \<Rightarrow> bytes \<Rightarrow> genesis_config" where
  "local_config_genesis k proxy =
     genesis_patch proxy (dev_balances k) (Some (alice k)) (dev_registrars k) (dev_validators k) DEV_CHAIN_ID INITIAL_DIFFICULTY"

definition integration_config_genesis :: "keyring \<Rightarrow> bytes \<Rightarrow> genesis_config" where
  "integration_config_genesis k proxy =
     genesis_patch proxy (dev_balances k) (Some (alice k)) (dev_registrars k) (dev_validators k) DEV_CHAIN_ID INITIAL_DIFFICULTY"

definition testnet_config_genesis :: "keyring \<Rightarrow> bytes \<Rightarrow> genesis_config" where
  "testnet_config_genesis k proxy =
     genesis_patch proxy (live_balances k) (Some PRIME) live_registrars testnet_validators TEST_EVM_CHAIN_ID INITIAL_DIFFICULTY"

definition mainnet_config_genesis :: "keyring \<Rightarrow> bytes \<Rightarrow> genesis_config" where
  "mainnet_config_genesis k proxy =
     genesis_patch proxy (live_balances k) (Some PRIME) live_registrars live_validators MAIN_EVM_CHAIN_ID MAIN_INITIAL_DIFFICULTY"

definition get_preset ::
  "(string \<times> string) \<Rightarrow> (genesis_config \<Rightarrow> bytes) \<Rightarrow> keyring \<Rightarrow> bytes \<Rightarrow> string \<Rightarrow> bytes option" where
  "get_preset lib_names encode k proxy preset =
     map_option encode
      (if preset = fst lib_names then Some (development_config_genesis k proxy)
       else if preset = snd lib_names then Some (local_config_genesis k proxy)
       else if preset = ''integration'' then Some (integration_config_genesis k proxy)
       else if preset = ''testnet'' then Some (testnet_config_genesis k proxy)
       else if preset = ''mainnet'' then Some (mainnet_config_genesis k proxy)
       else None)"

definition preset_names :: "string \<times> string \<Rightarrow> string list" where
  "preset_names lib_names = [fst lib_names, snd lib_names, ''integration'', ''testnet'', ''mainnet'']"

text \<open>The chain id: the default of the storage value, and what the genesis build writes.\<close>

definition evm_chain_id :: "nat option \<Rightarrow> nat" where
  "evm_chain_id stored = (case stored of Some n \<Rightarrow> n | None \<Rightarrow> DEV_CHAIN_ID)"

definition chain_id_genesis :: "genesis_config \<Rightarrow> nat option" where
  "chain_id_genesis g = Some (gen_chain_id g)"

section \<open>Lemmas\<close>

lemma preset_listed: "preset \<in> set (preset_names ns) \<longleftrightarrow> get_preset ns encode k proxy preset \<noteq> None"
  by (auto simp: preset_names_def get_preset_def)

lemma vgenesis_loop_distinct:
  assumes "distinct ws" "\<forall>w \<in> set ws. ValidatorLocks s w = None" "length active + length ws \<le> MaxValidators cfg"
  shows "\<exists>s'. vgenesis_loop cfg ws (s, active) = Some (s', active @ ws)
    \<and> (\<forall>w \<in> set ws. is_active s' w \<and> w \<in> StakeExemptAccounts s')
    \<and> (\<forall>w. w \<notin> set ws \<longrightarrow> ValidatorLocks s' w = ValidatorLocks s w)
    \<and> StakeExemptAccounts s \<subseteq> StakeExemptAccounts s'"
  using assms
proof (induction ws arbitrary: s active)
  case (Cons w ws)
  let ?s = "s \<lparr> ValidatorLocks := (ValidatorLocks s)(w \<mapsto>
      \<lparr> amount = 0, lock_block = 0, expiry_block = sat_add 32 0 (LockDuration cfg), status = Active \<rparr>),
      StakeExemptAccounts := insert w (StakeExemptAccounts s) \<rparr>"
  have one: "vgenesis_one cfg w (s, active) = Some (?s, active @ [w])"
    using Cons.prems by (simp add: vgenesis_one_def bv_try_push_def Let_def)
  have "distinct ws" "\<forall>x \<in> set ws. ValidatorLocks ?s x = None" "length (active @ [w]) + length ws \<le> MaxValidators cfg"
    using Cons.prems by auto
  from Cons.IH [OF this] obtain s' where s': "vgenesis_loop cfg ws (?s, active @ [w]) = Some (s', (active @ [w]) @ ws)"
    "\<forall>w \<in> set ws. is_active s' w \<and> w \<in> StakeExemptAccounts s'"
    "\<forall>x. x \<notin> set ws \<longrightarrow> ValidatorLocks s' x = ValidatorLocks ?s x" "StakeExemptAccounts ?s \<subseteq> StakeExemptAccounts s'"
    by blast
  have "is_active s' w" using s'(3) Cons.prems(1) by (simp add: is_active_def)
  with s' one show ?case by (intro exI [of _ s']) auto
qed simp

lemma be_bytes_inj:
  assumes "a < 256 ^ k" "b < 256 ^ k"
  shows "be_bytes k a = be_bytes k b \<longleftrightarrow> a = b"
  using assms by (metis be_val_be_bytes mod_less)

lemma live_validators_distinct: "distinct (map fst live_validators)"
  by (simp add: live_validators_def be_bytes_inj)

lemma live_issuance: "sum_list (map snd (live_balances k)) = 600000000 * UNIT"
  by (simp add: live_balances_def GENESIS_TREASURY_ISSUANCE_def GENESIS_AIRDROP_ISSUANCE_def)

lemma mined_issuance: "2 * InitialReward * HalvingInterval = 400000000 * UNIT"
  by (simp add: InitialReward_def HalvingInterval_def)

section \<open>Properties\<close>

text \<open>
  The main network's genesis builds: no pallet panics on its preset, the four validators are
  distinct, all active, exempt and in the first set, each with session keys of its own, the
  difficulty starts at a million, and the registrar is seated.\<close>

theorem mainnet_genesis_builds:
  "\<exists>s d rs. vgenesis_build runtime_vconfig cur (gen_validators (mainnet_config_genesis k proxy)) = Some s
    \<and> DesiredValidators s = gen_validators (mainnet_config_genesis k proxy)
    \<and> length (DesiredValidators s) = 4 \<and> distinct (DesiredValidators s)
    \<and> list_all (\<lambda>w. is_active s w \<and> w \<in> StakeExemptAccounts s) (DesiredValidators s)
    \<and> map fst (gen_session_keys (mainnet_config_genesis k proxy)) = DesiredValidators s
    \<and> genesis_build (gen_difficulty (mainnet_config_genesis k proxy)) = Some d \<and> current_difficulty d = 1000000
    \<and> registrars_build 1000 (gen_registrars (mainnet_config_genesis k proxy)) [] = Some rs \<and> length rs = 1"
proof -
  let ?ws = "map fst live_validators"
  have len: "length ?ws = 4" by (simp add: live_validators_def)
  obtain s where s: "vgenesis_loop runtime_vconfig ?ws (empty_vstate cur, []) = Some (s, ?ws)"
    "\<forall>w \<in> set ?ws. is_active s w \<and> w \<in> StakeExemptAccounts s"
    using vgenesis_loop_distinct [OF live_validators_distinct, of "empty_vstate cur" "[]" runtime_vconfig] len
    by (auto simp: empty_vstate_def runtime_vconfig_def)
  have v: "gen_validators (mainnet_config_genesis k proxy) = ?ws"
    "map fst (gen_session_keys (mainnet_config_genesis k proxy)) = ?ws"
    by (simp_all add: mainnet_config_genesis_def genesis_patch_def case_prod_beta' comp_def)
  have act: "is_active (s \<lparr> DesiredValidators := ?ws \<rparr>) = is_active s" by (simp add: is_active_def fun_eq_iff)
  show ?thesis
    using s len live_validators_distinct
    by (intro exI [of _ "s \<lparr> DesiredValidators := ?ws \<rparr>"])
      (simp add: v vgenesis_build_def list_all_iff act genesis_build_def registrars_build_eq,
        simp add: mainnet_config_genesis_def genesis_patch_def MAIN_INITIAL_DIFFICULTY_def live_registrars_def bv_try_push_def)
qed

text \<open>
  C32: The supply of the main network never passes a billion units: from the issuance of its genesis,
  the rewards of any chain of blocks add at most the four hundred million that the comment on the
  halving interval states.\<close>

theorem mainnet_supply_cap:
  assumes "deposit_law cur"
    and "total_issuance cur bal = sum_list (map snd (gen_balances (mainnet_config_genesis k proxy)))"
  shows "\<exists>bal'. reward_chain cur fa InitialReward HalvingInterval 1 digests bal = Some bal'
    \<and> total_issuance cur bal' \<le> 1000000000 * UNIT"
proof -
  have "total_issuance cur bal = 600000000 * UNIT"
    using assms(2) live_issuance [of k] by (simp add: mainnet_config_genesis_def genesis_patch_def)
  moreover have "0 < HalvingInterval" by (simp add: HalvingInterval_def)
  ultimately show ?thesis
    using reward_chain_cap [OF _ assms(1), of HalvingInterval fa InitialReward 1 digests bal] unfolding mined_issuance by auto
qed

definition genesis_currency :: "(nat, nat \<Rightarrow> nat) currency" where
  "genesis_currency = \<lparr> deposit_creating = (\<lambda>a v b. b(a := b a + v)), total_issuance = (\<lambda>b. b 0 + b 1) \<rparr>"

definition genesis_keys :: keyring where
  "genesis_keys = \<lparr> key_accounts = [], alice = [], alice_grandpa = [], alice_im_online = [], treasury_account = [] \<rparr>"

theorem mainnet_supply_cap_witness:
  "\<exists>bal'. reward_chain genesis_currency (\<lambda>ds. if ds = [] then None else Some 0) InitialReward HalvingInterval 1
      [[PreRuntime [1] [2]], []] ((\<lambda>_. 0)(0 := 550000000 * UNIT, 1 := 50000000 * UNIT)) = Some bal'
    \<and> total_issuance genesis_currency bal' \<le> 1000000000 * UNIT"
proof -
  have law: "deposit_law genesis_currency" by (auto simp: deposit_law_def genesis_currency_def)
  have "total_issuance genesis_currency ((\<lambda>_. 0)(0 := 550000000 * UNIT, 1 := 50000000 * UNIT)) =
      sum_list (map snd (gen_balances (mainnet_config_genesis genesis_keys [])))"
    using live_issuance [of genesis_keys] by (simp add: genesis_currency_def mainnet_config_genesis_def genesis_patch_def)
  from mainnet_supply_cap [OF law this] show ?thesis by blast
qed

end
