(* ===== verification/NodeRuntime.thy ===== *)
theory NodeRuntime
  imports PowConsensus Difficulty
begin

text \<open>
  The seam between the node and the runtime: the runtime API calls that block import makes at
  the parent block (\<open>runtime/src/apis.rs\<close>). \<open>check_inherents\<close> tightens the timestamp check of
  the timestamp pallet; \<open>runtime_difficulty_api\<close> is the call \<open>difficulty_for_block\<close> as the node
  sees it, where a failing or trapping call is an error. The collection of inherent errors and
  the checks of the pallets belong to the libraries; the record \<open>inherent_ops\<close> holds them.
\<close>

section \<open>Inherent checks\<close>

record ('d, 'r) inherent_ops =
  check_extrinsics :: "'d \<Rightarrow> inherent_call option list \<Rightarrow> 'r"
  timestamp_inherent_data :: "'d \<Rightarrow> unit + nat option"
  put_error :: "inherent_error \<Rightarrow> 'r \<Rightarrow> 'r"
  result_ok :: "'r \<Rightarrow> bool"

text \<open>An error put into the collection makes it not ok.\<close>

definition inherent_laws :: "('d, 'r) inherent_ops \<Rightarrow> bool" where
  "inherent_laws ops \<longleftrightarrow> (\<forall>e r. \<not> result_ok ops (put_error ops e r))"

text \<open>The loop over the extrinsics: those that do not decode are skipped, the first timestamp ends it.\<close>

fun check_first_timestamp ::
  "('d, 'r) inherent_ops \<Rightarrow> nat \<Rightarrow> nat \<Rightarrow> inherent_call option list \<Rightarrow> 'r \<Rightarrow> 'r" where
  "check_first_timestamp ops node_ts_ms parent_ts_ms [] result = result"
| "check_first_timestamp ops node_ts_ms parent_ts_ms (None # exts) result =
     check_first_timestamp ops node_ts_ms parent_ts_ms exts result"
| "check_first_timestamp ops node_ts_ms parent_ts_ms (Some Other_call # exts) result =
     check_first_timestamp ops node_ts_ms parent_ts_ms exts result"
| "check_first_timestamp ops node_ts_ms parent_ts_ms (Some (Timestamp_set now) # exts) result =
     check_timestamp_drift (put_error ops) result now node_ts_ms parent_ts_ms"

definition runtime_check_inherents ::
  "('d, 'r) inherent_ops \<Rightarrow> nat \<Rightarrow> inherent_call option list \<Rightarrow> 'd \<Rightarrow> 'r" where
  "runtime_check_inherents ops parent_ts_ms exts data =
     (let result = check_extrinsics ops data exts in
      case timestamp_inherent_data ops data of
        Inr (Some node_ts_ms) \<Rightarrow> check_first_timestamp ops node_ts_ms parent_ts_ms exts result
      | _ \<Rightarrow> result)"

section \<open>The difficulty call\<close>

definition runtime_difficulty_api ::
  "(hash \<Rightarrow> 'e option) \<Rightarrow> 'e \<Rightarrow> (bytes \<Rightarrow> inherent_call option) \<Rightarrow> diff_config \<Rightarrow> (hash \<Rightarrow> nat \<times> diff_state) \<Rightarrow>
   hash \<Rightarrow> bytes \<Rightarrow> 'e + nat option" where
  "runtime_difficulty_api fails trap decode cfg state_at parent timestamp_inherent =
     (case fails parent of
        Some e \<Rightarrow> Inl e
      | None \<Rightarrow>
          (case difficulty_for_block decode cfg (fst (state_at parent)) (snd (state_at parent)) timestamp_inherent of
             None \<Rightarrow> Inr None
           | Some None \<Rightarrow> Inl trap
           | Some (Some d) \<Rightarrow> Inr (Some d)))"

section \<open>Library\<close>

lemma drift_ok:
  assumes "inherent_laws ops" "result_ok ops (check_timestamp_drift (put_error ops) r now node_ts parent_ts)"
  shows "parent_ts \<le> now \<and> now \<le> node_ts + MAX_TIMESTAMP_DRIFT_MS \<and> result_ok ops r"
proof -
  have "wrapping_add 64 node_ts MAX_TIMESTAMP_DRIFT_MS \<le> node_ts + MAX_TIMESTAMP_DRIFT_MS"
    by (simp add: wrapping_add_def)
  then show ?thesis
    using assms by (auto simp: check_timestamp_drift_def inherent_laws_def Let_def split: if_splits)
qed

lemma checked_timestamp_window:
  assumes "inherent_laws ops" "timestamp_inherent_data ops data = Inr (Some node_ts)"
    and "result_ok ops (runtime_check_inherents ops parent_ts (Some (Timestamp_set now) # exts) data)"
  shows "parent_ts \<le> now \<and> now \<le> node_ts + MAX_TIMESTAMP_DRIFT_MS"
  using assms drift_ok by (fastforce simp: runtime_check_inherents_def)

lemma runtime_difficulty_api_Inr:
  assumes "runtime_difficulty_api fails trap decode cfg state_at parent xt = Inr (Some d)" "state_at parent = (h, s)"
  obtains now_ms where "decode xt = Some (Timestamp_set now_ms)" "realtime_difficulty cfg h s (now_ms div 1000) = Some d"
  using assms
  by (auto simp: runtime_difficulty_api_def difficulty_for_block_def timestamp_from_inherent_def
      split: option.splits inherent_call.splits)

text \<open>A difficulty the parent state answers is the one that executing the block stores.\<close>

lemma answered_difficulty_stored:
  assumes "diff_inv (h, s)" "diff_config_ok cfg" "now_ms \<le> U64_MAX" "0 < anchor_timestamp s"
    and "realtime_difficulty cfg h s (now_ms div 1000) = Some d"
  shows "\<exists>s'. on_finalize cfg (Suc h) now_ms s = Some s' \<and> current_difficulty s' = d"
proof -
  have now: "now_ms div 1000 \<le> U64_MAX"
    using assms(3) by (rule order_trans [OF div_le_dividend])
  show ?thesis
    using on_finalize_anchored [OF assms(1-4) refl refl] assms(5) realtime_closed [OF assms(1,2) now] by auto
qed

end
