(* ===== verification/InternalMiner.thy ===== *)
theory InternalMiner
  imports MiningWorker
begin

text \<open>
  The node's own miner (\<open>spawn_internal_miner\<close> in \<open>node/src/service.rs\<close>). Each thread scans the
  nonces of its own stride, keeps the strongest work it found for the current task, and submits it
  once the difficulty of the task falls within its reach; a claim shared by the threads decides
  which of them submits.

  A turn of the loop touches shared state twice: it reads the task at its start and takes the
  claim at its end. The machine \<open>istep\<close> splits it there, so the threads interleave and the task
  a thread works on may be stale.
\<close>

section \<open>One thread\<close>

record BestSolution =
  bs_pre_hash :: hash
  bs_nonce :: nat
  bs_work :: bytes
  bs_max_difficulty :: nat

record miner_thread =
  th_nonce :: nat
  th_best :: "BestSolution option"

definition max_difficulty_of :: "bytes \<Rightarrow> nat" where
  "max_difficulty_of w = (case checked_div U256_MAX (be_val w) of Some d \<Rightarrow> d | None \<Rightarrow> U256_MAX)"

definition retire_best :: "hash \<Rightarrow> BestSolution option \<Rightarrow> BestSolution option" where
  "retire_best ph best = (case best of Some b \<Rightarrow> if bs_pre_hash b \<noteq> ph then None else Some b | None \<Rightarrow> None)"

definition keep_best :: "BestSolution option \<Rightarrow> BestSolution \<Rightarrow> BestSolution option" where
  "keep_best best new =
     (case best of
        None \<Rightarrow> Some new
      | Some b \<Rightarrow> if bs_max_difficulty b < bs_max_difficulty new then Some new else Some b)"

definition scan_turn :: "('m, 'f) scan_ops \<Rightarrow> nat \<Rightarrow> metadata \<Rightarrow> miner_thread \<Rightarrow> miner_thread" where
  "scan_turn ops stride md th =
     (let ph = mpre_hash md;
          best = retire_best ph (th_best th);
          c = \<lparr> pre_hash = ph, nonce = th_nonce th \<rparr>;
          next_nonce = wrapping_add 256 (th_nonce th) stride;
          best = (case work ops c of
                    None \<Rightarrow> best
                  | Some w \<Rightarrow> keep_best best \<lparr> bs_pre_hash = ph, bs_nonce = nonce c, bs_work = w,
                                             bs_max_difficulty = max_difficulty_of w \<rparr>)
      in \<lparr> th_nonce = next_nonce, th_best = best \<rparr>)"

text \<open>The seal that is due: the difficulty of the task is within the reach of the best work.\<close>

definition due_seal :: "metadata \<Rightarrow> miner_thread \<Rightarrow> Seal option" where
  "due_seal md th =
     (case th_best th of
        None \<Rightarrow> None
      | Some b \<Rightarrow>
          if mdifficulty md \<le> bs_max_difficulty b
          then Some \<lparr> seal_nonce = bs_nonce b, seal_work = bs_work b \<rparr> else None)"

definition take_claim :: "hash \<Rightarrow> hash option \<Rightarrow> bool \<times> hash option" where
  "take_claim ph claimed =
     (let free = (claimed \<noteq> Some ph) in (free, if free then Some ph else claimed))"

text \<open>One turn of the loop without interference; the last result is what goes to \<open>submit\<close>.\<close>

definition miner_turn ::
  "('m, 'f) scan_ops \<Rightarrow> nat \<Rightarrow> metadata option \<Rightarrow> miner_thread \<Rightarrow> hash option \<Rightarrow>
   miner_thread \<times> hash option \<times> (hash \<times> bytes) option" where
  "miner_turn ops stride task th claimed =
     (case task of
        None \<Rightarrow> (th, claimed, None)
      | Some md \<Rightarrow>
          (let th = scan_turn ops stride md th in
           case due_seal md th of
             None \<Rightarrow> (th, claimed, None)
           | Some s \<Rightarrow>
               (let (won, claimed) = take_claim (mpre_hash md) claimed
                in (th \<lparr> th_best := None \<rparr>, claimed,
                    if won then Some (mpre_hash md, encode_seal s) else None))))"

section \<open>The threads together\<close>

text \<open>
  \<open>pending\<close> holds the seal a thread is about to claim, \<open>submitted\<close> the seals handed to the worker
  (latest first) and \<open>scanned\<close> the attempts of each thread (latest first).
\<close>

record miners =
  threads :: "nat \<Rightarrow> miner_thread"
  pending :: "nat \<Rightarrow> (metadata \<times> Seal) option"
  claimed :: "hash option"
  submitted :: "(metadata \<times> Seal) list"
  scanned :: "nat \<Rightarrow> (hash \<times> nat) list"

definition spawn_miners :: miners where
  "spawn_miners = \<lparr> threads = (\<lambda>i. \<lparr> th_nonce = i mod 2 ^ 256, th_best = None \<rparr>), pending = (\<lambda>_. None), claimed = None,
     submitted = [], scanned = (\<lambda>_. []) \<rparr>"

inductive istep :: "('m, 'f) scan_ops \<Rightarrow> nat \<Rightarrow> miners \<Rightarrow> miners \<Rightarrow> bool" for ops node_miner where
  scan_one: "i < node_miner \<Longrightarrow> pending m i = None \<Longrightarrow> th = scan_turn ops node_miner md (threads m i) \<Longrightarrow>
    istep ops node_miner m (m \<lparr> threads := (threads m)(i := th),
      pending := (pending m)(i := map_option (Pair md) (due_seal md th)),
      scanned := (scanned m)(i := (mpre_hash md, th_nonce (threads m i)) # scanned m i) \<rparr>)"
| claim_one: "i < node_miner \<Longrightarrow> pending m i = Some (md, s) \<Longrightarrow> take_claim (mpre_hash md) (claimed m) = (won, c) \<Longrightarrow>
    istep ops node_miner m (m \<lparr> threads := (threads m)(i := (threads m i) \<lparr> th_best := None \<rparr>),
      pending := (pending m)(i := None), claimed := c,
      submitted := (if won then [(md, s)] else []) @ submitted m \<rparr>)"

section \<open>Invariants\<close>

definition proven :: "('m, 'f) scan_ops \<Rightarrow> metadata \<Rightarrow> Seal \<Rightarrow> bool" where
  "proven ops md s \<longleftrightarrow> work ops \<lparr> pre_hash = mpre_hash md, nonce = seal_nonce s \<rparr> = Some (seal_work s)
     \<and> be_val (seal_work s) * mdifficulty md \<le> U256_MAX \<and> seal_nonce s \<le> U256_MAX"

definition best_ok :: "('m, 'f) scan_ops \<Rightarrow> BestSolution \<Rightarrow> bool" where
  "best_ok ops b \<longleftrightarrow> work ops \<lparr> pre_hash = bs_pre_hash b, nonce = bs_nonce b \<rparr> = Some (bs_work b)
     \<and> bs_max_difficulty b = max_difficulty_of (bs_work b) \<and> bs_nonce b \<le> U256_MAX"

definition seals_inv :: "('m, 'f) scan_ops \<Rightarrow> miners \<Rightarrow> bool" where
  "seals_inv ops m \<longleftrightarrow>
     (\<forall>i b. th_best (threads m i) = Some b \<longrightarrow> best_ok ops b) \<and>
     (\<forall>i md s. pending m i = Some (md, s) \<longrightarrow> proven ops md s) \<and>
     (\<forall>(md, s) \<in> set (submitted m). proven ops md s)"

definition claim_inv :: "miners \<Rightarrow> bool" where
  "claim_inv m \<longleftrightarrow> claimed m = (if submitted m = [] then None else Some (mpre_hash (fst (hd (submitted m))))) \<and>
     successively (\<lambda>a b. mpre_hash (fst a) \<noteq> mpre_hash (fst b)) (submitted m)"

definition nonce_inv :: "nat \<Rightarrow> miners \<Rightarrow> bool" where
  "nonce_inv n m \<longleftrightarrow> (\<forall>i. th_nonce (threads m i) = (i + length (scanned m i) * n) mod 2 ^ 256 \<and>
     (\<forall>(ph, x) \<in> set (scanned m i). \<exists>k < length (scanned m i). x = (i + k * n) mod 2 ^ 256))"

definition iinv :: "('m, 'f) scan_ops \<Rightarrow> nat \<Rightarrow> miners \<Rightarrow> bool" where
  "iinv ops n m \<longleftrightarrow> seals_inv ops m \<and> claim_inv m \<and> nonce_inv n m"

lemma max_difficulty_reach: "d \<le> max_difficulty_of w \<Longrightarrow> be_val w * d \<le> U256_MAX"
  by (cases "be_val w = 0")
     (simp_all add: max_difficulty_of_def checked_div_def less_eq_div_iff_mult_less_eq mult.commute)

lemma scan_turn_best:
  assumes "th_best (scan_turn ops n md th) = Some b" "\<And>b. th_best th = Some b \<Longrightarrow> best_ok ops b" "th_nonce th \<le> U256_MAX"
  shows "best_ok ops b \<and> bs_pre_hash b = mpre_hash md"
proof -
  have retired: "best_ok ops b \<and> bs_pre_hash b = mpre_hash md" if "retire_best (mpre_hash md) (th_best th) = Some b" for b
    using that assms(2) by (auto simp: retire_best_def split: option.splits if_splits)
  show ?thesis
    using assms(1,3) retired
    by (auto simp: scan_turn_def Let_def best_ok_def keep_best_def split: option.splits if_splits)
qed

lemma due_seal_proven:
  assumes "due_seal md th = Some s" "\<And>b. th_best th = Some b \<Longrightarrow> best_ok ops b \<and> bs_pre_hash b = mpre_hash md"
  shows "proven ops md s"
  using assms max_difficulty_reach
  by (auto simp: due_seal_def proven_def best_ok_def split: option.splits if_splits)

lemma scan_turn_nonce: "th_nonce (scan_turn ops n md th) = (th_nonce th + n) mod 2 ^ 256"
  by (simp add: scan_turn_def Let_def wrapping_add_def)

lemma nonce_bound: "nonce_inv n m \<Longrightarrow> th_nonce (threads m i) \<le> U256_MAX"
  using mod_less_divisor [of "2 ^ 256" "i + length (scanned m i) * n"]
  by (simp add: nonce_inv_def U256_MAX_def)

lemma seals_step:
  assumes "seals_inv ops m" "nonce_inv n m" "istep ops n m m'"
  shows "seals_inv ops m'"
  using assms(3)
proof cases
  case (scan_one i th md)
  have b: "best_ok ops b \<and> bs_pre_hash b = mpre_hash md" if "th_best th = Some b" for b
    using that assms(1) nonce_bound [OF assms(2)] unfolding scan_one(4)
    by (intro scan_turn_best) (auto simp: seals_inv_def)
  then have "proven ops md s" if "due_seal md th = Some s" for s
    using due_seal_proven that by blast
  then show ?thesis
    using b assms(1) by (auto simp: scan_one(1) seals_inv_def)
next
  case (claim_one i md s won c)
  then have "proven ops md s"
    using assms(1) by (auto simp: seals_inv_def)
  then show ?thesis
    using assms(1) by (auto simp: claim_one(1) seals_inv_def)
qed

lemma claim_step:
  assumes "claim_inv m" "istep ops n m m'"
  shows "claim_inv m'"
  using assms(2)
proof cases
  case (claim_one i md s won c)
  then show ?thesis
    using assms(1)
    by (cases "submitted m") (auto simp: claim_inv_def take_claim_def Let_def)
qed (use assms(1) in \<open>simp add: claim_inv_def\<close>)

lemma nonce_step:
  assumes "nonce_inv n m" "istep ops n m m'"
  shows "nonce_inv n m'"
  using assms(2)
proof cases
  case (scan_one i th md)
  have old: "th_nonce (threads m j) = (j + length (scanned m j) * n) mod 2 ^ 256"
    "\<And>ph x. (ph, x) \<in> set (scanned m j) \<Longrightarrow> \<exists>k < length (scanned m j). x = (j + k * n) mod 2 ^ 256" for j
    using assms(1) by (auto simp: nonce_inv_def)
  have "th_nonce th = (i + Suc (length (scanned m i)) * n) mod 2 ^ 256"
    unfolding scan_one(4) scan_turn_nonce old(1) by (simp only: mod_add_left_eq) (simp add: algebra_simps)
  moreover have "\<exists>k < Suc (length (scanned m i)). x = (i + k * n) mod 2 ^ 256" if "(ph, x) \<in> set (scanned m i)" for ph x
    using old(2) [OF that] less_Suc_eq by blast
  ultimately show ?thesis
    using old by (auto simp: scan_one(1) nonce_inv_def)
next
  case (claim_one i md s won c)
  then show ?thesis
    using assms(1) by (simp add: nonce_inv_def)
qed

interpretation miner_machine: invariant_system "\<lambda>m. m = spawn_miners" "istep ops n" "iinv ops n"
  for ops :: "('m, 'f) scan_ops" and n
proof
  fix m m' :: miners
  show "m = spawn_miners \<Longrightarrow> iinv ops n m"
    by (simp add: iinv_def spawn_miners_def seals_inv_def claim_inv_def nonce_inv_def)
  show "iinv ops n m \<Longrightarrow> istep ops n m m' \<Longrightarrow> iinv ops n m'"
    unfolding iinv_def using seals_step claim_step nonce_step by blast
qed

lemma work_length: "(\<And>x. length (sha256 ops x) = 32) \<Longrightarrow> work ops c = Some w \<Longrightarrow> length w = 32"
  by (auto simp: work_def hash_buckets_def split: option.splits)

lemma proven_submit_verify:
  assumes "\<And>x. length (sha256 ops x) = 32" "proven ops md s"
  shows "submit_verify (poscan_alg dapi (runtime_verify_api (\<lambda>_. None) (\<lambda>_. ops))) md (encode_seal s)"
proof -
  have "length (seal_work s) = 32"
    using assms(2) work_length [OF assms(1)] by (auto simp: proven_def)
  then have "decode_seal (encode_seal s) = Some s"
    using assms(2) by (intro decode_encode_seal) (simp add: seal_wf_def proven_def)
  then show ?thesis
    using assms(2)
    by (simp add: submit_verify_iff poscan_alg_def poscan_verify_def runtime_verify_api_def runtime_verify_seal_def
        verify_seal_def hash_meets_iff proven_def)
qed

lemma nonce_invD:
  assumes "nonce_inv n m" "(ph, x) \<in> set (scanned m i)"
  shows "\<exists>k < length (scanned m i). x = (i + k * n) mod 2 ^ 256"
  using assms unfolding nonce_inv_def by blast

lemma nonces_apart:
  assumes "nonce_inv n m" "i < n" "j < n" "i \<noteq> j"
    and "n * Suc (length (scanned m i)) \<le> 2 ^ 256" "n * Suc (length (scanned m j)) \<le> 2 ^ 256"
  shows "snd ` set (scanned m i) \<inter> snd ` set (scanned m j) = {}"
proof -
  have lane: "x mod n = i" if mem: "x \<in> snd ` set (scanned m i)" and lt: "i < n" and le: "n * Suc (length (scanned m i)) \<le> 2 ^ 256" for x i
  proof -
    obtain ph where "(ph, x) \<in> set (scanned m i)"
      using mem by auto
    then obtain k where k: "k < length (scanned m i)" "x = (i + k * n) mod 2 ^ 256"
      using nonce_invD [OF assms(1)] by blast
    have "i + k * n < n * Suc (length (scanned m i))"
      using lt k(1) add_less_le_mono [OF lt mult_le_mono1 [of k "length (scanned m i)" n]] by (simp add: mult.commute)
    then have "x = i + k * n"
      unfolding k(2) using le by (intro mod_less) (rule less_le_trans)
    then show ?thesis
      using lt by simp
  qed
  show ?thesis
    using lane [OF _ assms(2,5)] lane [OF _ assms(3,6)] assms(4) by blast
qed

section \<open>Properties\<close>

text \<open>
  C11: The threads of the node's miner work together safely under every interleaving and with
  stale tasks. Every seal that reaches the worker passes its verification at the difficulty of
  the task it was mined for, no two submissions in a row are for the same pre-hash, and while
  the nonces have not wrapped around no two threads scan the same nonce.
\<close>

theorem internal_miners_safe:
  assumes "\<And>x. length (sha256 ops x) = 32" "reachable (\<lambda>m. m = spawn_miners) (istep ops n) m"
  shows "(\<forall>(md, s) \<in> set (submitted m).
      submit_verify (poscan_alg dapi (runtime_verify_api (\<lambda>_. None) (\<lambda>_. ops))) md (encode_seal s))
    \<and> successively (\<lambda>a b. mpre_hash (fst a) \<noteq> mpre_hash (fst b)) (submitted m)
    \<and> (\<forall>i j. i < n \<and> j < n \<and> i \<noteq> j \<and> n * Suc (length (scanned m i)) \<le> 2 ^ 256 \<and> n * Suc (length (scanned m j)) \<le> 2 ^ 256 \<longrightarrow>
        snd ` set (scanned m i) \<inter> snd ` set (scanned m j) = {})"
proof -
  have inv: "seals_inv ops m" "claim_inv m" "nonce_inv n m"
    using miner_machine.reachable_inv [OF assms(2)] by (simp_all add: iinv_def)
  have "submit_verify (poscan_alg dapi (runtime_verify_api (\<lambda>_. None) (\<lambda>_. ops))) md (encode_seal s)"
    if "(md, s) \<in> set (submitted m)" for md s
    using inv(1) that by (intro proven_submit_verify assms(1)) (auto simp: seals_inv_def)
  then show ?thesis
    using inv(2) nonces_apart [OF inv(3)] unfolding claim_inv_def by blast
qed

definition sample_task :: metadata where
  "sample_task = \<lparr> best_hash = [0], mpre_hash = [1], pre_runtime = None, mdifficulty = 1 \<rparr>"

text \<open>Two threads; the first finds a seal for the task, claims it and submits it.\<close>

definition sample_found :: miners where
  "sample_found = spawn_miners \<lparr>
     threads := (threads spawn_miners)(0 := scan_turn sample_ops 2 sample_task (threads spawn_miners 0)),
     pending := (pending spawn_miners)(0 := map_option (Pair sample_task)
       (due_seal sample_task (scan_turn sample_ops 2 sample_task (threads spawn_miners 0)))),
     scanned := (scanned spawn_miners)(0 := [([1], 0)]) \<rparr>"

lemma sample_found_reachable: "reachable (\<lambda>m. m = spawn_miners) (istep sample_ops 2) sample_found"
proof (rule reach_step [OF reach_init [of _ spawn_miners]])
  show "istep sample_ops 2 spawn_miners sample_found"
    using istep.scan_one [of 0 2 spawn_miners "scan_turn sample_ops 2 sample_task (threads spawn_miners 0)" sample_ops sample_task]
    by (simp add: sample_found_def spawn_miners_def sample_task_def)
qed simp

lemma sample_found_pending: "\<exists>s. pending sample_found 0 = Some (sample_task, s)"
proof -
  obtain w where w: "work sample_ops \<lparr> pre_hash = [1], nonce = 0 \<rparr> = Some w"
    by (simp add: work_def sample_ops_def)
  have "length w = 32"
    by (rule work_length [OF _ w]) (simp add: sample_ops_def)
  then have "be_val w \<le> U256_MAX"
    using bij_betw_apply [OF be_val_bij] by simp
  then have "1 \<le> max_difficulty_of w"
    by (simp add: max_difficulty_of_def checked_div_def Suc_le_eq div_greater_zero_iff U256_MAX_def)
  then show ?thesis
    using w by (simp add: sample_found_def spawn_miners_def scan_turn_def Let_def sample_task_def retire_best_def keep_best_def
        due_seal_def)
qed

theorem internal_miners_safe_witness:
  "\<exists>m s. submitted m = [(sample_task, s)] \<and> reachable (\<lambda>m. m = spawn_miners) (istep sample_ops 2) m
    \<and> submit_verify (poscan_alg (\<lambda>p i. Inr (Some 1)) (runtime_verify_api (\<lambda>_. None) (\<lambda>_. sample_ops)) :: unit pow_alg)
        sample_task (encode_seal s)"
proof -
  obtain s where s: "pending sample_found 0 = Some (sample_task, s)"
    using sample_found_pending by blast
  have claim: "take_claim (mpre_hash sample_task) (claimed sample_found) = (True, Some [1])"
    by (simp add: take_claim_def sample_found_def spawn_miners_def sample_task_def)
  let ?m = "sample_found \<lparr> threads := (threads sample_found)(0 := (threads sample_found 0) \<lparr> th_best := None \<rparr>),
    pending := (pending sample_found)(0 := None), claimed := Some [1],
    submitted := (if True then [(sample_task, s)] else []) @ submitted sample_found \<rparr>"
  have "reachable (\<lambda>m. m = spawn_miners) (istep sample_ops 2) ?m"
    by (rule reach_step [OF sample_found_reachable istep.claim_one [OF _ s claim]]) simp
  moreover have "submitted ?m = [(sample_task, s)]"
    by (simp add: sample_found_def spawn_miners_def)
  moreover have "length (sha256 sample_ops x) = 32" for x
    by (simp add: sample_ops_def)
  ultimately show ?thesis
    using internal_miners_safe [of sample_ops 2 ?m "\<lambda>p i. Inr (Some 1)"] by (intro exI [of _ ?m] exI [of _ s]) auto
qed

end
