(* ===== verification/Icosphere.thy ===== *)
theory Icosphere
  imports Complex_Main
begin

text \<open>
  The blank of the asteroid generator (\<open>consensus/obj-asteroid/src/icosphere.rs\<close>): an icosahedron
  subdivided level by level, with edge midpoints shared through a cache. Floating-point
  arithmetic is the record \<open>fops\<close>, so that nothing below depends on rounding; vertex indices
  are 32-bit numbers, and an index out of bounds is the outcome \<open>None\<close>.

  The library part shows that one level keeps a mesh closed: the corners of the new mesh are
  the corners of the old one, four for each, and every edge meets exactly one opposite edge.
\<close>

section \<open>Floating-point operations\<close>

record 'f fops =
  flit :: "rat \<Rightarrow> 'f"
  fof_nat :: "nat \<Rightarrow> 'f"
  fadd :: "'f \<Rightarrow> 'f \<Rightarrow> 'f"
  fsub :: "'f \<Rightarrow> 'f \<Rightarrow> 'f"
  fmul :: "'f \<Rightarrow> 'f \<Rightarrow> 'f"
  fdiv :: "'f \<Rightarrow> 'f \<Rightarrow> 'f"
  fneg :: "'f \<Rightarrow> 'f"
  flt :: "'f \<Rightarrow> 'f \<Rightarrow> bool"
  fsqrt :: "'f \<Rightarrow> 'f"
  fcos :: "'f \<Rightarrow> 'f"
  fsin :: "'f \<Rightarrow> 'f"
  ffloor :: "'f \<Rightarrow> 'f"
  fpow :: "'f \<Rightarrow> 'f \<Rightarrow> 'f"
  ffmin :: "'f \<Rightarrow> 'f \<Rightarrow> 'f"
  ffmax :: "'f \<Rightarrow> 'f \<Rightarrow> 'f"
  fto_usize :: "'f \<Rightarrow> nat"
  fto_i32 :: "'f \<Rightarrow> int"

type_synonym 'f vec3 = "'f \<times> 'f \<times> 'f"
type_synonym face = "nat \<times> nat \<times> nat"

record 'f Mesh =
  vertices :: "'f vec3 list"
  faces :: "face list"

section \<open>The icosphere\<close>

definition normalize :: "'f fops \<Rightarrow> 'f vec3 \<Rightarrow> 'f vec3" where
  "normalize f v =
     (let (x, y, z) = v;
          len = fsqrt f (fadd f (fadd f (fmul f x x) (fmul f y y)) (fmul f z z))
      in (fdiv f x len, fdiv f y len, fdiv f z len))"

definition icosahedron_vertices :: "'f fops \<Rightarrow> 'f vec3 list" where
  "icosahedron_vertices f =
     (let t = fdiv f (fadd f (flit f 1) (fsqrt f (flit f 5))) (flit f 2);
          one = flit f 1; minus = fneg f (flit f 1); zero = flit f 0
      in map (normalize f)
           [(minus, t, zero), (one, t, zero), (minus, fneg f t, zero), (one, fneg f t, zero),
            (zero, minus, t), (zero, one, t), (zero, minus, fneg f t), (zero, one, fneg f t),
            (t, zero, minus), (t, zero, one), (fneg f t, zero, minus), (fneg f t, zero, one)])"

definition icosahedron_faces :: "face list" where
  "icosahedron_faces =
     [(0, 11, 5), (0, 5, 1), (0, 1, 7), (0, 7, 10), (0, 10, 11),
      (1, 5, 9), (5, 11, 4), (11, 10, 2), (10, 7, 6), (7, 1, 8),
      (3, 9, 4), (3, 4, 2), (3, 2, 6), (3, 6, 8), (3, 8, 9),
      (4, 9, 5), (2, 4, 11), (6, 2, 10), (8, 6, 7), (9, 8, 1)]"

definition edge_key :: "nat \<Rightarrow> nat \<Rightarrow> nat \<times> nat" where
  "edge_key a b = (if a < b then (a, b) else (b, a))"

type_synonym 'f cache = "'f vec3 list \<times> (nat \<times> nat \<rightharpoonup> nat)"

definition get_mid :: "'f fops \<Rightarrow> nat \<Rightarrow> nat \<Rightarrow> 'f cache \<Rightarrow> (nat \<times> 'f cache) option" where
  "get_mid f a b = (\<lambda>(verts, midpoint).
     (case midpoint (edge_key a b) of
        Some idx \<Rightarrow> Some (idx, verts, midpoint)
      | None \<Rightarrow>
          if a < length verts \<and> b < length verts then
            (let (x1, y1, z1) = verts ! a; (x2, y2, z2) = verts ! b; half = flit f (1 / 2);
                 mid = normalize f (fmul f (fadd f x1 x2) half, fmul f (fadd f y1 y2) half, fmul f (fadd f z1 z2) half);
                 idx = length verts mod 2 ^ 32
             in Some (idx, verts @ [mid], midpoint(edge_key a b \<mapsto> idx)))
          else None))"

fun subdivide_faces :: "'f fops \<Rightarrow> face list \<Rightarrow> 'f cache \<Rightarrow> (face list \<times> 'f cache) option" where
  "subdivide_faces f [] st = Some ([], st)"
| "subdivide_faces f ((x, y, z) # fs) st =
     Option.bind (get_mid f x y st) (\<lambda>(a, st).
     Option.bind (get_mid f y z st) (\<lambda>(b, st).
     Option.bind (get_mid f z x st) (\<lambda>(c, st).
     Option.bind (subdivide_faces f fs st) (\<lambda>(new_faces, st).
       Some ((x, a, c) # (y, b, a) # (z, c, b) # (a, b, c) # new_faces, st)))))"

primrec subdivide :: "'f fops \<Rightarrow> nat \<Rightarrow> 'f Mesh \<Rightarrow> 'f Mesh option" where
  "subdivide f 0 m = Some m"
| "subdivide f (Suc n) m =
     Option.bind (subdivide_faces f (faces m) (vertices m, Map.empty)) (\<lambda>(new_faces, verts, _).
       subdivide f n \<lparr> vertices = verts, faces = new_faces \<rparr>)"

definition icosphere :: "'f fops \<Rightarrow> nat \<Rightarrow> 'f Mesh option" where
  "icosphere f subdivisions =
     subdivide f subdivisions \<lparr> vertices = icosahedron_vertices f, faces = icosahedron_faces \<rparr>"

section \<open>Closed meshes\<close>

text \<open>
  A corner is a face read from one of its vertices; its dart is the directed edge that starts
  there. A mesh is closed when no dart occurs twice, every dart has its reverse, no dart is a
  loop, and no face occurs with both orientations.
\<close>

fun face_corners :: "face \<Rightarrow> face list" where
  "face_corners (x, y, z) = [(x, y, z), (y, z, x), (z, x, y)]"

definition corners :: "face list \<Rightarrow> face list" where
  "corners fs = concat (map face_corners fs)"

fun dart :: "face \<Rightarrow> nat \<times> nat" where
  "dart (u, v, w) = (u, v)"

definition closed_mesh :: "nat \<Rightarrow> face list \<Rightarrow> bool" where
  "closed_mesh n fs \<longleftrightarrow>
     distinct (map dart (corners fs)) \<and>
     list_all (\<lambda>(u, v, w). u < n \<and> u \<noteq> v \<and> (v, u) \<in> set (map dart (corners fs)) \<and> (w, v, u) \<notin> set (corners fs))
       (corners fs)"

section \<open>The cache\<close>

lemma edge_key_commute: "edge_key a b = edge_key b a"
  by (simp add: edge_key_def)

lemma edge_key_eq_iff: "edge_key a b = edge_key c d \<longleftrightarrow> (a = c \<and> b = d) \<or> (a = d \<and> b = c)"
  by (auto simp: edge_key_def)

text \<open>The cache numbers the edges met so far, without gaps, behind the \<open>n\<close> old vertices.\<close>

definition cache_ok :: "nat \<Rightarrow> (nat \<times> nat) set \<Rightarrow> 'f cache \<Rightarrow> bool" where
  "cache_ok n E = (\<lambda>(verts, m). dom m \<subseteq> E \<and> inj_on m (dom m) \<and> ran m = {n..<length verts}
     \<and> length verts = n + card (dom m))"

lemma get_mid_effect:
  assumes "cache_ok n E (verts, m)" "finite E" "n + card E \<le> 2 ^ 32" "a < n" "b < n" "edge_key a b \<in> E"
  obtains idx verts' m' where "get_mid f a b (verts, m) = Some (idx, verts', m')" "cache_ok n E (verts', m')"
    "m \<subseteq>\<^sub>m m'" "m' (edge_key a b) = Some idx" "dom m' = insert (edge_key a b) (dom m)"
proof (cases "m (edge_key a b)")
  case (Some idx)
  then show ?thesis
    using that [of idx verts m] assms(1) by (auto simp: get_mid_def dom_def)
next
  case None
  have len: "length verts = n + card (dom m)" "dom m \<subseteq> E" "inj_on m (dom m)" "ran m = {n..<length verts}"
    using assms(1) by (auto simp: cache_ok_def)
  have new: "edge_key a b \<notin> dom m"
    using None by (simp add: domIff)
  have "dom m \<subset> E"
    using len(2) new assms(6) by auto
  then have "card (dom m) < card E"
    by (rule psubset_card_mono [OF assms(2)])
  then have idx: "length verts mod 2 ^ 32 = length verts"
    using len(1) assms(3) by simp
  let ?m = "m(edge_key a b \<mapsto> length verts)"
  have fin: "finite (dom m)"
    using len(2) assms(2) by (rule finite_subset)
  have "m k \<noteq> Some (length verts)" for k
    using len(4) ranI [of m k "length verts"] by auto
  then have "inj_on ?m (dom ?m)"
    using len(3) new by (auto simp: inj_on_def)
  moreover have "ran ?m = {n..<Suc (length verts)}"
    using len(1,4) None by (simp add: atLeastLessThanSuc)
  moreover have "card (dom ?m) = Suc (card (dom m))"
    using fin new by simp
  ultimately have "cache_ok n E (verts @ [mid], ?m)" for mid
    using len(1,2) assms(6) by (simp add: cache_ok_def)
  moreover have "m \<subseteq>\<^sub>m ?m"
    using None by (auto simp: map_le_def)
  moreover obtain mid where "get_mid f a b (verts, m) = Some (length verts, verts @ [mid], ?m)"
    using None idx len(1) assms(4,5) by (cases "verts ! a"; cases "verts ! b") (auto simp: get_mid_def Let_def)
  ultimately show ?thesis
    by (intro that [of "length verts" "verts @ [mid]" ?m]) (auto simp: insert_commute)
qed

text \<open>What a level makes of the faces, once every edge has its midpoint.\<close>

definition split_face :: "(nat \<times> nat \<rightharpoonup> nat) \<Rightarrow> face \<Rightarrow> face list" where
  "split_face m = (\<lambda>(x, y, z).
     let a = the (m (edge_key x y)); b = the (m (edge_key y z)); c = the (m (edge_key z x))
     in [(x, a, c), (y, b, a), (z, c, b), (a, b, c)])"

definition face_keys :: "face list \<Rightarrow> (nat \<times> nat) set" where
  "face_keys fs = (\<lambda>(u, v, w). edge_key u v) ` set (corners fs)"

lemma face_keys_Cons: "face_keys ((x, y, z) # fs) = {edge_key x y, edge_key y z, edge_key z x} \<union> face_keys fs"
  by (auto simp: face_keys_def corners_def)

lemma split_face_mono:
  assumes "m \<subseteq>\<^sub>m m'" "{edge_key x y, edge_key y z, edge_key z x} \<subseteq> dom m"
  shows "split_face m' (x, y, z) = split_face m (x, y, z)"
  using assms by (auto simp: split_face_def map_le_def)

lemma subdivide_faces_effect:
  assumes "cache_ok n E (verts, m)" "finite E" "n + card E \<le> 2 ^ 32" "face_keys fs \<subseteq> E"
    and "\<forall>(x, y, z) \<in> set fs. x < n \<and> y < n \<and> z < n"
  shows "\<exists>nf verts' m'. subdivide_faces f fs (verts, m) = Some (nf, verts', m') \<and> cache_ok n E (verts', m')
    \<and> m \<subseteq>\<^sub>m m' \<and> dom m' = dom m \<union> face_keys fs \<and> nf = concat (map (split_face m') fs)"
  using assms(1,4,5)
proof (induction fs arbitrary: verts m)
  case Nil
  then show ?case by (simp add: face_keys_def corners_def)
next
  case (Cons t fs)
  obtain x y z where t: "t = (x, y, z)" by (cases t)
  have xyz: "x < n" "y < n" "z < n" "edge_key x y \<in> E" "edge_key y z \<in> E" "edge_key z x \<in> E"
    and fs: "face_keys fs \<subseteq> E" "\<forall>(x, y, z) \<in> set fs. x < n \<and> y < n \<and> z < n"
    using Cons.prems by (auto simp: t face_keys_Cons)
  obtain a v1 m1 where 1: "get_mid f x y (verts, m) = Some (a, v1, m1)" "cache_ok n E (v1, m1)" "m \<subseteq>\<^sub>m m1"
    "m1 (edge_key x y) = Some a" "dom m1 = insert (edge_key x y) (dom m)"
    using get_mid_effect [OF Cons.prems(1) assms(2,3) xyz(1,2,4)] by blast
  obtain b v2 m2 where 2: "get_mid f y z (v1, m1) = Some (b, v2, m2)" "cache_ok n E (v2, m2)" "m1 \<subseteq>\<^sub>m m2"
    "m2 (edge_key y z) = Some b" "dom m2 = insert (edge_key y z) (dom m1)"
    using get_mid_effect [OF 1(2) assms(2,3) xyz(2,3,5)] by blast
  obtain c v3 m3 where 3: "get_mid f z x (v2, m2) = Some (c, v3, m3)" "cache_ok n E (v3, m3)" "m2 \<subseteq>\<^sub>m m3"
    "m3 (edge_key z x) = Some c" "dom m3 = insert (edge_key z x) (dom m2)"
    using get_mid_effect [OF 2(2) assms(2,3) xyz(3,1,6)] by blast
  obtain nf v' m' where r: "subdivide_faces f fs (v3, m3) = Some (nf, v', m')" "cache_ok n E (v', m')" "m3 \<subseteq>\<^sub>m m'"
    "dom m' = dom m3 \<union> face_keys fs" "nf = concat (map (split_face m') fs)"
    using Cons.IH [OF 3(2) fs] by blast
  have le: "m1 \<subseteq>\<^sub>m m'" "m2 \<subseteq>\<^sub>m m'" "m \<subseteq>\<^sub>m m'"
    using 1(3) 2(3) 3(3) r(3) by (blast intro: map_le_trans)+
  have "m' (edge_key x y) = Some a" "m' (edge_key y z) = Some b" "m' (edge_key z x) = Some c"
    using le(1,2) r(3) 1(4) 2(4) 3(4) by (metis map_le_def domI)+
  then have "split_face m' t = [(x, a, c), (y, b, a), (z, c, b), (a, b, c)]"
    by (simp add: split_face_def t)
  moreover have "dom m' = dom m \<union> face_keys (t # fs)"
    using r(4) 1(5) 2(5) 3(5) by (auto simp: t face_keys_Cons)
  ultimately show ?case
    using 1(1) 2(1) 3(1) r(1,2,5) le(3) by (simp add: t)
qed

section \<open>One level keeps a mesh closed\<close>

definition closed_corners :: "nat \<Rightarrow> face set \<Rightarrow> bool" where
  "closed_corners n C \<longleftrightarrow>
     (\<forall>u v w. (u, v, w) \<in> C \<longrightarrow> (v, w, u) \<in> C \<and> u < n \<and> u \<noteq> v \<and> (w, v, u) \<notin> C \<and> (\<exists>x. (v, u, x) \<in> C)) \<and>
     (\<forall>u v w w'. (u, v, w) \<in> C \<longrightarrow> (u, v, w') \<in> C \<longrightarrow> w = w')"

lemma corners_rotate: "(u, v, w) \<in> set (corners fs) \<Longrightarrow> (v, w, u) \<in> set (corners fs)"
proof -
  assume "(u, v, w) \<in> set (corners fs)"
  then obtain t where t: "t \<in> set fs" "(u, v, w) \<in> set (face_corners t)"
    by (auto simp: corners_def)
  from t(2) have "(v, w, u) \<in> set (face_corners t)"
    by (cases t) auto
  with t(1) show ?thesis
    by (auto simp: corners_def)
qed

lemma inj_on_dart_iff: "inj_on dart C \<longleftrightarrow> (\<forall>u v w w'. (u, v, w) \<in> C \<longrightarrow> (u, v, w') \<in> C \<longrightarrow> w = w')"
proof
  assume "inj_on dart C"
  then show "\<forall>u v w w'. (u, v, w) \<in> C \<longrightarrow> (u, v, w') \<in> C \<longrightarrow> w = w'"
    using inj_onD [of dart C] by fastforce
qed (auto simp: inj_on_def)

lemma closed_mesh_iff: "closed_mesh n fs \<longleftrightarrow> distinct (corners fs) \<and> closed_corners n (set (corners fs))"
proof -
  have "(v, u) \<in> set (map dart (corners fs)) \<longleftrightarrow> (\<exists>x. (v, u, x) \<in> set (corners fs))" for u v
    by force
  then have "list_all (\<lambda>(u, v, w). u < n \<and> u \<noteq> v \<and> (v, u) \<in> set (map dart (corners fs)) \<and> (w, v, u) \<notin> set (corners fs))
      (corners fs) \<longleftrightarrow> (\<forall>u v w. (u, v, w) \<in> set (corners fs) \<longrightarrow> u < n \<and> u \<noteq> v \<and> (w, v, u) \<notin> set (corners fs)
      \<and> (\<exists>x. (v, u, x) \<in> set (corners fs)))"
    unfolding list_all_iff by blast
  then show ?thesis
    unfolding closed_mesh_def closed_corners_def distinct_map inj_on_dart_iff
    using corners_rotate [of _ _ _ fs] by blast
qed

lemma closed_cornersD:
  assumes "closed_corners n C" "(u, v, w) \<in> C"
  shows "(v, w, u) \<in> C" "(w, u, v) \<in> C" "u < n" "v < n" "w < n" "u \<noteq> v" "v \<noteq> w" "w \<noteq> u" "(w, v, u) \<notin> C"
    "\<exists>x. (v, u, x) \<in> C"
  using assms unfolding closed_corners_def by blast+

lemma closed_corners_unique: "closed_corners n C \<Longrightarrow> (u, v, w) \<in> C \<Longrightarrow> (u, v, w') \<in> C \<Longrightarrow> w = w'"
  unfolding closed_corners_def by blast

text \<open>Midpoints of the edges: new vertices, and different ones for different edges.\<close>

definition midpoints :: "nat \<Rightarrow> face set \<Rightarrow> (nat \<Rightarrow> nat \<Rightarrow> nat) \<Rightarrow> bool" where
  "midpoints n C mid \<longleftrightarrow> (\<forall>u v. mid u v = mid v u) \<and>
     (\<forall>u v w. (u, v, w) \<in> C \<longrightarrow> n \<le> mid u v) \<and>
     (\<forall>u v w u' v' w'. (u, v, w) \<in> C \<longrightarrow> (u', v', w') \<in> C \<longrightarrow> mid u v = mid u' v' \<longrightarrow>
        (u = u' \<and> v = v') \<or> (u = v' \<and> v = u'))"

lemma midpoints_cases:
  assumes "midpoints n C mid" "mid u v = mid u' v'" "(u, v, w) \<in> C" "(u', v', w') \<in> C"
  obtains "u = u'" "v = v'" | "u = v'" "v = u'"
  using assms unfolding midpoints_def by blast

lemma midpoints_new:
  assumes "midpoints n C mid" "closed_corners n C" "(u, v, w) \<in> C"
  shows "n \<le> mid u v" "n \<le> mid v w" "n \<le> mid w u"
  using assms closed_cornersD(1,2) [OF assms(2,3)] unfolding midpoints_def by blast+

primrec new_corner :: "(nat \<Rightarrow> nat \<Rightarrow> nat) \<Rightarrow> nat \<Rightarrow> nat \<Rightarrow> nat \<Rightarrow> nat \<Rightarrow> face" where
  "new_corner mid u v w 0 = (u, mid u v, mid w u)"
| "new_corner mid u v w (Suc i) =
     (case i of 0 \<Rightarrow> (mid u v, mid w u, u) | Suc 0 \<Rightarrow> (mid w u, u, mid u v) | _ \<Rightarrow> (mid u v, mid v w, mid w u))"

definition new_corners :: "(nat \<Rightarrow> nat \<Rightarrow> nat) \<Rightarrow> face set \<Rightarrow> face set" where
  "new_corners mid C = (\<lambda>((u, v, w), i). new_corner mid u v w i) ` (C \<times> {..<4})"

lemma inner_same:
  assumes "closed_corners n C" "midpoints n C mid" "(u, v, w) \<in> C" "(u', v', w') \<in> C"
    and "mid u v = mid u' v'" "mid v w = mid v' w'"
  shows "u = u' \<and> v = v' \<and> w = w'"
proof -
  note d = closed_cornersD [OF assms(1,3)] and d' = closed_cornersD [OF assms(1,4)]
  from assms(2,5,3,4) show ?thesis
  proof (cases rule: midpoints_cases)
    case 1
    then show ?thesis
      using closed_corners_unique [OF assms(1)] assms(3,4) by blast
  next
    case 2
    from assms(2,6) d(1) d'(1) show ?thesis
      by (cases rule: midpoints_cases) (use 2 d d' in auto)
  qed
qed

lemma inner_opposed:
  assumes "closed_corners n C" "midpoints n C mid" "(u, v, w) \<in> C" "(u', v', w') \<in> C"
    and "mid u v = mid u' v'" "mid w u = mid v' w'"
  shows False
proof -
  note d = closed_cornersD [OF assms(1,3)] and d' = closed_cornersD [OF assms(1,4)]
  from assms(2,6) d(2) d'(1) show ?thesis
  proof (cases rule: midpoints_cases)
    case 1
    from assms(2,5,3,4) show ?thesis
      by (cases rule: midpoints_cases) (use 1 d d' in auto)
  next
    case 2
    from assms(2,5,3,4) show ?thesis
      by (cases rule: midpoints_cases) (use 2 d d' assms(3,4) in auto)
  qed
qed

lemma less_4_cases: "i < (4::nat) \<Longrightarrow> i = 0 \<or> i = 1 \<or> i = 2 \<or> i = 3"
  by auto

lemma new_corner_simps:
  "new_corner mid u v w 1 = (mid u v, mid w u, u)" "new_corner mid u v w 2 = (mid w u, u, mid u v)"
  "new_corner mid u v w 3 = (mid u v, mid v w, mid w u)" "new_corner mid u v w (Suc 0) = (mid u v, mid w u, u)"
  by (simp_all add: eval_nat_numeral)

lemma new_corner_class:
  assumes "closed_corners n C" "midpoints n C mid" "(u, v, w) \<in> C" "i < 4"
  shows "fst (dart (new_corner mid u v w i)) < n \<longleftrightarrow> i = 0" "snd (dart (new_corner mid u v w i)) < n \<longleftrightarrow> i = 2"
proof -
  have "\<not> mid u v < n" "\<not> mid v w < n" "\<not> mid w u < n" "u < n"
    using midpoints_new [OF assms(2,1,3)] closed_cornersD(3) [OF assms(1,3)] by auto
  then show "fst (dart (new_corner mid u v w i)) < n \<longleftrightarrow> i = 0" "snd (dart (new_corner mid u v w i)) < n \<longleftrightarrow> i = 2"
    using less_4_cases [OF assms(4)] by (elim disjE; simp add: new_corner_simps)+
qed

lemma new_corner_inj:
  assumes C: "closed_corners n C" and M: "midpoints n C mid" and c: "(u, v, w) \<in> C" "(u', v', w') \<in> C"
    and i: "i < 4" "j < 4" and eq: "dart (new_corner mid u v w i) = dart (new_corner mid u' v' w' j)"
  shows "u = u' \<and> v = v' \<and> w = w' \<and> i = j"
proof -
  note d = closed_cornersD [OF C c(1)] and d' = closed_cornersD [OF C c(2)]
  have kind: "i = 0 \<longleftrightarrow> j = 0" "i = 2 \<longleftrightarrow> j = 2"
    using new_corner_class [OF C M c(1) i(1)] new_corner_class [OF C M c(2) i(2)] eq by simp_all
  consider "i = 0" "j = 0" | "i = 2" "j = 2" | "i = 1" "j = 1" | "i = 3" "j = 3" | "i = 1" "j = 3" | "i = 3" "j = 1"
    using less_4_cases [OF i(1)] less_4_cases [OF i(2)] kind by auto
  then show ?thesis
  proof cases
    case 1
    then have "mid u v = mid u' v'" "u = u'"
      using eq by auto
    from M this(1) c show ?thesis
      by (cases rule: midpoints_cases) (use 1 \<open>u = u'\<close> d' closed_corners_unique [OF C] c in blast)+
  next
    case 2
    then have "mid w u = mid w' u'" "u = u'"
      using eq by (auto simp: new_corner_simps)
    from M this(1) d(2) d'(2) show ?thesis
      by (cases rule: midpoints_cases) (use 2 \<open>u = u'\<close> d d' closed_corners_unique [OF C] in blast)+
  next
    case 3
    then show ?thesis
      using inner_same [OF C M d(2) d'(2)] eq by (simp add: new_corner_simps)
  next
    case 4
    then show ?thesis
      using inner_same [OF C M c] eq by (simp add: new_corner_simps)
  next
    case 5
    then show ?thesis
      using inner_opposed [OF C M c] eq by (simp add: new_corner_simps)
  next
    case 6
    then show ?thesis
      using inner_opposed [OF C M c(2,1)] eq by (simp add: new_corner_simps)
  qed
qed

lemma new_cornersI:
  assumes "(u, v, w) \<in> C"
  shows "(u, mid u v, mid w u) \<in> new_corners mid C" "(mid u v, mid w u, u) \<in> new_corners mid C"
    "(mid w u, u, mid u v) \<in> new_corners mid C" "(mid u v, mid v w, mid w u) \<in> new_corners mid C"
proof -
  have "new_corner mid u v w i \<in> new_corners mid C" if "i < 4" for i
    using assms that unfolding new_corners_def by (intro image_eqI [of _ _ "((u, v, w), i)"]) auto
  from this [of 0] this [of 1] this [of 2] this [of 3]
  show "(u, mid u v, mid w u) \<in> new_corners mid C" "(mid u v, mid w u, u) \<in> new_corners mid C"
    "(mid w u, u, mid u v) \<in> new_corners mid C" "(mid u v, mid v w, mid w u) \<in> new_corners mid C"
    by (simp_all add: new_corner_simps)
qed

lemma new_cornersE:
  assumes "(p, q, r) \<in> new_corners mid C"
  obtains u v w i where "(u, v, w) \<in> C" "i < 4" "(p, q, r) = new_corner mid u v w i"
  using assms unfolding new_corners_def by auto

lemma new_corners_cases:
  assumes "(p, q, r) \<in> new_corners mid C"
  obtains u v w where "(u, v, w) \<in> C" "p = u" "q = mid u v" "r = mid w u"
  | u v w where "(u, v, w) \<in> C" "p = mid u v" "q = mid w u" "r = u"
  | u v w where "(u, v, w) \<in> C" "p = mid w u" "q = u" "r = mid u v"
  | u v w where "(u, v, w) \<in> C" "p = mid u v" "q = mid v w" "r = mid w u"
  using assms
proof (rule new_cornersE)
  fix u v w i
  assume c: "(u, v, w) \<in> C" "i < 4" "(p, q, r) = new_corner mid u v w i"
  from less_4_cases [OF c(2)] c(1,3) that show thesis
    by (elim disjE) (simp_all add: new_corner_simps)
qed

lemma new_corners_unique:
  assumes C: "closed_corners n C" "midpoints n C mid"
    and p: "(p, q, r) \<in> new_corners mid C" "(p, q, r') \<in> new_corners mid C"
  shows "r = r'"
proof -
  obtain u v w i where 1: "(u, v, w) \<in> C" "i < 4" "(p, q, r) = new_corner mid u v w i"
    using p(1) by (rule new_cornersE)
  obtain u' v' w' j where 2: "(u', v', w') \<in> C" "j < 4" "(p, q, r') = new_corner mid u' v' w' j"
    using p(2) by (rule new_cornersE)
  have "dart (p, q, r) = dart (p, q, r')"
    by simp
  then have "u = u' \<and> v = v' \<and> w = w' \<and> i = j"
    by (intro new_corner_inj [OF C 1(1) 2(1) 1(2) 2(2)]) (simp only: 1(3) 2(3))
  then show ?thesis
    using 1(3) 2(3) by (metis prod.inject)
qed

lemma new_corners_opposite:
  assumes C: "closed_corners n C" "midpoints n C mid" and p: "(p, q, r) \<in> new_corners mid C"
  shows "\<exists>x. (q, p, x) \<in> new_corners mid C"
proof -
  have sym: "mid x y = mid y x" for x y
    using C(2) by (simp add: midpoints_def)
  from p show ?thesis
  proof (cases rule: new_corners_cases)
    case (1 u v w)
    then obtain x where "(v, u, x) \<in> C"
      using closed_cornersD(10) [OF C(1)] by blast
    then have "(u, x, v) \<in> C"
      using closed_cornersD(1) [OF C(1)] by blast
    then show ?thesis
      using new_cornersI(3) [of u x v C mid] 1 sym [of v u] by auto
  next
    case (2 u v w)
    then show ?thesis
      using new_cornersI(4) [OF closed_cornersD(2) [OF C(1) 2(1)], of mid] by auto
  next
    case (3 u v w)
    then obtain x where "(u, w, x) \<in> C"
      using closed_cornersD(10) [OF C(1) closed_cornersD(2) [OF C(1)]] by blast
    then show ?thesis
      using new_cornersI(1) [of u w x C mid] 3 sym [of w u] by auto
  next
    case (4 u v w)
    then show ?thesis
      using new_cornersI(2) [OF closed_cornersD(1) [OF C(1) 4(1)], of mid] by auto
  qed
qed

lemma new_corners_rotate:
  assumes "closed_corners n C" "(p, q, r) \<in> new_corners mid C"
  shows "(q, r, p) \<in> new_corners mid C"
  using assms(2)
proof (cases rule: new_corners_cases)
  case (4 u v w)
  then show ?thesis
    using new_cornersI(4) [OF closed_cornersD(1) [OF assms(1) 4(1)], of mid] by simp
qed (simp_all add: new_cornersI)

lemma outer_not_flipped:
  assumes C: "closed_corners n C" "midpoints n C mid" and c: "(u, v, w) \<in> C"
  shows "(u, mid w u, mid u v) \<notin> new_corners mid C"
proof
  note d = closed_cornersD [OF C(1) c]
  have old: "u \<noteq> mid x y" if "(x, y, z) \<in> C" for x y z
    using midpoints_new(1) [OF C(2,1) that] d(3) by auto
  assume "(u, mid w u, mid u v) \<in> new_corners mid C"
  then show False
  proof (cases rule: new_corners_cases)
    case (1 u' v' w')
    note d' = closed_cornersD [OF C(1) 1(1)]
    have "v' = w"
      using C(2) 1(3) d(2) 1(1) by (cases rule: midpoints_cases) (use 1(2) d in auto)
    moreover have "w' = v"
      using C(2) 1(4) c d'(2) by (cases rule: midpoints_cases) (use 1(2) d d' in auto)
    ultimately have "(u, w, v) \<in> C"
      using 1(1,2) by simp
    then show False
      using closed_cornersD(1) [OF C(1)] d(9) by blast
  next
    case (2 u' v' w')
    then show False using old by blast
  next
    case (3 u' v' w')
    then show False using old closed_cornersD(2) [OF C(1) 3(1)] by blast
  next
    case (4 u' v' w')
    then show False using old by blast
  qed
qed

lemma new_corners_not_flipped:
  assumes C: "closed_corners n C" "midpoints n C mid" and p: "(p, q, r) \<in> new_corners mid C"
  shows "(r, q, p) \<notin> new_corners mid C"
proof
  assume flip: "(r, q, p) \<in> new_corners mid C"
  note rot = new_corners_rotate [OF C(1)] and outer = outer_not_flipped [OF C]
  from p show False
  proof (cases rule: new_corners_cases)
    case (1 u v w)
    then show False using outer rot [OF rot [OF flip]] by simp
  next
    case (2 u v w)
    then show False using outer flip by simp
  next
    case (3 u v w)
    then show False using outer rot [OF flip] by simp
  next
    case (4 u v w)
    then have "(mid w u, mid v w, w) \<in> new_corners mid C"
      using new_cornersI(2) [OF closed_cornersD(2) [OF C(1) 4(1)], of mid] by simp
    then have "mid u v = w"
      using new_corners_unique [OF C _ flip [unfolded 4(2-4)]] by blast
    then show False
      using midpoints_new(1) [OF C(2,1) 4(1)] closed_cornersD(5) [OF C(1) 4(1)] by simp
  qed
qed

lemma new_corners_closed:
  assumes C: "closed_corners n C" "midpoints n C mid" and "n \<le> n'" "\<And>u v w. (u, v, w) \<in> C \<Longrightarrow> mid u v < n'"
  shows "closed_corners n' (new_corners mid C)"
proof -
  have "p < n'" if "(p, q, r) \<in> new_corners mid C" for p q r
    using that
  proof (cases rule: new_corners_cases)
    case (1 u v w)
    then show ?thesis using closed_cornersD(3) [OF C(1)] assms(3) by fastforce
  next
    case (3 u v w)
    then show ?thesis using closed_cornersD(2) [OF C(1)] assms(4) by blast
  qed (use assms(4) in blast)+
  moreover have "p \<noteq> q" if t: "(p, q, r) \<in> new_corners mid C" for p q r
  proof
    assume "p = q"
    then have "(p, r, p) \<in> new_corners mid C"
      using t new_corners_rotate [OF C(1)] by blast
    then show False
      using new_corners_not_flipped [OF C, of p r p] by blast
  qed
  ultimately show ?thesis
    unfolding closed_corners_def
    using new_corners_rotate [OF C(1)] new_corners_not_flipped [OF C] new_corners_opposite [OF C]
      new_corners_unique [OF C] by meson
qed

section \<open>Counting\<close>

lemma new_corners_alt:
  "new_corners mid C = (\<Union>(u, v, w) \<in> C. {(u, mid u v, mid w u), (mid u v, mid w u, u), (mid w u, u, mid u v),
     (mid u v, mid v w, mid w u)})"
proof (intro equalityI subsetI)
  fix t
  assume "t \<in> new_corners mid C"
  moreover obtain p q r where "t = (p, q, r)" by (cases t)
  ultimately have "(p, q, r) \<in> new_corners mid C" "t = (p, q, r)" by simp_all
  then show "t \<in> (\<Union>(u, v, w) \<in> C. {(u, mid u v, mid w u), (mid u v, mid w u, u), (mid w u, u, mid u v),
     (mid u v, mid v w, mid w u)})"
    by (elim new_corners_cases) blast+
qed (auto intro: new_cornersI)

lemma corners_append: "corners (xs @ ys) = corners xs @ corners ys"
  by (simp add: corners_def)

lemma set_corners_split:
  "set (corners (concat (map (split_face m) fs))) = new_corners (\<lambda>u v. the (m (edge_key u v))) (set (corners fs))"
proof (induction fs)
  case Nil
  then show ?case by (simp add: corners_def new_corners_def)
next
  case (Cons t fs)
  obtain x y z where t: "t = (x, y, z)" by (cases t)
  have "set (corners (split_face m t)) = new_corners (\<lambda>u v. the (m (edge_key u v))) (set (face_corners t))"
    unfolding new_corners_alt t split_face_def corners_def Let_def by auto
  moreover have "new_corners mid (A \<union> B) = new_corners mid A \<union> new_corners mid B" for mid A B
    unfolding new_corners_alt by blast
  ultimately show ?case
    using Cons by (simp add: corners_append) (simp add: corners_def)
qed

lemma length_corners: "length (corners fs) = 3 * length fs"
  by (induction fs) (auto simp: corners_def)

lemma length_split: "length (concat (map (split_face m) fs)) = 4 * length fs"
  by (induction fs) (auto simp: split_face_def Let_def)

lemma card_new_corners:
  assumes "closed_corners n C" "midpoints n C mid"
  shows "card (new_corners mid C) = 4 * card C"
proof -
  have "inj_on (\<lambda>((u, v, w), i). new_corner mid u v w i) (C \<times> {..<4})"
  proof (rule inj_onI)
    fix s t
    assume st: "s \<in> C \<times> {..<4}" "t \<in> C \<times> {..<4}"
      "(\<lambda>((u, v, w), i). new_corner mid u v w i) s = (\<lambda>((u, v, w), i). new_corner mid u v w i) t"
    obtain u v w i where s: "s = ((u, v, w), i)" by (metis prod.collapse)
    obtain u' v' w' j where t: "t = ((u', v', w'), j)" by (metis prod.collapse)
    show "s = t"
      using st new_corner_inj [OF assms, of u v w u' v' w' i j] by (simp add: s t)
  qed
  then show ?thesis
    by (simp add: new_corners_def card_image card_cartesian_product)
qed

text \<open>Every edge has two darts.\<close>

lemma card_symmetric:
  fixes D :: "(nat \<times> nat) set"
  assumes "finite D" "\<And>u v. (u, v) \<in> D \<Longrightarrow> (v, u) \<in> D" "\<And>u. (u, u) \<notin> D"
  shows "card D = 2 * card {p \<in> D. fst p < snd p}"
proof -
  let ?K = "{p \<in> D. fst p < snd p}"
  have "p \<in> ?K \<union> prod.swap ` ?K" if "p \<in> D" for p
  proof (cases p)
    case (Pair u v)
    then have "u \<noteq> v" "prod.swap p \<in> D" "p = prod.swap (prod.swap p)"
      using that assms(2,3) by auto
    then show ?thesis
      using that Pair by (cases "u < v") (auto simp del: swap_swap)
  qed
  moreover have "?K \<subseteq> D" "prod.swap ` ?K \<subseteq> D"
    using assms(2) by auto
  ultimately have "D = ?K \<union> prod.swap ` ?K"
    by blast
  moreover have "card (?K \<union> prod.swap ` ?K) = card ?K + card (prod.swap ` ?K)"
    using assms(1) by (intro card_Un_disjoint) auto
  moreover have "card (prod.swap ` ?K) = card ?K"
    by (rule card_image) simp
  ultimately show ?thesis
    by simp
qed

lemma closed_mesh_dartD:
  assumes "closed_mesh n fs" "(u, v) \<in> dart ` set (corners fs)"
  shows "(v, u) \<in> dart ` set (corners fs) \<and> u \<noteq> v"
  using assms by (auto simp: closed_mesh_def list_all_iff)

lemma face_keys_darts:
  assumes "closed_mesh n fs"
  shows "face_keys fs = {p \<in> dart ` set (corners fs). fst p < snd p}"
proof (intro equalityI subsetI)
  fix k
  assume "k \<in> face_keys fs"
  then obtain u v where "(u, v) \<in> dart ` set (corners fs)" "k = edge_key u v"
    by (force simp: face_keys_def)
  then show "k \<in> {p \<in> dart ` set (corners fs). fst p < snd p}"
    using closed_mesh_dartD [OF assms, of u v] by (simp add: edge_key_def)
next
  fix k
  assume "k \<in> {p \<in> dart ` set (corners fs). fst p < snd p}"
  then obtain u v w where "(u, v, w) \<in> set (corners fs)" "k = (u, v)" "u < v"
    by force
  then show "k \<in> face_keys fs"
    unfolding face_keys_def by (intro image_eqI [of _ _ "(u, v, w)"]) (simp_all add: edge_key_def)
qed

lemma card_face_keys:
  assumes "closed_mesh n fs"
  shows "2 * card (face_keys fs) = 3 * length fs"
proof -
  have "card (dart ` set (corners fs)) = 3 * length fs"
    using assms distinct_card [of "map dart (corners fs)"] length_corners by (simp add: closed_mesh_def)
  moreover have "card (dart ` set (corners fs)) = 2 * card {p \<in> dart ` set (corners fs). fst p < snd p}"
    by (rule card_symmetric) (use closed_mesh_dartD [OF assms] in blast)+
  ultimately show ?thesis
    by (simp only: face_keys_darts [OF assms])
qed

section \<open>The icosphere is closed\<close>

lemma closed_mesh_bounds:
  assumes "closed_mesh n fs" "(x, y, z) \<in> set fs"
  shows "x < n \<and> y < n \<and> z < n"
proof -
  have "(x, y, z) \<in> set (corners fs)"
    using assms(2) by (force simp: corners_def)
  then show ?thesis
    using closed_cornersD(3-5) assms(1) closed_mesh_iff by blast
qed

lemma cache_midpoints:
  assumes "closed_mesh n fs" "cache_ok n (face_keys fs) (verts, m)" "dom m = face_keys fs"
  shows "midpoints n (set (corners fs)) (\<lambda>u v. the (m (edge_key u v)))"
    "(u, v, w) \<in> set (corners fs) \<Longrightarrow> the (m (edge_key u v)) < length verts"
proof -
  have key: "edge_key u v \<in> dom m" if "(u, v, w) \<in> set (corners fs)" for u v w
    using that assms(3) by (force simp: face_keys_def)
  have range: "n \<le> the (m k) \<and> the (m k) < length verts" if "k \<in> dom m" for k
    using that assms(2) by (auto simp: cache_ok_def dest: ranI)
  have inj: "k = l" if "k \<in> dom m" "l \<in> dom m" "the (m k) = the (m l)" for k l
  proof -
    have "m k = m l"
      using that by auto
    then show ?thesis
      using that(1,2) assms(2) by (auto simp: cache_ok_def dest: inj_onD)
  qed
  show "midpoints n (set (corners fs)) (\<lambda>u v. the (m (edge_key u v)))"
    unfolding midpoints_def
  proof (intro conjI allI impI)
    show "(u = u' \<and> v = v') \<or> (u = v' \<and> v = u')"
      if "(u, v, w) \<in> set (corners fs)" "(u', v', w') \<in> set (corners fs)"
        "the (m (edge_key u v)) = the (m (edge_key u' v'))" for u v w u' v' w'
      using inj [OF key [OF that(1)] key [OF that(2)] that(3)] edge_key_eq_iff by blast
  qed (use range key edge_key_commute in metis)+
  show "the (m (edge_key u v)) < length verts" if "(u, v, w) \<in> set (corners fs)"
    using range [OF key [OF that]] by simp
qed

lemma split_closed:
  assumes "closed_mesh n fs" "cache_ok n (face_keys fs) (verts, m)" "dom m = face_keys fs"
  shows "closed_mesh (length verts) (concat (map (split_face m) fs))"
proof -
  let ?nf = "concat (map (split_face m) fs)" and ?C = "set (corners fs)"
  have C: "distinct (corners fs)" "closed_corners n ?C"
    using assms(1) by (simp_all add: closed_mesh_iff)
  note mid = cache_midpoints [OF assms]
  have "n \<le> length verts"
    using assms(2) by (simp add: cache_ok_def)
  then have "closed_corners (length verts) (set (corners ?nf))"
    unfolding set_corners_split by (rule new_corners_closed [OF C(2) mid(1)]) (rule mid(2))
  moreover have "card (set (corners ?nf)) = length (corners ?nf)"
    unfolding set_corners_split card_new_corners [OF C(2) mid(1)]
    by (simp add: distinct_card [OF C(1)] length_corners length_split)
  ultimately show ?thesis
    by (simp add: closed_mesh_iff card_distinct)
qed

lemma subdivide_level:
  assumes "closed_mesh (length verts) fs" "length verts + card (face_keys fs) \<le> 2 ^ 32"
  obtains nf verts' m where "subdivide_faces f fs (verts, Map.empty) = Some (nf, verts', m)"
    "closed_mesh (length verts') nf" "length nf = 4 * length fs" "length verts' = length verts + card (face_keys fs)"
proof -
  have "cache_ok (length verts) (face_keys fs) (verts, Map.empty)" "finite (face_keys fs)"
    by (simp_all add: cache_ok_def face_keys_def)
  moreover have "\<forall>(x, y, z) \<in> set fs. x < length verts \<and> y < length verts \<and> z < length verts"
    using closed_mesh_bounds [OF assms(1)] by blast
  ultimately obtain nf verts' m where r: "subdivide_faces f fs (verts, Map.empty) = Some (nf, verts', m)"
    "cache_ok (length verts) (face_keys fs) (verts', m)" "dom m = face_keys fs" "nf = concat (map (split_face m) fs)"
    using subdivide_faces_effect [of "length verts" "face_keys fs" verts Map.empty fs f] assms(2) by auto
  show ?thesis
  proof (rule that [OF r(1)])
    show "closed_mesh (length verts') nf"
      unfolding r(4) by (rule split_closed [OF assms(1) r(2,3)])
    show "length nf = 4 * length fs"
      unfolding r(4) by (rule length_split)
    show "length verts' = length verts + card (face_keys fs)"
      using r(2,3) by (simp add: cache_ok_def)
  qed
qed

lemma icosahedron_closed: "closed_mesh 12 icosahedron_faces"
  by code_simp

lemma subdivide_closed:
  assumes "closed_mesh (length (vertices m)) (faces m)" "length (vertices m) = 10 * 4 ^ k + 2"
    and "length (faces m) = 20 * 4 ^ k" "k + n \<le> 14"
  shows "\<exists>m'. subdivide f n m = Some m' \<and> closed_mesh (length (vertices m')) (faces m')
    \<and> length (vertices m') = 10 * 4 ^ (k + n) + 2 \<and> length (faces m') = 20 * 4 ^ (k + n)"
  using assms
proof (induction n arbitrary: m k)
  case (Suc n)
  have keys: "card (face_keys (faces m)) = 30 * 4 ^ k"
    using card_face_keys [OF Suc.prems(1)] Suc.prems(3) by simp
  have "(4::nat) ^ Suc k \<le> 4 ^ 14"
    using Suc.prems(4) by (intro power_increasing) simp_all
  then have "length (vertices m) + card (face_keys (faces m)) \<le> 2 ^ 32"
    using Suc.prems(2) keys by simp
  then obtain nf verts' c where r: "subdivide_faces f (faces m) (vertices m, Map.empty) = Some (nf, verts', c)"
    "closed_mesh (length verts') nf" "length nf = 4 * length (faces m)"
    "length verts' = length (vertices m) + card (face_keys (faces m))"
    using subdivide_level [OF Suc.prems(1), of f] by blast
  show ?case
    using Suc.IH [of "\<lparr> vertices = verts', faces = nf \<rparr>" "Suc k"] r Suc.prems(2-4) keys by simp
qed auto

lemma icosahedron_lengths: "length (icosahedron_vertices f) = 12" "length icosahedron_faces = 20"
  by (simp_all add: icosahedron_vertices_def icosahedron_faces_def Let_def)

lemma icosphere_closed:
  assumes "n \<le> 14"
  obtains m where "icosphere f n = Some m" "closed_mesh (length (vertices m)) (faces m)"
    "length (vertices m) = 10 * 4 ^ n + 2" "length (faces m) = 20 * 4 ^ n"
proof -
  let ?m = "\<lparr> vertices = icosahedron_vertices f, faces = icosahedron_faces \<rparr>"
  have "\<exists>m'. subdivide f n ?m = Some m' \<and> closed_mesh (length (vertices m')) (faces m')
    \<and> length (vertices m') = 10 * 4 ^ (0 + n) + 2 \<and> length (faces m') = 20 * 4 ^ (0 + n)"
    by (rule subdivide_closed) (simp_all add: icosahedron_lengths icosahedron_closed assms)
  then show ?thesis
    using that by (auto simp: icosphere_def)
qed

end
