(* ===== verification/Asteroid.thy ===== *)
theory Asteroid
  imports Icosphere Bytes "HOL-Library.State_Monad" "HOL-Library.Multiset"
begin

text \<open>
  The asteroid generator of the proof of scan (\<open>consensus/obj-asteroid/src\<close>): the random
  numbers (\<open>rng.rs\<close>), the Perlin relief (\<open>perlin.rs\<close>), the sculpting of the blank (\<open>shape.rs\<close>)
  and the growth from a seed (\<open>lib.rs\<close>). The state monad threads the generator through the draws
  in the order of the code. The stream itself is \<open>Pcg64\<close> of the library \<open>rand_pcg\<close> and a
  parameter; arrays are lists, and an index out of bounds gives \<open>None\<close>.
\<close>

section \<open>Random numbers\<close>

record 'g rng_ops =
  rng_from_seed :: "bytes \<Rightarrow> 'g"
  rng_next_u64 :: "'g \<Rightarrow> nat \<times> 'g"

definition rng_unit :: "'f fops \<Rightarrow> 'g rng_ops \<Rightarrow> ('g, 'f) state" where
  "rng_unit f ro = do {
     x \<leftarrow> State (rng_next_u64 ro);
     State_Monad.return (fdiv f (fof_nat f (x div 2 ^ 11)) (fof_nat f (2 ^ 53)))
   }"

definition rng_range :: "'f fops \<Rightarrow> 'g rng_ops \<Rightarrow> 'f \<Rightarrow> 'f \<Rightarrow> ('g, 'f) state" where
  "rng_range f ro lo hi = do {
     u \<leftarrow> rng_unit f ro;
     State_Monad.return (fadd f lo (fmul f u (fsub f hi lo)))
   }"

text \<open>The constant \<open>PI\<close> is the double nearest to this decimal.\<close>

definition PI_lit :: rat where "PI_lit = 3141592653589793 / 1000000000000000"

definition unit_vector :: "'f fops \<Rightarrow> 'g rng_ops \<Rightarrow> ('g, 'f vec3) state" where
  "unit_vector f ro = do {
     u \<leftarrow> rng_unit f ro;
     let z = fsub f (fmul f (flit f 2) u) (flit f 1);
     u' \<leftarrow> rng_unit f ro;
     let phi = fmul f (fmul f (flit f 2) (flit f PI_lit)) u';
     let r = fsqrt f (fsub f (flit f 1) (fmul f z z));
     State_Monad.return (fmul f r (fcos f phi), fmul f r (fsin f phi), z)
   }"

definition next_seed :: "'g rng_ops \<Rightarrow> ('g, bytes) state" where
  "next_seed ro = do {
     a \<leftarrow> State (rng_next_u64 ro);
     b \<leftarrow> State (rng_next_u64 ro);
     c \<leftarrow> State (rng_next_u64 ro);
     d \<leftarrow> State (rng_next_u64 ro);
     State_Monad.return (le_bytes 8 a @ le_bytes 8 b @ le_bytes 8 c @ le_bytes 8 d)
   }"

text \<open>A loop that draws \<open>n\<close> items into a vector.\<close>

primrec draw_many :: "nat \<Rightarrow> ('g, 'a) state \<Rightarrow> ('g, 'a list) state" where
  "draw_many 0 m = State_Monad.return []"
| "draw_many (Suc n) m = do { x \<leftarrow> m; xs \<leftarrow> draw_many n m; State_Monad.return (x # xs) }"

section \<open>Shuffling\<close>

definition swap_at :: "nat \<Rightarrow> nat \<Rightarrow> 'a list \<Rightarrow> 'a list option" where
  "swap_at i j xs = (if i < length xs \<and> j < length xs then Some (xs[i := xs ! j, j := xs ! i]) else None)"

text \<open>Fisher-Yates from index \<open>i\<close> down to one.\<close>

primrec shuffle :: "'f fops \<Rightarrow> 'g rng_ops \<Rightarrow> nat \<Rightarrow> 'a list \<Rightarrow> ('g, 'a list option) state" where
  "shuffle f ro 0 xs = State_Monad.return (Some xs)"
| "shuffle f ro (Suc i) xs = do {
     u \<leftarrow> rng_unit f ro;
     let j = min (fto_usize f (fmul f u (fadd f (fof_nat f (Suc i)) (flit f 1)))) (Suc i);
     (case swap_at (Suc i) j xs of
        None \<Rightarrow> State_Monad.return None
      | Some xs \<Rightarrow> shuffle f ro i xs)
   }"

definition shuffle3 :: "'f fops \<Rightarrow> 'g rng_ops \<Rightarrow> 'a list \<Rightarrow> ('g, 'a list option) state" where
  "shuffle3 f ro a = shuffle f ro 2 a"

section \<open>Perlin relief\<close>

record 'f Fbm =
  fbm_perm :: "nat list"
  fbm_octaves :: nat
  fbm_frequency :: 'f

definition shuffled_perm :: "'f fops \<Rightarrow> 'g rng_ops \<Rightarrow> bytes \<Rightarrow> nat list option" where
  "shuffled_perm f ro seed =
     map_option (\<lambda>p. p @ p) (fst (run_state (shuffle f ro 255 [0..<256]) (rng_from_seed ro seed)))"

definition Fbm_new :: "'f fops \<Rightarrow> 'g rng_ops \<Rightarrow> bytes \<Rightarrow> nat \<Rightarrow> 'f \<Rightarrow> 'f Fbm option" where
  "Fbm_new f ro seed octaves frequency =
     map_option (\<lambda>p. \<lparr> fbm_perm = p, fbm_octaves = octaves, fbm_frequency = frequency \<rparr>) (shuffled_perm f ro seed)"

definition fade :: "'f fops \<Rightarrow> 'f \<Rightarrow> 'f" where
  "fade f t = fmul f (fmul f (fmul f t t) t)
     (fadd f (fmul f t (fsub f (fmul f t (flit f 6)) (flit f 15))) (flit f 10))"

definition lerp :: "'f fops \<Rightarrow> 'f \<Rightarrow> 'f \<Rightarrow> 'f \<Rightarrow> 'f" where
  "lerp f t a b = fadd f a (fmul f t (fsub f b a))"

definition grad :: "'f fops \<Rightarrow> nat \<Rightarrow> 'f \<Rightarrow> 'f \<Rightarrow> 'f \<Rightarrow> 'f" where
  "grad f hash x y z =
     (let h = hash mod 16;
          u = (if h < 8 then x else y);
          v = (if h < 4 then y else if h = 12 \<or> h = 14 then x else z)
      in fadd f (if h mod 2 = 0 then u else fneg f u) (if h div 2 mod 2 = 0 then v else fneg f v))"

definition at_opt :: "'a list \<Rightarrow> nat \<Rightarrow> 'a option" where
  "at_opt xs i = (if i < length xs then Some (xs ! i) else None)"

text \<open>The lattice cell of a coordinate: its floor as a 32-bit integer, the low eight bits of it.\<close>

definition cell :: "'f fops \<Rightarrow> 'f \<Rightarrow> nat" where
  "cell f x = nat (fto_i32 f (ffloor f x) mod 256)"

definition noise :: "'f fops \<Rightarrow> nat list \<Rightarrow> 'f \<Rightarrow> 'f \<Rightarrow> 'f \<Rightarrow> 'f option" where
  "noise f p x0 y0 z0 =
     (let xi = cell f x0; yi = cell f y0; zi = cell f z0;
          x = fsub f x0 (ffloor f x0); y = fsub f y0 (ffloor f y0); z = fsub f z0 (ffloor f z0);
          u = fade f x; v = fade f y; w = fade f z;
          one = flit f 1; x1 = fsub f x one; y1 = fsub f y one; z1 = fsub f z one
      in do {
        pa \<leftarrow> at_opt p xi; let a = pa + yi;
        paa \<leftarrow> at_opt p a; let aa = paa + zi;
        pab \<leftarrow> at_opt p (a + 1); let ab = pab + zi;
        pb \<leftarrow> at_opt p (xi + 1); let b = pb + yi;
        pba \<leftarrow> at_opt p b; let ba = pba + zi;
        pbb \<leftarrow> at_opt p (b + 1); let bb = pbb + zi;
        haa \<leftarrow> at_opt p aa; hba \<leftarrow> at_opt p ba; hab \<leftarrow> at_opt p ab; hbb \<leftarrow> at_opt p bb;
        haa1 \<leftarrow> at_opt p (aa + 1); hba1 \<leftarrow> at_opt p (ba + 1); hab1 \<leftarrow> at_opt p (ab + 1); hbb1 \<leftarrow> at_opt p (bb + 1);
        Some (lerp f w
          (lerp f v (lerp f u (grad f haa x y z) (grad f hba x1 y z))
                    (lerp f u (grad f hab x y1 z) (grad f hbb x1 y1 z)))
          (lerp f v (lerp f u (grad f haa1 x y z1) (grad f hba1 x1 y z1))
                    (lerp f u (grad f hab1 x y1 z1) (grad f hbb1 x1 y1 z1))))
      })"

primrec fbm_loop :: "'f fops \<Rightarrow> nat list \<Rightarrow> 'f vec3 \<Rightarrow> nat \<Rightarrow> 'f \<Rightarrow> 'f \<Rightarrow> 'f \<Rightarrow> 'f \<Rightarrow> ('f \<times> 'f) option" where
  "fbm_loop f p point 0 freq amp acc nrm = Some (acc, nrm)"
| "fbm_loop f p point (Suc n) freq amp acc nrm =
     (let (x, y, z) = point in
      Option.bind (noise f p (fmul f x freq) (fmul f y freq) (fmul f z freq)) (\<lambda>s.
        fbm_loop f p point n (fmul f freq (flit f 2)) (fmul f amp (flit f (1 / 2)))
          (fadd f acc (fmul f amp s)) (fadd f nrm amp)))"

definition Fbm_get :: "'f fops \<Rightarrow> 'f Fbm \<Rightarrow> 'f vec3 \<Rightarrow> 'f option" where
  "Fbm_get f b point =
     map_option (\<lambda>(acc, nrm). if flt f (flit f 0) nrm then fdiv f acc nrm else flit f 0)
       (fbm_loop f (fbm_perm b) point (fbm_octaves b) (fbm_frequency b) (flit f 1) (flit f 0) (flit f 0))"

section \<open>Shape\<close>

record 'f Lobe =
  lobe_dir :: "'f vec3"
  lobe_amp :: 'f
  lobe_sharp :: 'f
  lobe_sign :: 'f

record 'f AsteroidParams =
  base_radius :: 'f
  noise_amplitude :: 'f
  noise_frequency :: 'f
  octaves :: nat
  num_craters :: nat
  crater_min :: 'f
  crater_max :: 'f
  axis_scale :: "'f vec3"
  lobes :: "'f Lobe list"

definition default_params :: "'f fops \<Rightarrow> 'f AsteroidParams" where
  "default_params f = \<lparr> base_radius = flit f 1, noise_amplitude = flit f (35 / 100), noise_frequency = flit f (16 / 10),
     octaves = 5, num_craters = 8, crater_min = flit f (15 / 100), crater_max = flit f (45 / 100),
     axis_scale = (flit f 1, flit f 1, flit f 1), lobes = [] \<rparr>"

record 'f Crater =
  crater_center :: "'f vec3"
  crater_radius :: 'f
  crater_depth :: 'f
  crater_rim_width :: 'f

definition RIM_STEEPNESS :: "'f fops \<Rightarrow> 'f" where
  "RIM_STEEPNESS f = flit f (1 / 2)"

definition dist3 :: "'f fops \<Rightarrow> 'f vec3 \<Rightarrow> 'f vec3 \<Rightarrow> 'f" where
  "dist3 f a b =
     (let (a0, a1, a2) = a; (b0, b1, b2) = b; dx = fsub f a0 b0; dy = fsub f a1 b1; dz = fsub f a2 b2
      in fsqrt f (fadd f (fadd f (fmul f dx dx) (fmul f dy dy)) (fmul f dz dz)))"

definition fclamp :: "'f fops \<Rightarrow> 'f \<Rightarrow> 'f \<Rightarrow> 'f \<Rightarrow> 'f" where
  "fclamp f x lo hi = (let x = (if flt f x lo then lo else x) in if flt f hi x then hi else x)"

definition smin :: "'f fops \<Rightarrow> 'f \<Rightarrow> 'f \<Rightarrow> 'f \<Rightarrow> 'f" where
  "smin f a b k =
     (let h = fclamp f (fadd f (flit f (1 / 2)) (fdiv f (fmul f (flit f (1 / 2)) (fsub f b a)) k)) (flit f 0) (flit f 1)
      in fsub f (fadd f (fmul f b (fsub f (flit f 1) h)) (fmul f a h)) (fmul f (fmul f k h) (fsub f (flit f 1) h)))"

definition smax :: "'f fops \<Rightarrow> 'f \<Rightarrow> 'f \<Rightarrow> 'f \<Rightarrow> 'f" where
  "smax f a b k = fneg f (smin f (fneg f a) (fneg f b) k)"

definition draw_crater :: "'f fops \<Rightarrow> 'g rng_ops \<Rightarrow> 'f AsteroidParams \<Rightarrow> ('g, 'f Crater) state" where
  "draw_crater f ro params = do {
     center \<leftarrow> unit_vector f ro;
     radius \<leftarrow> rng_range f ro (crater_min params) (crater_max params);
     depth \<leftarrow> rng_range f ro (flit f (4 / 10)) (flit f (9 / 10));
     rim_width \<leftarrow> rng_range f ro (flit f (1 / 10)) (flit f (3 / 10));
     State_Monad.return \<lparr> crater_center = center, crater_radius = radius, crater_depth = depth,
       crater_rim_width = rim_width \<rparr>
   }"

definition lobe_elevation :: "'f fops \<Rightarrow> 'f vec3 \<Rightarrow> 'f Lobe \<Rightarrow> 'f \<Rightarrow> 'f" where
  "lobe_elevation f dir lobe elevation =
     (let (d0, d1, d2) = dir; (l0, l1, l2) = lobe_dir lobe;
          d = fadd f (fadd f (fmul f d0 l0) (fmul f d1 l1)) (fmul f d2 l2)
      in if flt f (flit f 0) d
         then fadd f elevation (fmul f (fmul f (lobe_sign lobe) (lobe_amp lobe)) (fpow f d (lobe_sharp lobe)))
         else elevation)"

definition crater_elevation :: "'f fops \<Rightarrow> 'f AsteroidParams \<Rightarrow> 'f vec3 \<Rightarrow> 'f Crater \<Rightarrow> 'f \<Rightarrow> 'f" where
  "crater_elevation f params dir c elevation =
     (let x = fdiv f (dist3 f dir (crater_center c)) (crater_radius c);
          cavity = fsub f (fmul f x x) (flit f 1);
          rim_x = ffmin f (fsub f (fsub f x (flit f 1)) (crater_rim_width c)) (flit f 0);
          rim = fmul f (fmul f (RIM_STEEPNESS f) rim_x) rim_x;
          shape = smax f cavity (fneg f (crater_depth c)) (flit f (1 / 2));
          shape = smin f shape rim (flit f (3 / 10))
      in fadd f elevation (fmul f shape (noise_amplitude params)))"

definition sculpt_vertex ::
  "'f fops \<Rightarrow> 'f AsteroidParams \<Rightarrow> 'f Fbm \<Rightarrow> 'f Crater list \<Rightarrow> 'f vec3 \<Rightarrow> 'f vec3 option" where
  "sculpt_vertex f params b craters dir =
     map_option (\<lambda>n.
       let elevation = fadd f (flit f 1) (fmul f (noise_amplitude params) n);
           elevation = fold (lobe_elevation f dir) (lobes params) elevation;
           elevation = fold (crater_elevation f params dir) craters elevation;
           r = ffmax f (fmul f (base_radius params) elevation) (fmul f (flit f (3 / 10)) (base_radius params));
           (d0, d1, d2) = dir; (s0, s1, s2) = axis_scale params
       in (fmul f (fmul f d0 r) s0, fmul f (fmul f d1 r) s1, fmul f (fmul f d2 r) s2))
     (Fbm_get f b dir)"

fun traverse :: "('a \<Rightarrow> 'b option) \<Rightarrow> 'a list \<Rightarrow> 'b list option" where
  "traverse h [] = Some []"
| "traverse h (x # xs) = Option.bind (h x) (\<lambda>y. map_option (Cons y) (traverse h xs))"

definition sculpt :: "'f fops \<Rightarrow> 'g rng_ops \<Rightarrow> 'f Mesh \<Rightarrow> 'f AsteroidParams \<Rightarrow> ('g, 'f Mesh option) state" where
  "sculpt f ro m params = do {
     seed \<leftarrow> next_seed ro;
     let fbm = Fbm_new f ro seed (octaves params) (noise_frequency params);
     craters \<leftarrow> draw_many (num_craters params) (draw_crater f ro params);
     State_Monad.return (Option.bind fbm (\<lambda>b.
       map_option (\<lambda>vs. m \<lparr> vertices := vs \<rparr>) (traverse (sculpt_vertex f params b craters) (vertices m))))
   }"

section \<open>Growing an asteroid\<close>

definition OCTAVES :: nat where "OCTAVES = 5"
definition NUM_CRATERS :: nat where "NUM_CRATERS = 10"
definition NUM_LOBES :: nat where "NUM_LOBES = 4"

definition draw_lobe :: "'f fops \<Rightarrow> 'g rng_ops \<Rightarrow> ('g, 'f Lobe) state" where
  "draw_lobe f ro = do {
     dir \<leftarrow> unit_vector f ro;
     amp \<leftarrow> rng_range f ro (flit f (8 / 100)) (flit f (20 / 100));
     sharp \<leftarrow> rng_range f ro (flit f 1) (flit f 2);
     u \<leftarrow> rng_unit f ro;
     State_Monad.return \<lparr> lobe_dir = dir, lobe_amp = amp, lobe_sharp = sharp,
       lobe_sign = (if flt f u (flit f (25 / 100)) then fneg f (flit f 1) else flit f 1) \<rparr>
   }"

definition grow :: "'f fops \<Rightarrow> 'g rng_ops \<Rightarrow> 'f Mesh \<Rightarrow> ('g, 'f Mesh option) state" where
  "grow f ro base = do {
     lam31 \<leftarrow> rng_range f ro (flit f (18 / 100)) (flit f (90 / 100));
     lam21 \<leftarrow> rng_range f ro lam31 (fmul f (fadd f (flit f 1) lam31) (flit f (1 / 2)));
     shuffled \<leftarrow> shuffle3 f ro [flit f 1, fsqrt f lam21, fsqrt f lam31];
     (case shuffled of
        Some [s0, s1, s2] \<Rightarrow> do {
          ls \<leftarrow> draw_many NUM_LOBES (draw_lobe f ro);
          amplitude \<leftarrow> rng_range f ro (flit f (16 / 100)) (flit f (30 / 100));
          frequency \<leftarrow> rng_range f ro (flit f (11 / 10)) (flit f (24 / 10));
          sculpt f ro base ((default_params f)
            \<lparr> noise_amplitude := amplitude, noise_frequency := frequency, octaves := OCTAVES,
              num_craters := NUM_CRATERS, axis_scale := (s0, s1, s2), lobes := ls \<rparr>)
        }
      | _ \<Rightarrow> State_Monad.return None)
   }"

definition asteroid_mesh :: "'f fops \<Rightarrow> 'g rng_ops \<Rightarrow> bytes \<Rightarrow> nat \<Rightarrow> 'f Mesh option" where
  "asteroid_mesh f ro seed subdivisions =
     Option.bind (icosphere f subdivisions) (\<lambda>base. fst (run_state (grow f ro base) (rng_from_seed ro seed)))"

section \<open>No index leaves its array\<close>

lemma run_state_bind_fst: "fst (run_state (State_Monad.bind m k) s) =
    (let (x, s') = run_state m s in fst (run_state (k x) s'))"
  by (simp add: State_Monad.bind_def split: prod.splits)

lemma swap_at_mset:
  assumes "i < length xs" "j \<le> i"
  obtains ys where "swap_at i j xs = Some ys" "mset ys = mset xs"
  using assms that mset_swap [of j xs i] by (auto simp: swap_at_def)

lemma shuffle_mset:
  assumes "i < length xs"
  shows "\<exists>ys. fst (run_state (shuffle f ro i xs) g) = Some ys \<and> mset ys = mset xs"
  using assms
proof (induction i arbitrary: xs g)
  case (Suc i)
  obtain u g' where u: "run_state (rng_unit f ro) g = (u, g')"
    by (cases "run_state (rng_unit f ro) g")
  let ?j = "min (fto_usize f (fmul f u (fadd f (fof_nat f (Suc i)) (flit f 1)))) (Suc i)"
  obtain ys where ys: "swap_at (Suc i) ?j xs = Some ys" "mset ys = mset xs"
    using swap_at_mset [OF Suc.prems, of ?j] by auto
  then have "i < length ys"
    using Suc.prems mset_eq_length by fastforce
  then show ?case
    using Suc.IH [of ys g'] ys by (simp add: run_state_bind_fst u Let_def)
qed simp

lemma shuffled_perm_table:
  obtains p where "shuffled_perm f ro seed = Some (p @ p)" "mset p = mset [0..<256]"
proof -
  obtain p where "fst (run_state (shuffle f ro 255 [0..<256]) (rng_from_seed ro seed)) = Some p" "mset p = mset [0..<256]"
    using shuffle_mset [of 255 "[0..<256]" f ro "rng_from_seed ro seed"] by auto
  then show ?thesis
    using that by (simp add: shuffled_perm_def)
qed

definition perm_ok :: "nat list \<Rightarrow> bool" where
  "perm_ok p \<longleftrightarrow> length p = 512 \<and> (\<forall>x \<in> set p. x < 256)"

lemma perm_ok_table: "mset p = mset [0..<256] \<Longrightarrow> perm_ok (p @ p)"
  using mset_eq_length [of p "[0..<256]"] mset_eq_setD [of p "[0..<256]"] by (auto simp: perm_ok_def)

lemma at_opt_perm:
  assumes "perm_ok p" "i < 512"
  obtains h where "at_opt p i = Some h" "h < 256"
  using assms by (auto simp: at_opt_def perm_ok_def)

lemma cell_less: "cell f x < 256"
  by (simp add: cell_def nat_less_iff)

lemma noise_total:
  assumes "perm_ok p"
  shows "\<exists>y. noise f p x0 y0 z0 = Some y"
proof -
  have at: "\<exists>h. at_opt p i = Some h \<and> h < 256" if "i < 512" for i
    using at_opt_perm [OF assms that] by blast
  have in_range: "\<exists>h. at_opt p (a + c) = Some h \<and> h < 256" "\<exists>h. at_opt p (a + c + 1) = Some h \<and> h < 256"
    "\<exists>h. at_opt p (c + 1) = Some h \<and> h < 256" "\<exists>h. at_opt p c = Some h \<and> h < 256" if "a < 256" "c < 256" for a c
    using that by (auto intro!: at)
  let ?x = "cell f x0" and ?y = "cell f y0" and ?z = "cell f z0"
  obtain pa pb where 1: "at_opt p ?x = Some pa" "pa < 256" "at_opt p (?x + 1) = Some pb" "pb < 256"
    using in_range(3,4) [of 0 ?x] cell_less [of f x0] by auto
  obtain paa pab where 2: "at_opt p (pa + ?y) = Some paa" "paa < 256" "at_opt p (pa + ?y + 1) = Some pab" "pab < 256"
    using in_range(1,2) [OF 1(2) cell_less [of f y0]] by auto
  obtain pba pbb where 3: "at_opt p (pb + ?y) = Some pba" "pba < 256" "at_opt p (pb + ?y + 1) = Some pbb" "pbb < 256"
    using in_range(1,2) [OF 1(4) cell_less [of f y0]] by auto
  note z = in_range(1,2) [OF _ cell_less [of f z0]]
  show ?thesis
    using 1(1,3) 2(1,3) 3(1,3) z [OF 2(2)] z [OF 2(4)] z [OF 3(2)] z [OF 3(4)]
    by (auto simp: noise_def Let_def)
qed

lemma fbm_loop_total: "perm_ok p \<Longrightarrow> \<exists>r. fbm_loop f p pt n fr a s nm = Some r"
proof (induction n arbitrary: fr a s nm)
  case (Suc n)
  obtain x y z where pt: "pt = (x, y, z)" by (cases pt)
  obtain r where "noise f p (fmul f x fr) (fmul f y fr) (fmul f z fr) = Some r"
    using noise_total [OF Suc.prems, of f] by blast
  then show ?case
    using Suc by (simp add: pt)
qed simp

lemma sculpt_vertex_total:
  assumes "perm_ok (fbm_perm b)"
  shows "\<exists>v'. sculpt_vertex f params b craters v = Some v'"
proof -
  obtain acc nrm where "fbm_loop f (fbm_perm b) v (fbm_octaves b) (fbm_frequency b) (flit f 1) (flit f 0) (flit f 0) = Some (acc, nrm)"
    using fbm_loop_total [OF assms] by (metis prod.collapse)
  then show ?thesis
    by (simp only: sculpt_vertex_def Fbm_get_def option.map) (rule exI, rule refl)
qed

lemma traverse_total:
  assumes "\<And>x. \<exists>y. h x = Some y"
  shows "\<exists>ys. traverse h xs = Some ys \<and> length ys = length xs"
proof (induction xs)
  case (Cons x xs)
  then show ?case
    using assms [of x] by auto
qed simp

lemma sculpt_topology:
  "\<exists>m'. fst (run_state (sculpt f ro m params) g) = Some m' \<and> faces m' = faces m \<and> length (vertices m') = length (vertices m)"
proof -
  obtain seed g1 where 1: "run_state (next_seed ro) g = (seed, g1)"
    by (cases "run_state (next_seed ro) g")
  obtain cs g2 where 2: "run_state (draw_many (num_craters params) (draw_crater f ro params)) g1 = (cs, g2)"
    by (cases "run_state (draw_many (num_craters params) (draw_crater f ro params)) g1")
  obtain p where p: "shuffled_perm f ro seed = Some (p @ p)" "mset p = mset [0..<256]"
    by (rule shuffled_perm_table)
  let ?b = "\<lparr> fbm_perm = p @ p, fbm_octaves = octaves params, fbm_frequency = noise_frequency params \<rparr>"
  obtain vs where "traverse (sculpt_vertex f params ?b cs) (vertices m) = Some vs" "length vs = length (vertices m)"
    using traverse_total [OF sculpt_vertex_total] perm_ok_table [OF p(2)] by force
  then show ?thesis
    using 1 2 p(1) by (simp add: sculpt_def run_state_bind_fst Let_def Fbm_new_def)
qed

lemma grow_topology:
  "\<exists>m'. fst (run_state (grow f ro m) g) = Some m' \<and> faces m' = faces m \<and> length (vertices m') = length (vertices m)"
proof -
  obtain lam31 g1 where 1: "run_state (rng_range f ro (flit f (18 / 100)) (flit f (90 / 100))) g = (lam31, g1)"
    by fastforce
  obtain lam21 g2 where 2: "run_state (rng_range f ro lam31 (fmul f (fadd f (flit f 1) lam31) (flit f (1 / 2)))) g1 = (lam21, g2)"
    by fastforce
  obtain sh g3 where 3: "run_state (shuffle f ro 2 [flit f 1, fsqrt f lam21, fsqrt f lam31]) g2 = (sh, g3)"
    by fastforce
  obtain ys where "sh = Some ys" "length ys = 3"
    using shuffle_mset [of 2 "[flit f 1, fsqrt f lam21, fsqrt f lam31]" f ro g2] 3 mset_eq_length by fastforce
  then obtain s0 s1 s2 where sh: "sh = Some [s0, s1, s2]"
    by (auto simp: length_Suc_conv eval_nat_numeral)
  show ?thesis
    using 1 2 3 by (auto simp: grow_def shuffle3_def run_state_bind_fst Let_def sh sculpt_topology split: prod.splits)
qed

section \<open>Properties\<close>

text \<open>
  C12: Every asteroid is a watertight body, whatever the seed, the random stream and the rounding
  of the arithmetic are. Growing one never leaves an array, the permutation table of the relief is
  a permutation of the bytes, and the mesh has \<open>10 * 4^n + 2\<close> vertices and \<open>20 * 4^n\<close> faces, with
  every face index in range, every directed edge on exactly one face and its reverse on exactly
  one other.\<close>

theorem asteroid_watertight:
  assumes "n \<le> 14"
  shows "\<exists>m. asteroid_mesh f ro seed n = Some m \<and> closed_mesh (length (vertices m)) (faces m)
    \<and> length (vertices m) = 10 * 4 ^ n + 2 \<and> length (faces m) = 20 * 4 ^ n
    \<and> (\<exists>p. shuffled_perm f ro seed' = Some (p @ p) \<and> mset p = mset [0..<256])"
proof -
  obtain base where base: "icosphere f n = Some base" "closed_mesh (length (vertices base)) (faces base)"
    "length (vertices base) = 10 * 4 ^ n + 2" "length (faces base) = 20 * 4 ^ n"
    by (rule icosphere_closed [OF assms])
  obtain m where "asteroid_mesh f ro seed n = Some m" "faces m = faces base" "length (vertices m) = length (vertices base)"
    using grow_topology [of f ro base "rng_from_seed ro seed"] base(1) by (auto simp: asteroid_mesh_def)
  moreover obtain p where "shuffled_perm f ro seed' = Some (p @ p)" "mset p = mset [0..<256]"
    by (rule shuffled_perm_table)
  ultimately show ?thesis
    using base by auto
qed

text \<open>Integer arithmetic and a linear congruential stream, at the resolution the protocol pins.\<close>

definition int_fops :: "int fops" where
  "int_fops = \<lparr> flit = floor, fof_nat = int, fadd = (+), fsub = (-), fmul = (*), fdiv = (div), fneg = uminus, flt = (<),
     fsqrt = id, fcos = id, fsin = id, ffloor = id, fpow = (\<lambda>x y. x), ffmin = min, ffmax = max,
     fto_usize = nat, fto_i32 = id \<rparr>"

definition lcg :: "nat rng_ops" where
  "lcg = \<lparr> rng_from_seed = le_val, rng_next_u64 = (\<lambda>g. (g mod 2 ^ 64, 6364136223846793005 * g + 1442695040888963407)) \<rparr>"

theorem asteroid_watertight_witness:
  "\<exists>m. asteroid_mesh int_fops lcg [7, 3] 4 = Some m \<and> closed_mesh 2562 (faces m) \<and> length (faces m) = 5120"
  using asteroid_watertight [of 4 int_fops lcg "[7, 3]" "[]"] by auto

end
