(* ===== verification/NodeRpc.thy ===== *)
theory NodeRpc
  imports MiningWorker Asteroid
begin

text \<open>
  The node's own RPC servers: the external mining RPC (\<open>node/src/mining_rpc.rs\<close>, with the handle
  of \<open>node/src/service.rs\<close>) and the export of a block's model (\<open>node/src/object_rpc.rs\<close>). The
  client, the transport and the encoding of a mesh belong to libraries and are arguments; a call
  of the runtime can fail.
\<close>

section \<open>Mining RPC\<close>

definition NO_TASK :: int where "NO_TASK = 9001"
definition SUBMIT_FAILED :: int where "SUBMIT_FAILED = 9002"

record MiningTask =
  task_pre_hash :: hash
  task_difficulty :: nat
  task_miner :: string
  task_protocol :: string

record Mining =
  rpc_miner :: string
  rpc_protocol :: string

definition current_task :: "('r, 'x, 's, 'w) worker \<Rightarrow> (hash \<times> nat) option" where
  "current_task w = map_option (\<lambda>m. (mpre_hash m, mdifficulty m)) (current_metadata w)"

definition task_of :: "Mining \<Rightarrow> ('r, 'x, 's, 'w) worker \<Rightarrow> MiningTask option" where
  "task_of r w = map_option (\<lambda>(ph, d).
     \<lparr> task_pre_hash = ph, task_difficulty = d, task_miner = rpc_miner r, task_protocol = rpc_protocol r \<rparr>) (current_task w)"

definition get_task :: "Mining \<Rightarrow> ('r, 'x, 's, 'w) worker \<Rightarrow> int + MiningTask" where
  "get_task r w = (case task_of r w of None \<Rightarrow> Inl NO_TASK | Some t \<Rightarrow> Inr t)"

text \<open>
  The subscription: per turn the worker as it is read, whether the send succeeded, and whether
  the wait for a change ended with one. The result is what the subscriber receives.
\<close>

fun subscribe_task :: "Mining \<Rightarrow> (('r, 'x, 's, 'w) worker \<times> bool \<times> bool) list \<Rightarrow> MiningTask list" where
  "subscribe_task r [] = []"
| "subscribe_task r ((w, sent, changed) # turns) =
     (case task_of r w of
        Some t \<Rightarrow> if \<not> sent then [] else t # (if changed then subscribe_task r turns else [])
      | None \<Rightarrow> if changed then subscribe_task r turns else [])"

text \<open>The submission runs on a pool whose task can fail (\<open>Inl\<close>).\<close>

definition rpc_submit_seal :: "'j + bool \<Rightarrow> int + bool" where
  "rpc_submit_seal joined = (case joined of Inl _ \<Rightarrow> Inl SUBMIT_FAILED | Inr ok \<Rightarrow> Inr ok)"

section \<open>Model export\<close>

definition UNKNOWN_BLOCK :: int where "UNKNOWN_BLOCK = 9101"
definition NO_SEAL :: int where "NO_SEAL = 9102"
definition REBUILD_FAILED :: int where "REBUILD_FAILED = 9103"

text \<open>A mesh as it crosses the runtime API, and how a coordinate prints.\<close>

record 'f mesh_codec =
  encode_mesh :: "'f Mesh \<Rightarrow> bytes"
  decode_mesh :: "bytes \<Rightarrow> 'f Mesh option"
  show_float :: "'f \<Rightarrow> string"

fun show_nat :: "nat \<Rightarrow> string" where
  "show_nat n = (if n < 10 then [char_of (48 + n)] else show_nat (n div 10) @ [char_of (48 + n mod 10)])"

declare show_nat.simps [simp del]

definition obj_line :: "char \<Rightarrow> string \<Rightarrow> string \<Rightarrow> string \<Rightarrow> string" where
  "obj_line c a b d = [c] @ '' '' @ a @ '' '' @ b @ '' '' @ d @ [CHR 0x0A]"

definition write_obj :: "'f mesh_codec \<Rightarrow> 'f Mesh \<Rightarrow> string" where
  "write_obj codec m =
     concat (map (\<lambda>(x, y, z). obj_line (CHR ''v'') (show_float codec x) (show_float codec y) (show_float codec z)) (vertices m)) @
     concat (map (\<lambda>(a, b, c). obj_line (CHR ''f'') (show_nat (wrapping_add 32 a 1)) (show_nat (wrapping_add 32 b 1))
       (show_nat (wrapping_add 32 c 1))) (faces m))"

text \<open>\<open>Seal::decode\<close> reads a prefix, unlike the \<open>decode_all\<close> of the verification.\<close>

definition decode_seal_prefix :: "bytes \<Rightarrow> Seal option" where
  "decode_seal_prefix raw = (if length raw < 64 then None else decode_seal (take 64 raw))"

text \<open>\<open>PowVerifyApi::generate_mesh\<close> of \<open>runtime/src/apis.rs\<close>, at the runtime of a block.\<close>

definition runtime_generate_mesh ::
  "(hash \<Rightarrow> 'e option) \<Rightarrow> (hash \<Rightarrow> ('f Mesh, 'q) scan_ops) \<Rightarrow> 'f mesh_codec \<Rightarrow> hash \<Rightarrow> hash \<Rightarrow> nat \<Rightarrow> 'e + bytes" where
  "runtime_generate_mesh fails ops_at codec at_block ph n =
     (case fails at_block of
        Some e \<Rightarrow> Inl e
      | None \<Rightarrow> Inr (encode_mesh codec (mesh (ops_at at_block) \<lparr> pre_hash = ph, nonce = n \<rparr>)))"

text \<open>The answer is the text of the model, or the code of the error.\<close>

definition get_object ::
  "(hash \<Rightarrow> 'e + 'r header option) \<Rightarrow> ('r header \<Rightarrow> hash) \<Rightarrow> engine_id \<Rightarrow> 'f mesh_codec \<Rightarrow>
   (hash \<Rightarrow> hash \<Rightarrow> nat \<Rightarrow> 'e + bytes) \<Rightarrow> hash \<Rightarrow> int + string" where
  "get_object headers hash_fn pow_id codec generate_mesh block_hash =
     (case headers block_hash of
        Inl _ \<Rightarrow> Inl REBUILD_FAILED
      | Inr None \<Rightarrow> Inl UNKNOWN_BLOCK
      | Inr (Some h) \<Rightarrow>
          (case last_log (logs h) of
             Some (Seal_item i raw) \<Rightarrow>
               if i \<noteq> pow_id then Inl NO_SEAL
               else
                 (let h = h \<lparr> logs := butlast (logs h) \<rparr>; ph = hash_fn h; parent = parent_hash h in
                  case decode_seal_prefix raw of
                    None \<Rightarrow> Inl REBUILD_FAILED
                  | Some s \<Rightarrow>
                      (case generate_mesh parent ph (seal_nonce s) of
                         Inl _ \<Rightarrow> Inl REBUILD_FAILED
                       | Inr encoded \<Rightarrow>
                           (case decode_mesh codec encoded of
                              None \<Rightarrow> Inl REBUILD_FAILED
                            | Some m \<Rightarrow> Inr (write_obj codec m))))
           | _ \<Rightarrow> Inl NO_SEAL))"

section \<open>Library\<close>

lemma decode_seal_prefix_all: "decode_seal raw = Some s \<Longrightarrow> decode_seal_prefix raw = Some s"
  by (auto simp: decode_seal_def decode_seal_prefix_def split: if_splits)

lemma verifier_verify_Inr:
  assumes "verifier_verify env (poscan_alg dapi vapi) b = Inr b'"
  obtains i raw where "last_log (logs (bheader b)) = Some (Seal_item i raw)" "i = pow_engine env"
    "bheader b' = (bheader b) \<lparr> logs := butlast (logs (bheader b)) \<rparr>" "post_digests b' = post_digests b @ [Seal_item i raw]"
  using assms that
  by (auto simp: verifier_verify_def check_header_def Let_def poscan_alg_def split: option.splits digest_item.splits if_splits)

section \<open>Properties\<close>

text \<open>
  C29: The exported model is the proof. For a block whose sealed header the verifier and block
  import accepted, and whose parent's runtime still answers, the RPC returns the model that the
  block's nonce grows at that runtime: the very mesh whose scan hashes to the work in the seal.
\<close>

theorem exported_model_is_scanned:
  fixes ops_at :: "hash \<Rightarrow> ('f Mesh, 'q) scan_ops"
  assumes "header_of env block_hash = Inr (Some (bheader b))"
    and "verifier_verify env (poscan_alg dapi (runtime_verify_api fails ops_at)) b = Inr b'"
    and "import_block env (poscan_alg dapi (runtime_verify_api fails ops_at)) inner b' = Inr r"
    and "mfails (parent_hash (bheader b)) = None"
    and "\<And>c. decode_mesh codec (encode_mesh codec (mesh (ops_at (parent_hash (bheader b))) c))
      = Some (mesh (ops_at (parent_hash (bheader b))) c)"
  shows "\<exists>s m features. get_object (header_of env) (hash_of env) (pow_engine env) codec
        (runtime_generate_mesh mfails ops_at codec) block_hash = Inr (write_obj codec m)
    \<and> last_log (logs (bheader b)) = Some (Seal_item (pow_engine env) (encode_seal s))
    \<and> m = mesh (ops_at (parent_hash (bheader b))) \<lparr> pre_hash = hash_of env (bheader b'), nonce = seal_nonce s \<rparr>
    \<and> scan (ops_at (parent_hash (bheader b))) m TARGET_SAMPLES = Some features
    \<and> seal_work s = hash_buckets (ops_at (parent_hash (bheader b)))
        (quantize (ops_at (parent_hash (bheader b))) features) (hash_of env (bheader b'))"
proof -
  obtain i raw where v: "last_log (logs (bheader b)) = Some (Seal_item i raw)" "i = pow_engine env"
    "bheader b' = (bheader b) \<lparr> logs := butlast (logs (bheader b)) \<rparr>" "post_digests b' = post_digests b @ [Seal_item i raw]"
    using assms(2) by (rule verifier_verify_Inr)
  obtain b'' where "prepare_import env (poscan_alg dapi (runtime_verify_api fails ops_at)) b' = Inr b''"
    using assms(3) by (rule import_block_InrE)
  then obtain s where s: "last_log (post_digests b') = Some (Seal_item (pow_engine env) (encode_seal s))"
    "work (ops_at (parent_hash (bheader b'))) \<lparr> pre_hash = hash_of env (bheader b'), nonce = seal_nonce s \<rparr> = Some (seal_work s)"
    "decode_seal (encode_seal s) = Some s"
    using poscan_import_work by blast
  have raw: "raw = encode_seal s"
    using s(1) v(4) by (simp add: last_log_def)
  let ?ops = "ops_at (parent_hash (bheader b))"
  let ?m = "mesh ?ops \<lparr> pre_hash = hash_of env (bheader b'), nonce = seal_nonce s \<rparr>"
  obtain features where "scan ?ops ?m TARGET_SAMPLES = Some features"
    "seal_work s = hash_buckets ?ops (quantize ?ops features) (hash_of env (bheader b'))"
    using s(2) v(3) by (auto simp: work_def split: option.splits)
  moreover have "get_object (header_of env) (hash_of env) (pow_engine env) codec
      (runtime_generate_mesh mfails ops_at codec) block_hash = Inr (write_obj codec ?m)"
    using v(1-3) assms(1,4,5) decode_seal_prefix_all [OF s(3)]
    by (simp add: get_object_def Let_def raw runtime_generate_mesh_def)
  ultimately show ?thesis
    using v(1,2) raw by blast
qed

text \<open>
  A sealed block on the genesis of \<open>sample_pow_env\<close>, with the asteroid generator over integers and
  a hash that is constant, so that one mesh is all the codec has to carry.
\<close>

definition export_ops :: "(int Mesh, nat) scan_ops" where
  "export_ops = \<lparr> sha256 = (\<lambda>x. replicate 32 0), asteroid = (\<lambda>s n. the (asteroid_mesh int_fops lcg s n)),
     scan = (\<lambda>m n. Some []), round_bucket = (\<lambda>i q. int q) \<rparr>"

definition export_codec :: "int mesh_codec" where
  "export_codec = \<lparr> encode_mesh = (\<lambda>m. [1]), decode_mesh = (\<lambda>bs. Some (mesh export_ops \<lparr> pre_hash = [], nonce = 0 \<rparr>)),
     show_float = (\<lambda>x. show_nat (nat x)) \<rparr>"

definition export_seal :: Seal where
  "export_seal = \<lparr> seal_nonce = 7, seal_work = replicate 32 0 \<rparr>"

definition export_header :: "unit header" where
  "export_header = \<lparr> parent_hash = [0], number = 1, logs = [PreRuntime [112] [5], Seal_item [112] (encode_seal export_seal)],
     rest = () \<rparr>"

definition export_env :: "(unit, nat, unit, unit) pow_env" where
  "export_env = sample_pow_env \<lparr> header_of := (\<lambda>h. if h = [4] then Inr (Some export_header) else sample_store h) \<rparr>"

definition export_block :: "(unit, nat) import_params" where
  "export_block = \<lparr> bheader = export_header, body = Some [1700000000000], post_digests = [], post_hash = None,
     auxiliary = [], fork_choice = None, skip_execution_checks = False \<rparr>"

definition export_alg :: "unit pow_alg" where
  "export_alg = poscan_alg (\<lambda>p i. Inr (Some 1)) (runtime_verify_api (\<lambda>_. None) (\<lambda>_. export_ops))"

definition export_checked :: "(unit, nat) import_params" where
  "export_checked = export_block \<lparr> bheader := export_header \<lparr> logs := [PreRuntime [112] [5]] \<rparr>,
     post_digests := [Seal_item [112] (encode_seal export_seal)], post_hash := Some [1] \<rparr>"

lemma export_seal_ok: "runtime_verify_seal export_ops ph (encode_seal export_seal) 1"
proof -
  have "decode_seal (encode_seal export_seal) = Some export_seal"
    by (rule decode_encode_seal) (simp add: seal_wf_def export_seal_def U256_MAX_def)
  moreover have "be_val (replicate 32 0) = 0"
    by (simp add: be_val_def numeral_eq_Suc)
  moreover have "work export_ops c = Some (replicate 32 0)" for c
    by (simp add: work_def export_ops_def hash_buckets_def)
  ultimately show ?thesis
    by (simp add: runtime_verify_seal_def verify_seal_def hash_meets_iff) (simp add: export_seal_def)
qed

lemma export_verified: "verifier_verify export_env export_alg export_block = Inr export_checked"
  by (simp add: verifier_verify_def check_header_def export_env_def sample_pow_env_def export_alg_def poscan_alg_def
      export_block_def export_header_def export_checked_def last_log_def)

lemma export_imported: "import_block export_env export_alg (\<lambda>b. Inr ()) export_checked = Inr ()"
  using export_seal_ok
  by (simp add: import_block_def prepare_import_def export_env_def sample_pow_env_def export_alg_def export_checked_def
      export_block_def export_header_def read_aux_def check_inherents_def fetch_seal_def last_log_def find_pre_digest_def
      poscan_alg_def poscan_difficulty_def poscan_verify_def runtime_verify_api_def choose_fork_def finality_conflicts_def
      walk_back.simps full_hash_def ensure_def U256_MAX_def)

theorem exported_model_is_scanned_witness:
  "\<exists>m. get_object (header_of export_env) (hash_of export_env) [112] export_codec
      (runtime_generate_mesh (\<lambda>_. None :: unit option) (\<lambda>_. export_ops) export_codec) [4] = Inr (write_obj export_codec m)
    \<and> scan export_ops m TARGET_SAMPLES = Some []"
proof -
  have "decode_mesh export_codec (encode_mesh export_codec (mesh export_ops c)) = Some (mesh export_ops c)" for c
    by (simp add: export_codec_def mesh_def derive_seed_def) (simp add: export_ops_def)
  moreover have "header_of export_env [4] = Inr (Some (bheader export_block))"
    by (simp add: export_env_def export_block_def)
  moreover have "pow_engine export_env = [112]"
    by (simp add: export_env_def sample_pow_env_def)
  moreover have "scan export_ops m n = Some []" for m n
    by (simp add: export_ops_def)
  ultimately show ?thesis
    using exported_model_is_scanned [OF _ export_verified [unfolded export_alg_def] export_imported [unfolded export_alg_def],
        of "[4]" "\<lambda>_. None" export_codec] by auto
qed

end
