(* ===== verification/NodeCommand.thy ===== *)
theory NodeCommand
  imports Genesis InternalMiner NodeRpc EthForward
begin

text \<open>
  Starting the node: the chain specifications (\<open>node/src/chain_spec.rs\<close>), the choice among them and
  the operator's options (\<open>node/src/command.rs\<close>, \<open>node/src/cli.rs\<close>), what the mining part of
  \<open>node/src/service.rs\<close> makes of them and the methods the RPC server ends up with
  (\<open>node/src/rpc.rs\<close>). The address codec, the number of cores, the reader of specification files, the
  preset names of \<open>sp_genesis_builder\<close> and the method names of the library modules are arguments. The
  lemmas say that every named chain has a genesis and that the node serves what its operator asked for.
\<close>

section \<open>Chain specifications\<close>

datatype ChainType = Development | Local | Live

record Properties =
  ss58Format :: nat
  tokenDecimals :: nat
  tokenSymbol :: string

record ChainSpec =
  spec_code :: bytes
  spec_name :: string
  spec_id :: string
  spec_protocol_id :: string
  spec_chain_type :: ChainType
  spec_preset :: string
  spec_properties :: Properties

definition SS58Prefix :: nat where "SS58Prefix = 14240"

definition chain_properties :: "string \<Rightarrow> Properties" where
  "chain_properties token_symbol = \<lparr> ss58Format = SS58Prefix, tokenDecimals = 18, tokenSymbol = token_symbol \<rparr>"

definition wasm_code :: "bytes option \<Rightarrow> string + bytes" where
  "wasm_code wasm = (case wasm of None \<Rightarrow> Inl ''Development wasm not available'' | Some b \<Rightarrow> Inr b)"

definition development_chain_spec :: "string \<times> string \<Rightarrow> bytes option \<Rightarrow> string + ChainSpec" where
  "development_chain_spec lib_names wasm = bind_res (wasm_code wasm) (\<lambda>b. Inr
     \<lparr> spec_code = b, spec_name = ''Numen Development'', spec_id = ''dev'', spec_protocol_id = ''numen'',
       spec_chain_type = Development, spec_preset = fst lib_names, spec_properties = chain_properties ''tNUMN'' \<rparr>)"

definition integration_chain_spec :: "bytes option \<Rightarrow> string + ChainSpec" where
  "integration_chain_spec wasm = bind_res (wasm_code wasm) (\<lambda>b. Inr
     \<lparr> spec_code = b, spec_name = ''Numen Integration Testnet'', spec_id = ''integration'', spec_protocol_id = ''numen'',
       spec_chain_type = Local, spec_preset = ''integration'', spec_properties = chain_properties ''tNUMN'' \<rparr>)"

definition local_chain_spec :: "string \<times> string \<Rightarrow> bytes option \<Rightarrow> string + ChainSpec" where
  "local_chain_spec lib_names wasm = bind_res (wasm_code wasm) (\<lambda>b. Inr
     \<lparr> spec_code = b, spec_name = ''Numen Local Testnet'', spec_id = ''local_testnet'', spec_protocol_id = ''numen'',
       spec_chain_type = Local, spec_preset = snd lib_names, spec_properties = chain_properties ''tNUMN'' \<rparr>)"

definition testnet_chain_spec :: "bytes option \<Rightarrow> string + ChainSpec" where
  "testnet_chain_spec wasm = bind_res (wasm_code wasm) (\<lambda>b. Inr
     \<lparr> spec_code = b, spec_name = ''Numen Testnet'', spec_id = ''testnet'', spec_protocol_id = ''numen'',
       spec_chain_type = Live, spec_preset = ''testnet'', spec_properties = chain_properties ''tNUMN'' \<rparr>)"

definition mainnet_chain_spec :: "bytes option \<Rightarrow> string + ChainSpec" where
  "mainnet_chain_spec wasm = bind_res (wasm_code wasm) (\<lambda>b. Inr
     \<lparr> spec_code = b, spec_name = ''Numen Mainnet'', spec_id = ''mainnet'', spec_protocol_id = ''numen'',
       spec_chain_type = Live, spec_preset = ''mainnet'', spec_properties = chain_properties ''NUMN'' \<rparr>)"

definition NO_CHAIN :: string where
  "NO_CHAIN = ''Chain specification not provided. Please specify it with the argument `--chain <SPEC>`.''"

definition load_spec ::
  "string \<times> string \<Rightarrow> bytes option \<Rightarrow> (string \<Rightarrow> string + ChainSpec) \<Rightarrow> string \<Rightarrow> string + ChainSpec" where
  "load_spec lib_names wasm from_json_file chain_arg =
     (if chain_arg = ''dev'' then development_chain_spec lib_names wasm
      else if chain_arg = ''integration'' then integration_chain_spec wasm
      else if chain_arg = ''local'' then local_chain_spec lib_names wasm
      else if chain_arg = ''testnet'' then testnet_chain_spec wasm
      else if chain_arg = ''mainnet'' then mainnet_chain_spec wasm
      else if chain_arg = '''' then Inl NO_CHAIN
      else from_json_file chain_arg)"

section \<open>The operator's options\<close>

record Cli =
  cli_miner :: "string option"
  cli_node_miner :: "nat option"
  cli_eth_rpc :: "string option"
  cli_frozen_eth_rpc :: "string option"

record 'a MiningConfig =
  mc_miner :: 'a
  mc_node_miner :: nat

record EthRpcConfig =
  erc_eth_rpc :: string
  erc_frozen :: "string option"

datatype 'e cli_error = Invalid_miner string 'e | Node_miner_requires_miner

definition parse_miner :: "(string \<Rightarrow> 'e + 'a) \<Rightarrow> string option \<Rightarrow> 'e cli_error + 'a option" where
  "parse_miner from_ss58check arg =
     (case arg of
        None \<Rightarrow> Inr None
      | Some addr \<Rightarrow> (case from_ss58check addr of Inl e \<Rightarrow> Inl (Invalid_miner addr e) | Inr a \<Rightarrow> Inr (Some a)))"

definition miner_threads :: "nat option \<Rightarrow> nat option \<Rightarrow> nat" where
  "miner_threads parallelism flag =
     (case flag of
        None \<Rightarrow> 0
      | Some n \<Rightarrow> if n = 0 then (case parallelism of Some c \<Rightarrow> c | None \<Rightarrow> 1) else n)"

definition run_config ::
  "(string \<Rightarrow> 'e + 'a) \<Rightarrow> nat option \<Rightarrow> Cli \<Rightarrow> 'e cli_error + 'a MiningConfig option \<times> EthRpcConfig option" where
  "run_config from_ss58check parallelism cli =
     bind_res (parse_miner from_ss58check (cli_miner cli)) (\<lambda>miner_account.
     if miner_account = None \<and> cli_node_miner cli \<noteq> None then Inl Node_miner_requires_miner
     else
       let node_miner = miner_threads parallelism (cli_node_miner cli) in
       Inr (map_option (\<lambda>miner. \<lparr> mc_miner = miner, mc_node_miner = node_miner \<rparr>) miner_account,
            map_option (\<lambda>url. \<lparr> erc_eth_rpc = url, erc_frozen = cli_frozen_eth_rpc cli \<rparr>) (cli_eth_rpc cli)))"

section \<open>The mining part of the service\<close>

record mining_service =
  ms_pre_runtime :: bytes
  ms_threads :: nat
  ms_miners :: miners
  ms_rpc :: Mining

definition start_mining :: "('a \<Rightarrow> bytes) \<Rightarrow> ('a \<Rightarrow> string) \<Rightarrow> 'a MiningConfig option \<Rightarrow> mining_service option" where
  "start_mining encode to_ss58check mining = map_option (\<lambda>mc.
     \<lparr> ms_pre_runtime = encode (mc_miner mc), ms_threads = mc_node_miner mc, ms_miners = spawn_miners,
       ms_rpc = \<lparr> rpc_miner = to_ss58check (mc_miner mc), rpc_protocol = map (\<lambda>b. char_of (unat b)) POSCAN_PROTOCOL \<rparr> \<rparr>) mining"

definition MEGABYTE :: nat where "MEGABYTE = 1024 * 1024"

definition response_limit :: "nat \<Rightarrow> nat" where
  "response_limit megabytes = min (2 ^ 32 - 1) (megabytes * MEGABYTE)"

section \<open>The RPC server\<close>

text \<open>The modules of \<open>jsonrpsee\<close>: an empty one, registration, merging and the names a module answers to.\<close>

record 'm jsonrpsee =
  new_module :: 'm
  register_method :: "string \<Rightarrow> 'm \<Rightarrow> string + 'm"
  register_subscription :: "string \<Rightarrow> string \<Rightarrow> 'm \<Rightarrow> string + 'm"
  merge_modules :: "'m \<Rightarrow> 'm \<Rightarrow> string + 'm"
  method_names :: "'m \<Rightarrow> string set"

fun register_all :: "'m jsonrpsee \<Rightarrow> string list \<Rightarrow> 'm \<Rightarrow> string + 'm" where
  "register_all J [] m = Inr m"
| "register_all J (meth # meths) m = bind_res (register_method J meth m) (register_all J meths)"

definition eth_into_rpc :: "'m jsonrpsee \<Rightarrow> string + 'm" where
  "eth_into_rpc J = bind_res (register_all J (map fst METHODS) (new_module J))
     (register_subscription J ''eth_subscribe'' ''eth_unsubscribe'')"

definition mining_into_rpc :: "'m jsonrpsee \<Rightarrow> string + 'm" where
  "mining_into_rpc J = bind_res (register_all J [''mining_getTask'', ''mining_submitSeal''] (new_module J))
     (register_subscription J ''mining_subscribeTask'' ''mining_unsubscribeTask'')"

definition object_into_rpc :: "'m jsonrpsee \<Rightarrow> string + 'm" where
  "object_into_rpc J = register_all J [''poscan_getObject''] (new_module J)"

record 'm lib_modules =
  system_rpc :: 'm
  payment_rpc :: 'm
  grandpa_rpc :: 'm

definition merge_own :: "'m jsonrpsee \<Rightarrow> string + 'm \<Rightarrow> 'm \<Rightarrow> string + 'm" where
  "merge_own J built m = bind_res built (merge_modules J m)"

definition merge_eth ::
  "'m jsonrpsee \<Rightarrow> ('h, 'w, 'n) network \<Rightarrow> EthRpcConfig option \<Rightarrow> nat \<Rightarrow> 'm \<Rightarrow> string + 'm \<times> ('h, 'w) EthForward option" where
  "merge_eth J net eth_rpc limit m =
     (case eth_rpc of
        None \<Rightarrow> Inr (m, None)
      | Some cfg \<Rightarrow>
          bind_res (EthForward_new net (erc_eth_rpc cfg) (erc_frozen cfg) limit) (\<lambda>fwd.
          bind_res (merge_own J (eth_into_rpc J) m) (\<lambda>m. Inr (m, Some fwd))))"

definition create_full ::
  "'m jsonrpsee \<Rightarrow> ('h, 'w, 'n) network \<Rightarrow> 'm lib_modules \<Rightarrow> Mining option \<Rightarrow> EthRpcConfig option \<Rightarrow> nat \<Rightarrow>
   string + 'm \<times> ('h, 'w) EthForward option" where
  "create_full J net libs mining eth_rpc limit =
     bind_res (merge_modules J (new_module J) (system_rpc libs)) (\<lambda>m.
     bind_res (merge_modules J m (payment_rpc libs)) (\<lambda>m.
     bind_res (merge_modules J m (grandpa_rpc libs)) (\<lambda>m.
     bind_res (case mining of None \<Rightarrow> Inr m | Some _ \<Rightarrow> merge_own J (mining_into_rpc J) m) (\<lambda>m.
     bind_res (merge_eth J net eth_rpc limit m) (\<lambda>(m, fwd).
     bind_res (merge_own J (object_into_rpc J) m) (\<lambda>m. Inr (m, fwd)))))))"

text \<open>What the operator gets: the mining service, and the modules of the RPC server.\<close>

definition start_node ::
  "(string \<Rightarrow> 'e + 'a) \<Rightarrow> ('a \<Rightarrow> string) \<Rightarrow> ('a \<Rightarrow> bytes) \<Rightarrow> nat option \<Rightarrow> 'm jsonrpsee \<Rightarrow> ('h, 'w, 'n) network \<Rightarrow> 'm lib_modules \<Rightarrow> nat \<Rightarrow>
   Cli \<Rightarrow> 'e cli_error + mining_service option \<times> (string + 'm \<times> ('h, 'w) EthForward option)" where
  "start_node from_ss58check to_ss58check encode parallelism J net libs megabytes cli =
     bind_res (run_config from_ss58check parallelism cli) (\<lambda>(mining, eth_rpc).
       let service = start_mining encode to_ss58check mining in
       Inr (service, create_full J net libs (map_option ms_rpc service) eth_rpc (response_limit megabytes)))"

section \<open>Lemmas\<close>

lemmas spec_defs = load_spec_def development_chain_spec_def integration_chain_spec_def local_chain_spec_def
  testnet_chain_spec_def mainnet_chain_spec_def wasm_code_def chain_properties_def

text \<open>
  Every chain the command line names has a specification whose genesis preset the runtime knows, the
  identifiers of two chains differ, and only the main network carries the token of value.
\<close>

theorem named_chains_have_genesis:
  assumes "chain_arg \<in> {''dev'', ''integration'', ''local'', ''testnet'', ''mainnet''}"
  shows "\<exists>spec. load_spec ns (Some b) from_file chain_arg = Inr spec
    \<and> spec_code spec = b \<and> get_preset ns encode k proxy (spec_preset spec) \<noteq> None
    \<and> (tokenSymbol (spec_properties spec) = ''NUMN'' \<longleftrightarrow> chain_arg = ''mainnet'')
    \<and> (\<forall>other spec'. load_spec ns (Some b) from_file other = Inr spec' \<longrightarrow>
         other \<in> {''dev'', ''integration'', ''local'', ''testnet'', ''mainnet''} \<longrightarrow> other \<noteq> chain_arg \<longrightarrow> spec_id spec' \<noteq> spec_id spec)"
  using assms unfolding preset_listed [symmetric] by (auto simp: spec_defs preset_names_def)

lemma named_chains_need_wasm:
  "chain_arg \<in> {''dev'', ''integration'', ''local'', ''testnet'', ''mainnet''} \<Longrightarrow>
   load_spec ns None from_file chain_arg = Inl ''Development wasm not available''"
  by (auto simp: spec_defs)

text \<open>What \<open>jsonrpsee\<close> documents: a name is registered once, and merging fails on a shared name only.\<close>

definition jsonrpsee_laws :: "'m jsonrpsee \<Rightarrow> bool" where
  "jsonrpsee_laws J \<longleftrightarrow> method_names J (new_module J) = {}
     \<and> (\<forall>meth m. meth \<notin> method_names J m \<longrightarrow>
          (\<exists>m'. register_method J meth m = Inr m' \<and> method_names J m' = insert meth (method_names J m)))
     \<and> (\<forall>sub unsub m. sub \<noteq> unsub \<and> sub \<notin> method_names J m \<and> unsub \<notin> method_names J m \<longrightarrow>
          (\<exists>m'. register_subscription J sub unsub m = Inr m' \<and> method_names J m' = {sub, unsub} \<union> method_names J m))
     \<and> (\<forall>m n. method_names J m \<inter> method_names J n = {} \<longrightarrow>
          (\<exists>m'. merge_modules J m n = Inr m' \<and> method_names J m' = method_names J m \<union> method_names J n))"

definition mining_methods :: "string set" where
  "mining_methods = {''mining_getTask'', ''mining_submitSeal'', ''mining_subscribeTask'', ''mining_unsubscribeTask''}"

definition eth_methods :: "string set" where
  "eth_methods = {''eth_subscribe'', ''eth_unsubscribe''} \<union> fst ` set METHODS"

definition object_methods :: "string set" where
  "object_methods = {''poscan_getObject''}"

lemmas method_defs = mining_methods_def eth_methods_def object_methods_def

lemma jsonrpsee_lawsD:
  assumes "jsonrpsee_laws J"
  shows "method_names J (new_module J) = {}"
    and "meth \<notin> method_names J m \<Longrightarrow>
      \<exists>m'. register_method J meth m = Inr m' \<and> method_names J m' = insert meth (method_names J m)"
    and "sub \<noteq> unsub \<Longrightarrow> sub \<notin> method_names J m \<Longrightarrow> unsub \<notin> method_names J m \<Longrightarrow>
      \<exists>m'. register_subscription J sub unsub m = Inr m' \<and> method_names J m' = {sub, unsub} \<union> method_names J m"
    and "method_names J m \<inter> method_names J n = {} \<Longrightarrow>
      \<exists>m'. merge_modules J m n = Inr m' \<and> method_names J m' = method_names J m \<union> method_names J n"
  using assms unfolding jsonrpsee_laws_def by simp_all

lemma register_all_ok:
  assumes "jsonrpsee_laws J" "distinct meths" "method_names J m \<inter> set meths = {}"
  shows "\<exists>m'. register_all J meths m = Inr m' \<and> method_names J m' = method_names J m \<union> set meths"
  using assms(2,3)
proof (induction meths arbitrary: m)
  case (Cons meth meths)
  obtain m1 where m1: "register_method J meth m = Inr m1" "method_names J m1 = insert meth (method_names J m)"
    using jsonrpsee_lawsD(2) [OF assms(1), of meth m] Cons.prems by auto
  then have "method_names J m1 \<inter> set meths = {}"
    using Cons.prems by auto
  from Cons.IH [OF _ this] Cons.prems m1 show ?case
    by auto
qed simp

lemma subscription_ok:
  assumes "jsonrpsee_laws J" "distinct (sub # unsub # meths)"
  shows "\<exists>m'. bind_res (register_all J meths (new_module J)) (register_subscription J sub unsub) = Inr m'
    \<and> method_names J m' = {sub, unsub} \<union> set meths"
proof -
  obtain m where m: "register_all J meths (new_module J) = Inr m" "method_names J m = set meths"
    using register_all_ok [OF assms(1), of meths "new_module J"] assms(2) jsonrpsee_lawsD(1) [OF assms(1)] by auto
  then show ?thesis
    using jsonrpsee_lawsD(3) [OF assms(1), of sub unsub m] assms(2) by simp
qed

lemma own_modules_ok:
  assumes "jsonrpsee_laws J"
  shows "\<exists>m. mining_into_rpc J = Inr m \<and> method_names J m = mining_methods"
    and "\<exists>m. eth_into_rpc J = Inr m \<and> method_names J m = eth_methods"
    and "\<exists>m. object_into_rpc J = Inr m \<and> method_names J m = object_methods"
proof -
  show "\<exists>m. mining_into_rpc J = Inr m \<and> method_names J m = mining_methods"
    using subscription_ok [OF assms, of "''mining_subscribeTask''" "''mining_unsubscribeTask''" "[''mining_getTask'', ''mining_submitSeal'']"]
    by (auto simp: mining_into_rpc_def mining_methods_def simp del: register_all.simps)
  have "distinct (''eth_subscribe'' # ''eth_unsubscribe'' # map fst METHODS)"
    by (simp add: METHODS_def)
  from subscription_ok [OF assms this] show "\<exists>m. eth_into_rpc J = Inr m \<and> method_names J m = eth_methods"
    by (simp add: eth_into_rpc_def eth_methods_def)
  show "\<exists>m. object_into_rpc J = Inr m \<and> method_names J m = object_methods"
    using register_all_ok [OF assms, of "[''poscan_getObject'']" "new_module J"] jsonrpsee_lawsD(1) [OF assms]
    by (simp add: object_into_rpc_def object_methods_def del: register_all.simps)
qed

lemma own_methods_disjoint:
  "mining_methods \<inter> eth_methods = {}" "mining_methods \<inter> object_methods = {}" "eth_methods \<inter> object_methods = {}"
proof -
  have "list_all (\<lambda>(meth, _). hd meth \<in> {CHR ''e'', CHR ''n'', CHR ''w''}) METHODS"
    by (simp add: METHODS_def)
  then have "hd meth \<in> {CHR ''e'', CHR ''n'', CHR ''w''}" if "meth \<in> eth_methods" for meth
    using that by (auto simp: eth_methods_def list_all_iff)
  moreover have "hd meth = CHR ''m''" if "meth \<in> mining_methods" for meth
    using that by (auto simp: mining_methods_def)
  moreover have "hd meth = CHR ''p''" if "meth \<in> object_methods" for meth
    using that by (auto simp: object_methods_def)
  ultimately show "mining_methods \<inter> eth_methods = {}" "mining_methods \<inter> object_methods = {}" "eth_methods \<inter> object_methods = {}"
    by fastforce+
qed

text \<open>The library modules share no name with each other or with the node's own.\<close>

definition libs_apart :: "'m jsonrpsee \<Rightarrow> 'm lib_modules \<Rightarrow> bool" where
  "libs_apart J libs \<longleftrightarrow>
     method_names J (system_rpc libs) \<inter> method_names J (payment_rpc libs) = {}
     \<and> (method_names J (system_rpc libs) \<union> method_names J (payment_rpc libs)) \<inter> method_names J (grandpa_rpc libs) = {}
     \<and> (method_names J (system_rpc libs) \<union> method_names J (payment_rpc libs) \<union> method_names J (grandpa_rpc libs))
        \<inter> (mining_methods \<union> eth_methods \<union> object_methods) = {}"

lemma merge_ok:
  assumes "jsonrpsee_laws J" "built = Inr n" "method_names J n = N" "method_names J m \<inter> N = {}"
  obtains m' where "merge_own J built m = Inr m'" "method_names J m' = method_names J m \<union> N"
  using jsonrpsee_lawsD(4) [OF assms(1), of m n] assms(2-4) that by (auto simp: merge_own_def)

text \<open>
  The server comes up exactly when the servers for the Ethereum methods do, and then answers to the
  library's methods, the model export, and the optional ones that were configured.
\<close>

lemma create_full_exact:
  fixes J :: "'m jsonrpsee" and net :: "('h, 'w, 'n) network"
  assumes J: "jsonrpsee_laws J" and apart: "libs_apart J libs"
  shows "case (case eth_rpc of None \<Rightarrow> Inr None
           | Some cfg \<Rightarrow> map_sum id Some (EthForward_new net (erc_eth_rpc cfg) (erc_frozen cfg) limit)) of
      Inl e \<Rightarrow> create_full J net libs mining eth_rpc limit = Inl e
    | Inr fwd \<Rightarrow> \<exists>m. create_full J net libs mining eth_rpc limit = Inr (m, fwd)
        \<and> method_names J m = method_names J (system_rpc libs) \<union> method_names J (payment_rpc libs) \<union> method_names J (grandpa_rpc libs)
            \<union> (if mining = None then {} else mining_methods) \<union> (if eth_rpc = None then {} else eth_methods) \<union> object_methods"
proof -
  let ?l = "method_names J (system_rpc libs) \<union> method_names J (payment_rpc libs) \<union> method_names J (grandpa_rpc libs)"
  let ?m = "?l \<union> (if mining = None then {} else mining_methods)"
  let ?e = "?m \<union> (if eth_rpc = None then {} else eth_methods)"
  obtain a1 where a1: "merge_modules J (new_module J) (system_rpc libs) = Inr a1"
    "method_names J a1 = method_names J (system_rpc libs)"
    using jsonrpsee_lawsD(4) [OF J, of "new_module J" "system_rpc libs"] jsonrpsee_lawsD(1) [OF J] by auto
  then have "method_names J a1 \<inter> method_names J (payment_rpc libs) = {}"
    using apart by (simp add: libs_apart_def)
  then obtain a2 where a2: "merge_modules J a1 (payment_rpc libs) = Inr a2"
    "method_names J a2 = method_names J (system_rpc libs) \<union> method_names J (payment_rpc libs)"
    using jsonrpsee_lawsD(4) [OF J, of "a1" "payment_rpc libs"] a1 by auto
  then have "method_names J a2 \<inter> method_names J (grandpa_rpc libs) = {}"
    using apart by (simp add: libs_apart_def)
  then obtain a3 where a3: "merge_modules J a2 (grandpa_rpc libs) = Inr a3" "method_names J a3 = ?l"
    using jsonrpsee_lawsD(4) [OF J, of "a2" "grandpa_rpc libs"] a2 by auto
  have lib: "?l \<inter> mining_methods = {}" "?l \<inter> eth_methods = {}" "?l \<inter> object_methods = {}"
    using apart by (auto simp: libs_apart_def)
  obtain a4 where a4: "(case mining of None \<Rightarrow> Inr a3 | Some _ \<Rightarrow> merge_own J (mining_into_rpc J) a3) = Inr a4"
    "method_names J a4 = ?m"
  proof (cases mining)
    case (Some r)
    from own_modules_ok(1) [OF J] obtain n where "mining_into_rpc J = Inr n" "method_names J n = mining_methods"
      by blast
    from merge_ok [OF J this, of a3] a3(2) lib(1) Some that show ?thesis
      by auto
  qed (use a3 that in auto)
  have eth: "(\<exists>a5. merge_own J (eth_into_rpc J) a4 = Inr a5 \<and> method_names J a5 = ?m \<union> eth_methods)"
  proof -
    from own_modules_ok(2) [OF J] obtain n where n: "eth_into_rpc J = Inr n" "method_names J n = eth_methods"
      by blast
    have "method_names J a4 \<inter> eth_methods = {}"
      using a4(2) lib(2) own_methods_disjoint(1) by auto
    from merge_ok [OF J n this] a4(2) show ?thesis
      by metis
  qed
  have obj: "\<exists>a6. merge_own J (object_into_rpc J) a5 = Inr a6 \<and> method_names J a6 = ?e \<union> object_methods"
    if "method_names J a5 = ?e" for a5
  proof -
    from own_modules_ok(3) [OF J] obtain n where n: "object_into_rpc J = Inr n" "method_names J n = object_methods"
      by blast
    have "method_names J a5 \<inter> object_methods = {}"
      using that lib(3) own_methods_disjoint(2,3) by auto
    from merge_ok [OF J n this] that show ?thesis
      by metis
  qed
  have c: "create_full J net libs mining eth_rpc limit =
      bind_res (merge_eth J net eth_rpc limit a4) (\<lambda>(m, fwd). bind_res (merge_own J (object_into_rpc J) m) (\<lambda>m. Inr (m, fwd)))"
    by (simp add: create_full_def a1 a2 a3 a4)
  show ?thesis
  proof (cases eth_rpc)
    case None
    from None a4(2) have "method_names J a4 = ?e"
      by simp
    from obj [OF this] None show ?thesis
      unfolding c merge_eth_def by force
  next
    case (Some cfg)
    show ?thesis
    proof (cases "EthForward_new net (erc_eth_rpc cfg) (erc_frozen cfg) limit")
      case (Inr fwd)
      from eth obtain a5 where a5: "merge_own J (eth_into_rpc J) a4 = Inr a5" "method_names J a5 = ?e"
        using Some by auto
      from obj [OF a5(2)] obtain a6 where "merge_own J (object_into_rpc J) a5 = Inr a6" "method_names J a6 = ?e \<union> object_methods"
        by blast
      with a5(1) Inr show ?thesis
        unfolding c merge_eth_def by (simp add: Some)
    qed (simp add: c [unfolded Some] merge_eth_def Some)
  qed
qed

text \<open>
  The node serves what its operator asked for. It starts exactly when the mining address reads as one
  and local mining comes with an address; the mining methods are served exactly with an address, the
  Ethereum methods exactly with a server for them, the model export always; external miners are told
  the configured address, blocks carry it, and a bare or positive thread flag means at least one
  thread.
\<close>

theorem node_serves_what_was_asked:
  assumes "jsonrpsee_laws J" "libs_apart J libs" "\<And>c. parallelism = Some c \<Longrightarrow> 0 < c"
    and "\<And>a. from_ss58check (to_ss58check a) = Inr a"
    and "start_node from_ss58check to_ss58check encode parallelism J net libs megabytes cli = Inr (service, Inr (served, fwd))"
  shows "(service \<noteq> None \<longleftrightarrow> cli_miner cli \<noteq> None)
    \<and> (\<forall>meth \<in> mining_methods. meth \<in> method_names J served \<longleftrightarrow> cli_miner cli \<noteq> None)
    \<and> (\<forall>meth \<in> eth_methods. meth \<in> method_names J served \<longleftrightarrow> cli_eth_rpc cli \<noteq> None)
    \<and> ''poscan_getObject'' \<in> method_names J served
    \<and> (\<forall>ms. service = Some ms \<longrightarrow>
        (\<exists>addr a. cli_miner cli = Some addr \<and> from_ss58check addr = Inr a
          \<and> from_ss58check (rpc_miner (ms_rpc ms)) = Inr a \<and> ms_pre_runtime ms = encode a)
        \<and> (ms_threads ms = 0 \<longleftrightarrow> cli_node_miner cli = None))"
proof -
  from assms(5) obtain mining eth_rpc where r: "run_config from_ss58check parallelism cli = Inr (mining, eth_rpc)"
    and s: "service = start_mining encode to_ss58check mining"
    and c: "create_full J net libs (map_option ms_rpc service) eth_rpc (response_limit megabytes) = Inr (served, fwd)"
    by (auto simp: start_node_def bind_res_def Let_def split: sum.splits)
  have mining: "(mining = None \<longleftrightarrow> cli_miner cli = None) \<and> (eth_rpc = None \<longleftrightarrow> cli_eth_rpc cli = None)
    \<and> (\<forall>mc. mining = Some mc \<longrightarrow> mc_node_miner mc = miner_threads parallelism (cli_node_miner cli)
        \<and> (\<exists>addr. cli_miner cli = Some addr \<and> from_ss58check addr = Inr (mc_miner mc)))"
    using r by (auto simp: run_config_def parse_miner_def bind_res_def Let_def split: sum.splits option.splits if_splits)
  have served: "method_names J served
      = method_names J (system_rpc libs) \<union> method_names J (payment_rpc libs) \<union> method_names J (grandpa_rpc libs)
      \<union> (if service = None then {} else mining_methods) \<union> (if eth_rpc = None then {} else eth_methods) \<union> object_methods"
    using create_full_exact [OF assms(1,2), where eth_rpc = eth_rpc and net = net and limit = "response_limit megabytes"
      and mining = "map_option ms_rpc service"] c
    by (simp split: sum.splits)
  have "(miner_threads parallelism flag = 0) = (flag = None)" for flag
    using assms(3) by (auto simp: miner_threads_def split: option.splits)
  then have "\<forall>ms. service = Some ms \<longrightarrow>
        (\<exists>addr a. cli_miner cli = Some addr \<and> from_ss58check addr = Inr a
          \<and> from_ss58check (rpc_miner (ms_rpc ms)) = Inr a \<and> ms_pre_runtime ms = encode a)
        \<and> (ms_threads ms = 0 \<longleftrightarrow> cli_node_miner cli = None)"
    using mining assms(4) by (auto simp: s start_mining_def)
  moreover have service: "service = None \<longleftrightarrow> cli_miner cli = None"
    using mining by (simp add: s start_mining_def)
  moreover have "\<forall>meth \<in> mining_methods. meth \<in> method_names J served \<longleftrightarrow> cli_miner cli \<noteq> None"
    "\<forall>meth \<in> eth_methods. meth \<in> method_names J served \<longleftrightarrow> cli_eth_rpc cli \<noteq> None"
    using served own_methods_disjoint assms(2) mining service unfolding libs_apart_def by auto
  ultimately show ?thesis
    using served by (simp add: object_methods_def)
qed

text \<open>The laws hold of a module kept as its list of names.\<close>

definition list_rpc :: "string list jsonrpsee" where
  "list_rpc = \<lparr> new_module = [],
     register_method = (\<lambda>meth m. if meth \<in> set m then Inl meth else Inr (meth # m)),
     register_subscription = (\<lambda>sub unsub m. if sub = unsub \<or> sub \<in> set m \<or> unsub \<in> set m then Inl sub else Inr (sub # unsub # m)),
     merge_modules = (\<lambda>m n. if set m \<inter> set n = {} then Inr (n @ m) else Inl (hd (filter (\<lambda>meth. meth \<in> set m) n))),
     method_names = set \<rparr>"

lemma list_rpc_laws: "jsonrpsee_laws list_rpc"
  by (auto simp: jsonrpsee_laws_def list_rpc_def)

lemma node_miner_needs_address:
  "cli_miner cli = None \<Longrightarrow> cli_node_miner cli = Some n \<Longrightarrow>
   start_node from_ss58check to_ss58check encode parallelism J net libs megabytes cli = Inl Node_miner_requires_miner"
  by (simp add: start_node_def run_config_def parse_miner_def)

lemma response_limit_u32: "response_limit megabytes < 2 ^ 32"
  by (simp add: response_limit_def min_less_iff_disj)

end
