(* ===== verification/TxPipeline.thy ===== *)
theory TxPipeline
  imports EvmClaims Constants
begin

text \<open>
  How the runtime wraps a transaction (\<open>runtime/src/lib.rs\<close>): the tuple of extensions and its two
  constructors, for Ethereum transactions and for authorized ones; the price of a claim
  (\<open>runtime/src/configs/evm.rs\<close>) and the deposits that price storage (\<open>runtime/src/configs/mod.rs\<close>).
  The extensions that carry no data are their presence in the tuple; what they check belongs to
  \<open>frame_system\<close> and \<open>pallet_revive\<close>.
\<close>

section \<open>Extensions\<close>

datatype Era = Immortal | Mortal nat nat

record TxExtension =
  AuthorizeCall :: unit
  CheckNonZeroSender :: unit
  CheckSpecVersion :: unit
  CheckTxVersion :: unit
  CheckGenesis :: unit
  CheckEra :: Era
  CheckNonceKeepSigned :: nat
  CheckWeight :: unit
  ChargeTransactionPayment :: nat
  CheckMetadataHash :: bool
  SetOrigin :: bool
  WeightReclaim :: unit

definition get_eth_extension :: "nat \<Rightarrow> nat \<Rightarrow> TxExtension" where
  "get_eth_extension n tip =
     \<lparr> AuthorizeCall = (), CheckNonZeroSender = (), CheckSpecVersion = (), CheckTxVersion = (), CheckGenesis = (),
       CheckEra = Immortal, CheckNonceKeepSigned = n, CheckWeight = (), ChargeTransactionPayment = tip,
       CheckMetadataHash = False, SetOrigin = True, WeightReclaim = () \<rparr>"

definition create_extension :: TxExtension where
  "create_extension =
     \<lparr> AuthorizeCall = (), CheckNonZeroSender = (), CheckSpecVersion = (), CheckTxVersion = (), CheckGenesis = (),
       CheckEra = Immortal, CheckNonceKeepSigned = 0, CheckWeight = (), ChargeTransactionPayment = 0,
       CheckMetadataHash = False, SetOrigin = False, WeightReclaim = () \<rparr>"

section \<open>The price of a claim\<close>

definition ClaimFee_get ::
  "(h160 \<Rightarrow> 'c) \<Rightarrow> ('c \<Rightarrow> 'i) \<Rightarrow> ('c \<Rightarrow> TxExtension \<Rightarrow> nat) \<Rightarrow> (nat \<Rightarrow> 'i \<Rightarrow> nat \<Rightarrow> nat) \<Rightarrow> nat" where
  "ClaimFee_get claim_call get_dispatch_info encoded_size compute_fee =
     (let call = claim_call (replicate 20 0);
          dispatch_info = get_dispatch_info call;
          len = encoded_size call create_extension in
      compute_fee (len mod 2 ^ 32) dispatch_info 0)"

section \<open>Storage deposits\<close>

definition MILLI_UNIT :: nat where "MILLI_UNIT = 1000000000000000"
definition MICRO_UNIT :: nat where "MICRO_UNIT = 1000000000000"

definition MultisigDepositBase :: nat where "MultisigDepositBase = 5 * UNIT"
definition MultisigDepositFactor :: nat where "MultisigDepositFactor = 32 * UNIT div 100"
definition ProxyDepositBase :: nat where "ProxyDepositBase = 5 * UNIT"
definition ProxyDepositFactor :: nat where "ProxyDepositFactor = 37 * UNIT div 100"
definition AnnouncementDepositBase :: nat where "AnnouncementDepositBase = 5 * UNIT"
definition AnnouncementDepositFactor :: nat where "AnnouncementDepositFactor = 68 * UNIT div 100"
definition DataDepositPerByte :: nat where "DataDepositPerByte = UNIT div 100"
definition PreimageBaseDeposit :: nat where "PreimageBaseDeposit = 5 * UNIT"
definition PreimageByteDeposit :: nat where "PreimageByteDeposit = UNIT div 100"
definition IdentityBasicDeposit :: nat where "IdentityBasicDeposit = 5 * UNIT + 17 * UNIT div 100"
definition IdentityByteDeposit :: nat where "IdentityByteDeposit = UNIT div 100"
definition UsernameDeposit :: nat where "UsernameDeposit = 32 * UNIT div 100"
definition SubAccountDeposit :: nat where "SubAccountDeposit = 5 * UNIT + 53 * UNIT div 100"

definition DepositPerByte :: nat where "DepositPerByte = 200 * MICRO_UNIT"
definition DepositPerChildTrieItem :: nat where "DepositPerChildTrieItem = 8 * MILLI_UNIT"
definition DepositPerItem :: nat where "DepositPerItem = 8 * MILLI_UNIT"

section \<open>Lemmas\<close>

text \<open>An authorized transaction runs through what an Ethereum one without nonce and tip does, origin apart.\<close>

lemma same_extensions: "create_extension = get_eth_extension 0 0 \<lparr> SetOrigin := False \<rparr>"
  by (simp add: create_extension_def get_eth_extension_def)

text \<open>
  A claim pays what its own transaction of no tip would: the fee is computed once, for the zero
  address, and neither the weight of a claim nor the length of an address depends on the address.
\<close>

theorem claim_fee_of_any_address:
  assumes "\<And>a b. get_dispatch_info (claim_call a) = get_dispatch_info (claim_call b)"
    and "\<And>a b ext. length a = length b \<Longrightarrow> encoded_size (claim_call a) ext = encoded_size (claim_call b) ext"
    and "length address = 20" "encoded_size (claim_call address) create_extension < 2 ^ 32"
  shows "ClaimFee_get claim_call get_dispatch_info encoded_size compute_fee =
    compute_fee (encoded_size (claim_call address) create_extension) (get_dispatch_info (claim_call address)) 0"
proof -
  have "encoded_size (claim_call (replicate 20 0)) create_extension = encoded_size (claim_call address) create_extension"
    by (rule assms(2)) (simp add: assms(3))
  with assms(4) assms(1) [of "replicate 20 0" address] show ?thesis
    unfolding ClaimFee_get_def Let_def by simp
qed

lemmas deposit_defs = MultisigDepositBase_def MultisigDepositFactor_def ProxyDepositBase_def ProxyDepositFactor_def
  AnnouncementDepositBase_def AnnouncementDepositFactor_def DataDepositPerByte_def PreimageBaseDeposit_def
  PreimageByteDeposit_def IdentityBasicDeposit_def IdentityByteDeposit_def UsernameDeposit_def SubAccountDeposit_def
  DepositPerByte_def DepositPerChildTrieItem_def DepositPerItem_def MILLI_UNIT_def MICRO_UNIT_def UNIT_def

text \<open>
  One price for storage: every deposit is an entry base, where it has one, and a number of bytes at the
  price of a byte, and no division in the constants rounds.
\<close>

theorem one_price_per_byte:
  "MultisigDepositFactor = 32 * DataDepositPerByte" "ProxyDepositFactor = 37 * DataDepositPerByte"
  "AnnouncementDepositFactor = 68 * DataDepositPerByte" "PreimageByteDeposit = DataDepositPerByte"
  "IdentityByteDeposit = DataDepositPerByte" "UsernameDeposit = 32 * DataDepositPerByte"
  "IdentityBasicDeposit = PreimageBaseDeposit + 17 * DataDepositPerByte"
  "SubAccountDeposit = PreimageBaseDeposit + 53 * DataDepositPerByte"
  "MultisigDepositBase = PreimageBaseDeposit" "ProxyDepositBase = PreimageBaseDeposit"
  "AnnouncementDepositBase = PreimageBaseDeposit" "100 * DataDepositPerByte = UNIT"
  by (simp_all add: deposit_defs)

text \<open>At 1000 gwei of gas, a byte of contract storage costs 200 gas, and a new slot of 64 bytes 20,800.\<close>

lemma contract_deposits_in_gas:
  "DepositPerByte = 200 * (1000 * 10 ^ 9)" "64 * DepositPerByte + DepositPerChildTrieItem = 20800 * (1000 * 10 ^ 9)"
  by (simp_all add: deposit_defs)

end
