(* ===== verification/Spec2Isabelle.thy ===== *)
theory Spec2Isabelle
  imports Reward ValidatorProps MiningWorker Erc20Props ProxyProps NonceReplay EthForwardProps
    GovernanceProps FeesProps MigrationProps ProxyFilter Genesis NodeRuntime InternalMiner NodeRpc NodeCommand TxPipeline
begin

text \<open>
  A verification library for Numen, a Substrate chain with proof of work by scanning generated
  asteroids, GRANDPA finality by staked validators, an ERC20 face of the native token for contracts,
  and open governance.

  \<^bold>\<open>The program and how its parts interact.\<close> The miner of a node (\<open>node/src/service.rs\<close>) or an external
  one (\<open>node/src/mining_rpc.rs\<close>) takes a task from the mining worker
  (\<open>consensus/sc-consensus-pow/src/worker.rs\<close>), grows an asteroid from the pre-hash and a nonce
  (\<open>consensus/obj-asteroid\<close>), scans it and hashes the scan (\<open>consensus/poscan\<close>), and submits a seal. Block
  import (\<open>consensus/sc-consensus-pow/src/lib.rs\<close>, \<open>consensus/poscan-pow\<close>) asks the runtime at the parent
  (\<open>runtime/src/apis.rs\<close>) for the difficulty and for the verification of the seal. The difficulty pallet
  computes the target from the block's own timestamp; the reward pallet pays the author; the validator
  pallet keeps the set that finalises blocks; the prime pallet, the governance tracks and the identity
  standard say who may change what. The claims pallet, the nonce check and the migration carry the state
  of the former Frontier EVM over to pallet-revive, and the forwarder (\<open>node/src/eth_forward.rs\<close>) answers
  Ethereum requests from whichever of the two built the block.

  \<^bold>\<open>Foundations.\<close> \<open>Prelude\<close> has the fixed-width operations of Rust with the width written out, results as
  sums, storage maps, and the locale \<open>invariant_system\<close>: an initial predicate, a step relation and an
  invariant that the steps keep, from which reachability arguments follow. The state machines of the
  components interpret it (\<open>difficulty_machine\<close>, \<open>validator_machine\<close>, \<open>worker_machine\<close>, \<open>nonce_machine\<close>,
  \<open>governance_machine\<close>, \<open>miner_machine\<close>). \<open>Bytes\<close> has byte strings and their numbers, \<open>Digest\<close> block digests
  and the author lookup with the locale \<open>author_finder\<close>, \<open>Computations\<close> the state-and-error computations
  behind Rust's \<open>?\<close>, and \<open>Constants\<close> the shared constants of the runtime.

  \<^bold>\<open>Conventions.\<close> A storage item is a field of a record, an operation a function that returns the new
  record, an error the left side of a sum, and a panic \<open>None\<close>. A dispatchable that fails returns only its
  error, since its changes are rolled back. Unsigned integers are natural numbers and signed ones
  integers, with every wrap, saturation and check of the code written as an operation of \<open>Prelude\<close>.
  Code that is not in the repository (balances, vesting, revive, the client, hashes, floating-point
  arithmetic, the random stream, network clients) is a record of functions; what the code relies on is a
  named law (\<open>lock_currency_laws\<close>, \<open>ref_laws\<close>, \<open>mig_laws\<close>, \<open>fee_laws\<close>, \<open>inherent_laws\<close>, \<open>jsonrpsee_laws\<close>), and
  concrete functions that satisfy it show that the law can hold.

  \<^bold>\<open>Proof of work.\<close>
  \<^item> \<open>Asert\<close> models \<open>compute_next_target\<close> (\<open>pallets/difficulty/src/asert.rs\<close>) and shows that the optimised
    code with its 512-bit fallback computes a closed form that stays in range and is monotone in time.
  \<^item> \<open>Difficulty\<close> models the pallet and \<open>difficulty_for_block\<close>: the state \<open>diff_state\<close>, the hook
    \<open>on_finalize\<close>, \<open>realtime_difficulty\<close>. No reachable state panics, and the difficulty a block is verified
    against is the one its execution stores.
  \<^item> \<open>Icosphere\<close> and \<open>Asteroid\<close> model the generator draw by draw in the state monad. For every seed, stream
    and rounding the mesh is closed and oriented and no index leaves its array.
  \<^item> \<open>PoScan\<close> models the work of a nonce, the seal and its verification; \<open>PowConsensus\<close> the verifier, block
    import and fork choice under finality, with the locale \<open>pow_algorithm\<close> (an accepted seal proves work)
    interpreted by PoScan; \<open>NodeRuntime\<close> the calls import makes into the runtime. This theory joins them:
    an imported block meets the difficulty that its own execution stores.
  \<^item> \<open>MiningWorker\<close> models the task queue, \<open>submit\<close> split at its locks, and the loop that feeds it;
    \<open>InternalMiner\<close> the miner threads and their shared claim. Under every interleaving a build is imported
    at most once and with an accepted seal. \<open>NodeRpc\<close> models the mining and export servers.

  \<^bold>\<open>Validators and money.\<close>
  \<^item> \<open>Validator\<close> has one definition for each dispatchable, hook and session callback of
    \<open>pallets/validator/src/lib.rs\<close>; \<open>ValidatorInv\<close> the machine over them and its invariant;
    \<open>ValidatorProps\<close> what holds in reachable states: the set, the stake, sessions, offenders, cooldowns.
    \<open>SessionWiring\<close> models how the runtime reports offences to the pallet.
  \<^item> \<open>Reward\<close> models emission with the bound on everything ever minted, \<open>Fees\<close> and \<open>FeesProps\<close> the congestion
    multiplier and the split of fees, \<open>Genesis\<close> the presets and the cap of the main network's supply.

  \<^bold>\<open>Governance.\<close> \<open>Origins\<close> has origins and the prime pallet, \<open>Identity\<close> the identity fields and the
  qualification standard, \<open>Governance\<close> the custom origins, the track table and who may submit;
  \<open>GovernanceProps\<close> has the machine of referenda over them and shows that, until a referendum on the root
  track is enacted, code moves only through the prime holder's referendum and the key only under its holder's
  signature; what a root call does is left open. \<open>ProxyFilter\<close> has the filters of delegated accounts and shows that the
  superset test is exactly the inclusion of what they let through.

  \<^bold>\<open>Ethereum.\<close>
  \<^item> \<open>Erc20\<close> models the precompile and \<open>Erc20Props\<close> its refinement of the abstract token; \<open>ProxyCode\<close> the
    assembled contract in front of it with the EVM instructions it uses, \<open>ProxyProps\<close> what running it does.
  \<^item> \<open>EvmClaims\<close> and \<open>EvmClaimsProps\<close> model the claims pallet, \<open>NonceReplay\<close> the machine that shows that a
    transaction of Frontier never runs again, \<open>Migration\<close> and \<open>MigrationProps\<close> the runtime upgrade, whose result
    is that of passing over every contract whose move fails.
  \<^item> \<open>EthForward\<close> and \<open>EthForwardProps\<close> model the forwarder: the search for the switch, routing, and logs
    across it.
  \<^item> \<open>TxPipeline\<close> has the transaction extensions, the price of a claim and the storage deposits,
    \<open>NodeCommand\<close> the chain specifications, the operator's options and the RPC surface they lead to.

  \<^bold>\<open>Bounds and fuel.\<close> The EVM interpreter \<open>evm_run\<close> takes fuel; \<open>halts\<close> says that some fuel is enough, and the
  theorem about the proxy proves it for every input. The loop that removes vesting schedules is a
  partial function whose divergence is the value \<open>None\<close>; that it ends is a theorem. The halving loop, the
  bisection of the switch and the walk to the finalised block are terminating functions. Constants are those of the
  default build, not of the feature for test networks.

  \<^bold>\<open>Not modelled.\<close>
  \<^item> Dispatch weights (\<open>runtime/src/weights\<close>, \<open>weights.rs\<close> of the pallets): tables of measured constants
    that the benchmarking tool writes.
  \<^item> The wiring of the node's service, the subcommands that hand over to \<open>sc-cli\<close>, and benchmarking support:
    calls of library constructors with no decision of their own.
  \<^item> The configuration of library pallets and the runtime APIs that forward to them: type assignments.
    Their constants appear where a component uses them.
  \<^item> The checks of the migration under \<open>try-runtime\<close>, mocks and tests, which are not part of the build.
  \<^item> IEEE rounding, the spectral scan, SHA-256 and the random stream: libraries. The theorems about
    meshes hold for every rounding; determinism across machines is an assumption, not a result.
  \<^item> Logging, telemetry, sleeping and gas.
\<close>

section \<open>From the seal to the stored difficulty\<close>

text \<open>
  C3: Block import and the runtime fit together. Let a node import a block whose inherents are
  checked, under the PoScan algorithm with this runtime at the parent, on a chain that has an
  anchor. Then the block's first extrinsic sets a timestamp that is not before the parent's and
  at most two seconds ahead of the node's clock; executing the block at that timestamp stores
  a difficulty without a panic; and the block's seal is the scan's work for its pre-hash and
  meets exactly that stored difficulty.
\<close>

theorem accepted_block_meets_stored_difficulty:
  assumes "import_block env (poscan_alg (runtime_difficulty_api fails trap decode cfg state_at)
      (runtime_verify_api vfails ops_at)) inner b = Inr r"
    and state: "state_at (parent_hash (bheader b)) = (h, s)" "reachable diff_init (chain_step cfg) (h, s)"
      "diff_config_ok cfg" "0 < anchor_timestamp s"
    and u64: "\<And>xt now_ms. decode xt = Some (Timestamp_set now_ms) \<Longrightarrow> now_ms \<le> U64_MAX"
    and laws: "inherent_laws iops"
    and api: "\<And>hd xts p. block_check_inherents env (parent_hash (bheader b)) (hd, xts) p = Inr () \<Longrightarrow>
      result_ok iops (runtime_check_inherents iops parent_ts (map (\<lambda>x. decode (encode_xt env x)) xts) p)"
    and clock: "\<And>p. inherent_providers env (parent_hash (bheader b)) = Inr p \<Longrightarrow>
      timestamp_inherent_data iops p = Inr (Some node_ts)"
    and checked: "\<not> skip_execution_checks b" "check_inherents_after env \<le> number (bheader b)"
  shows "\<exists>x xs now_ms s' sl. body b = Some (x # xs) \<and> decode (encode_xt env x) = Some (Timestamp_set now_ms)
    \<and> parent_ts \<le> now_ms \<and> now_ms \<le> node_ts + MAX_TIMESTAMP_DRIFT_MS
    \<and> on_finalize cfg (Suc h) now_ms s = Some s'
    \<and> last_log (post_digests b) = Some (Seal_item (pow_engine env) (encode_seal sl))
    \<and> work (ops_at (parent_hash (bheader b))) \<lparr> pre_hash = hash_of env (bheader b), nonce = seal_nonce sl \<rparr>
        = Some (seal_work sl)
    \<and> be_val (seal_work sl) * current_difficulty s' \<le> U256_MAX"
proof -
  let ?parent = "parent_hash (bheader b)"
  obtain b' where b': "prepare_import env (poscan_alg (runtime_difficulty_api fails trap decode cfg state_at)
      (runtime_verify_api vfails ops_at)) b = Inr b'"
    using assms(1) by (rule import_block_InrE)
  obtain x xs d sl where x: "body b = Some (x # xs)"
    and d: "runtime_difficulty_api fails trap decode cfg state_at ?parent (encode_xt env x) = Inr (Some d)"
    and seal: "last_log (post_digests b) = Some (Seal_item (pow_engine env) (encode_seal sl))"
      "work (ops_at ?parent) \<lparr> pre_hash = hash_of env (bheader b), nonce = seal_nonce sl \<rparr> = Some (seal_work sl)"
      "be_val (seal_work sl) * d \<le> U256_MAX"
    using poscan_import_work [OF b'] by blast
  obtain now_ms where now: "decode (encode_xt env x) = Some (Timestamp_set now_ms)"
    "realtime_difficulty cfg h s (now_ms div 1000) = Some d"
    using d state(1) by (rule runtime_difficulty_api_Inr)
  have "diff_inv (h, s)"
    using chain_reachable_inv state(2,3) by blast
  then obtain s' where s': "on_finalize cfg (Suc h) now_ms s = Some s'" "current_difficulty s' = d"
    using answered_difficulty_stored [OF _ state(3) u64 [OF now(1)] state(4) now(2)] by blast
  obtain p where p: "inherent_providers env ?parent = Inr p"
      "block_check_inherents env ?parent (bheader b, x # xs) p = Inr ()"
    using b' checked x by (elim prepare_import_InrD) auto
  have "parent_ts \<le> now_ms \<and> now_ms \<le> node_ts + MAX_TIMESTAMP_DRIFT_MS"
    using checked_timestamp_window [OF laws clock [OF p(1)]] api [OF p(2)] now(1) by simp
  then show ?thesis
    using x now(1) s' seal by (intro exI conjI) (assumption | simp)+
qed

text \<open>
  A node on the chain of \<open>sample_block1\<close>, with a scan whose hash is zero and a clock that shows
  the block's own timestamp.
\<close>

definition zero_ops :: "(bytes, nat) scan_ops" where
  "zero_ops = \<lparr> sha256 = (\<lambda>x. replicate 32 0), asteroid = (\<lambda>s n. s), scan = (\<lambda>m n. Some []),
     round_bucket = (\<lambda>i f. int f) \<rparr>"

definition clock_ops :: "(unit, inherent_error list) inherent_ops" where
  "clock_ops = \<lparr> check_extrinsics = (\<lambda>_ _. []), timestamp_inherent_data = (\<lambda>_. Inr (Some 1700000040000)),
     put_error = (\<lambda>e r. r @ [e]), result_ok = (\<lambda>r. r = []) \<rparr>"

definition decode_sample :: "bytes \<Rightarrow> inherent_call option" where
  "decode_sample xt = (if length xt = 8 then Some (Timestamp_set (le_val xt)) else None)"

definition runtime_env :: "(unit, nat, unit, unit) pow_env" where
  "runtime_env = sample_pow_env \<lparr> block_check_inherents := (\<lambda>h blk p.
     if result_ok clock_ops (runtime_check_inherents clock_ops 1700000000000
          (map (\<lambda>x. decode_sample (le_bytes 8 x)) (snd blk)) p)
     then Inr () else Inl (Inherents_rejected ())) \<rparr>"

definition zero_seal :: Seal where
  "zero_seal = \<lparr> seal_nonce = 7, seal_work = replicate 32 0 \<rparr>"

definition runtime_block :: "(unit, nat) import_params" where
  "runtime_block = sample_block \<lparr> body := Some [1700000040000], post_digests := [Seal_item [112] (encode_seal zero_seal)] \<rparr>"

definition runtime_alg :: "unit pow_alg" where
  "runtime_alg = poscan_alg (runtime_difficulty_api (\<lambda>_. None) () decode_sample runtime_diff_config
     (\<lambda>_. (1, sample_block1))) (runtime_verify_api (\<lambda>_. None) (\<lambda>_. zero_ops))"

lemma decode_sample_bound: "decode_sample xt = Some (Timestamp_set now_ms) \<Longrightarrow> now_ms \<le> U64_MAX"
  using le_val_less [of xt] by (auto simp: decode_sample_def U64_MAX_def split: if_splits)

lemma zero_work: "work zero_ops c = Some (replicate 32 0)"
  by (simp add: work_def zero_ops_def hash_buckets_def)

lemma zero_seal_ok: "runtime_verify_seal zero_ops ph (encode_seal zero_seal) d"
proof -
  have "decode_seal (encode_seal zero_seal) = Some zero_seal"
    by (rule decode_encode_seal) (simp add: seal_wf_def zero_seal_def U256_MAX_def)
  moreover have "be_val (replicate 32 0) = 0"
    by (simp add: be_val_def numeral_eq_Suc)
  ultimately show ?thesis
    by (simp add: runtime_verify_seal_def verify_seal_def hash_meets_iff zero_work) (simp add: zero_seal_def)
qed

lemma runtime_sample_difficulty:
  obtains d where "runtime_difficulty_api (\<lambda>_. None) () decode_sample runtime_diff_config (\<lambda>_. (1, sample_block1))
      parent (le_bytes 8 1700000040000) = Inr (Some d)" "1 \<le> d" "d \<le> U256_MAX"
proof -
  have inv: "diff_inv (1, sample_block1)"
    using chain_reachable_inv sample_block1_reachable(1) runtime_diff_config_ok by blast
  have ts: "1700000040 \<le> U64_MAX"
    by (simp add: MAX_defs)
  have "1 \<le> U256_MAX div asert_spec (anchor_target sample_block1) e \<and> U256_MAX div asert_spec (anchor_target sample_block1) e \<le> U256_MAX" for e
    using asert_spec_range [of "anchor_target sample_block1"] inv div_MAX_range by (simp add: diff_inv_def)
  then show ?thesis
    using that realtime_closed [OF inv runtime_diff_config_ok ts]
    by (simp add: runtime_difficulty_api_def difficulty_for_block_def timestamp_from_inherent_def decode_sample_def le_val_le_bytes)
qed

lemma runtime_import: "import_block runtime_env runtime_alg (\<lambda>b. Inr ()) runtime_block = Inr ()"
proof -
  obtain d where d: "runtime_difficulty_api (\<lambda>_. None) () decode_sample runtime_diff_config (\<lambda>_. (1, sample_block1))
      [0] (le_bytes 8 1700000040000) = Inr (Some d)" "1 \<le> d" "d \<le> U256_MAX"
    by (rule runtime_sample_difficulty)
  have checked: "runtime_check_inherents clock_ops 1700000000000 [decode_sample (le_bytes 8 1700000040000)] () = []"
    by (simp add: runtime_check_inherents_def clock_ops_def decode_sample_def le_val_le_bytes check_timestamp_drift_def
        MAX_TIMESTAMP_DRIFT_MS_def wrapping_add_def)
  have sealed: "runtime_verify_seal zero_ops [1] (encode_seal zero_seal) d"
    by (rule zero_seal_ok)
  have "result_ok clock_ops []"
    by (simp add: clock_ops_def)
  then show ?thesis
    using d checked sealed
    by (simp add: import_block_def prepare_import_def runtime_env_def sample_pow_env_def runtime_alg_def runtime_block_def
        sample_block_def read_aux_def check_inherents_def fetch_seal_def last_log_def find_pre_digest_def poscan_alg_def
        poscan_difficulty_def poscan_verify_def runtime_verify_api_def choose_fork_def finality_conflicts_def
        walk_back.simps full_hash_def ensure_def)
qed

theorem accepted_block_meets_stored_difficulty_witness:
  "\<exists>now_ms s' (sl :: Seal). 1700000000000 \<le> now_ms \<and> now_ms \<le> 1700000042000
    \<and> on_finalize runtime_diff_config 2 now_ms sample_block1 = Some s'
    \<and> work zero_ops \<lparr> pre_hash = [1], nonce = seal_nonce sl \<rparr> = Some (seal_work sl)
    \<and> be_val (seal_work sl) * current_difficulty s' \<le> U256_MAX"
proof -
  have "block_check_inherents runtime_env parent (hd, xts) p = Inr () \<Longrightarrow>
      result_ok clock_ops (runtime_check_inherents clock_ops 1700000000000
        (map (\<lambda>x. decode_sample (encode_xt runtime_env x)) xts) p)" for parent hd xts p
    by (simp add: runtime_env_def sample_pow_env_def split: if_splits)
  moreover have "inherent_laws clock_ops" "timestamp_inherent_data clock_ops p = Inr (Some 1700000040000)" for p
    by (simp_all add: inherent_laws_def clock_ops_def)
  moreover have "\<not> skip_execution_checks runtime_block" "check_inherents_after runtime_env \<le> number (bheader runtime_block)"
    "hash_of runtime_env (bheader runtime_block) = [1]"
    by (simp_all add: runtime_block_def sample_block_def runtime_env_def sample_pow_env_def)
  ultimately obtain now_ms s' and sl :: Seal where "1700000000000 \<le> now_ms" "now_ms \<le> 1700000042000"
    "on_finalize runtime_diff_config (Suc 1) now_ms sample_block1 = Some s'"
    "work zero_ops \<lparr> pre_hash = [1], nonce = seal_nonce sl \<rparr> = Some (seal_work sl)"
    "be_val (seal_work sl) * current_difficulty s' \<le> U256_MAX"
    using accepted_block_meets_stored_difficulty [OF runtime_import [unfolded runtime_alg_def], of 1 sample_block1 clock_ops 1700000000000 1700000040000]
      sample_block1_reachable runtime_diff_config_ok decode_sample_bound
    by (auto simp: MAX_TIMESTAMP_DRIFT_MS_def)
  then show ?thesis
    by (intro exI [of _ now_ms] exI [of _ s'] exI [of _ sl]) (simp add: numeral_2_eq_2)
qed

end
